theory Spec2Isabelle
  imports Complex_Main "HOL-Library.Word" "HOL-Library.Char_ord" "HOL-Library.List_Lexorder"
    "HOL-Library.AList"
begin

unbundle bit_operations_syntax

section \<open>Python exceptions\<close>

text \<open>The built-in exceptions that the modelled functions raise themselves.\<close>

datatype py_error = ValueError | TypeError | RuntimeError

section \<open>Vector clocks (services/sync_core_worker.py)\<close>

text \<open>
  A parsed vector clock is the dict \<open>{"N": n, "S": s}\<close> that \<open>_parse_vclock\<close> builds: it
  always has exactly the two components, so it is a record of two Python integers.
\<close>

record vclock =
  vc_N :: int
  vc_S :: int

definition vclock_dominates :: "vclock \<Rightarrow> vclock \<Rightarrow> bool" where
  "vclock_dominates a b =
     ((vc_N a \<ge> vc_N b \<and> vc_S a \<ge> vc_S b) \<and> (vc_N a > vc_N b \<or> vc_S a > vc_S b))"

definition vclock_concurrent :: "vclock \<Rightarrow> vclock \<Rightarrow> bool" where
  "vclock_concurrent a b =
     (if a = b then False
      else \<not> vclock_dominates a b \<and> \<not> vclock_dominates b a)"

section \<open>Identifier generator (core/snowflake.py)\<close>

text \<open>
  The generator object: the fields set by \<open>__init__\<close>. The lock is not modelled: a call of
  \<open>next_id\<close> runs as one step. The system clock is the list of the millisecond readings
  that the coming calls of \<open>time.time()\<close> return; a call that needs a reading when none
  is left has not returned (\<open>None\<close>).
\<close>

record snowflake =
  worker_id :: int
  epoch_ms :: int
  last_ms :: int
  seq :: int

definition Snowflake :: "int \<Rightarrow> int \<Rightarrow> py_error + snowflake" where
  "Snowflake wid epoch =
     (if wid < 0 \<or> wid > 1023 then Inl ValueError
      else Inr \<lparr>worker_id = wid, epoch_ms = epoch, last_ms = - 1, seq = 0\<rparr>)"

text \<open>The inner \<open>while True\<close> loop: read the clock until it is past \<open>last_ms\<close>.\<close>

fun spin_wait :: "int \<Rightarrow> int list \<Rightarrow> (int \<times> int list) option" where
  "spin_wait prev [] = None"
| "spin_wait prev (t # ts) = (if t > prev then Some (t, ts) else spin_wait prev ts)"

text \<open>The last three lines of \<open>next_id\<close>: store the millisecond and compose the id.\<close>

definition emit_id :: "snowflake \<Rightarrow> int \<Rightarrow> int \<Rightarrow> int \<times> snowflake" where
  "emit_id g now_ms s =
     (let ts_part = (now_ms - epoch_ms g) AND 0x1FFFFFFFFFF
      in (push_bit 22 ts_part OR push_bit 12 (worker_id g) OR s,
          g\<lparr>last_ms := now_ms, seq := s\<rparr>))"

definition next_id :: "snowflake \<Rightarrow> int list \<Rightarrow> ((int \<times> snowflake) \<times> int list) option" where
  "next_id g clock =
     (case clock of
        [] \<Rightarrow> None
      | t # ts \<Rightarrow>
          (let now_ms = (if t < last_ms g then last_ms g else t)
           in if now_ms = last_ms g then
                (let s = (seq g + 1) AND 0xFFF
                 in if s = 0 then
                      (case spin_wait (last_ms g) ts of
                         None \<Rightarrow> None
                       | Some (now', ts') \<Rightarrow> Some (emit_id g now' s, ts'))
                    else Some (emit_id g now_ms s, ts))
              else Some (emit_id g now_ms 0, ts)))"

text \<open>\<open>n\<close> calls of \<open>next_id\<close> in a row on one generator: the ids in the order returned.\<close>

fun next_ids :: "nat \<Rightarrow> snowflake \<Rightarrow> int list \<Rightarrow> (int list \<times> snowflake \<times> int list) option" where
  "next_ids 0 g clock = Some ([], g, clock)"
| "next_ids (Suc n) g clock =
     (case next_id g clock of
        None \<Rightarrow> None
      | Some ((i, g'), clock') \<Rightarrow>
          (case next_ids n g' clock' of
             None \<Rightarrow> None
           | Some (ids, g'', clock'') \<Rightarrow> Some (i # ids, g'', clock'')))"

text \<open>What \<open>__init__\<close> establishes and every call keeps.\<close>

definition snowflake_ok :: "snowflake \<Rightarrow> bool" where
  "snowflake_ok g = (0 \<le> worker_id g \<and> worker_id g \<le> 1023 \<and> 0 \<le> seq g \<and> seq g \<le> 4095)"

text \<open>The readings for which the 41-bit timestamp field holds the elapsed time itself.\<close>

definition in_epoch_range :: "snowflake \<Rightarrow> int \<Rightarrow> bool" where
  "in_epoch_range g t = (epoch_ms g \<le> t \<and> t < epoch_ms g + 2 ^ 41)"


text \<open>
  The id as arithmetic on the state that \<open>next_id\<close> leaves: the three fields do not
  overlap, so the bitwise composition is a sum.
\<close>

definition id_code :: "snowflake \<Rightarrow> int" where
  "id_code g = (last_ms g - epoch_ms g) * 2 ^ 22 + worker_id g * 2 ^ 12 + seq g"

section \<open>Transaction retry wrapper (core/transaction.py)\<close>

text \<open>
  An exception as \<open>is_retryable_error\<close> sees it: whether it is an instance of
  \<open>DBAPIError\<close> or \<open>OperationalError\<close>, and its message \<open>str(error)\<close>. Strings are
  byte strings here, and \<open>str.lower\<close> is its ASCII part.
\<close>

record exn =
  is_dbapi_error :: bool
  message :: string

definition char_lower :: "char \<Rightarrow> char" where
  "char_lower c =
     (if CHR ''A'' \<le> c \<and> c \<le> CHR ''Z'' then char_of (of_char c + (32::nat)) else c)"

definition lower :: "string \<Rightarrow> string" where
  "lower s = map char_lower s"

fun starts_with :: "string \<Rightarrow> string \<Rightarrow> bool" where
  "starts_with [] s = True"
| "starts_with (p # ps) [] = False"
| "starts_with (p # ps) (c # cs) = (p = c \<and> starts_with ps cs)"

text \<open>Python's \<open>pattern in text\<close> on strings.\<close>

fun str_contains :: "string \<Rightarrow> string \<Rightarrow> bool" where
  "str_contains pat [] = (pat = [])"
| "str_contains pat (c # cs) = (starts_with pat (c # cs) \<or> str_contains pat cs)"

definition retryable_patterns :: "string list" where
  "retryable_patterns =
     [''deadlock'', ''lock wait timeout'', ''could not serialize'', ''database is locked'',
      ''serialization failure'']"

definition is_retryable_error :: "exn \<Rightarrow> bool" where
  "is_retryable_error error =
     (if \<not> is_dbapi_error error then False
      else (let error_msg = lower (message error)
            in list_ex (\<lambda>pattern. str_contains pattern error_msg) retryable_patterns))"

text \<open>\<open>TransactionConfig\<close>: the retry constants. The delays are Python floats; the model
  computes with the rational numbers they stand for.\<close>

definition MAX_RETRIES :: int where "MAX_RETRIES = 3"
definition RETRY_DELAY :: rat where "RETRY_DELAY = 1 / 10"
definition RETRY_BACKOFF :: rat where "RETRY_BACKOFF = 2"

text \<open>
  What the wrapper does to its session and to the clock, in order, and how it ends.
\<close>

datatype tx_event = SetIsolation string | Commit | Rollback | Sleep rat

datatype 'a tx_outcome = Returned 'a | Raised exn | RaisedValueError | RaisedRuntimeError

text \<open>
  The \<open>while attempt < max_retries\<close> loop. \<open>func k\<close> is how the call of the wrapped
  function together with \<open>session.commit()\<close> ends in the iteration where \<open>attempt = k\<close>:
  \<open>Inr\<close> its result, \<open>Inl\<close> the exception raised.
\<close>

function retry_loop ::
  "(int \<Rightarrow> exn + 'a) \<Rightarrow> int \<Rightarrow> int \<Rightarrow> rat \<Rightarrow> tx_event list \<Rightarrow> 'a tx_outcome \<times> tx_event list"
where
  "retry_loop func max_retries attempt delay tr =
     (if attempt < max_retries then
        (case func attempt of
           Inr result \<Rightarrow> (Returned result, tr @ [Commit])
         | Inl e \<Rightarrow>
             (if is_retryable_error e \<and> attempt < max_retries - 1
              then retry_loop func max_retries (attempt + 1) (delay * RETRY_BACKOFF)
                     (tr @ [Rollback, Sleep delay])
              else (Raised e, tr @ [Rollback])))
      else (RaisedRuntimeError, tr))"
  by pat_completeness auto
termination
  by (relation "measure (\<lambda>(func, max_retries, attempt, delay, tr). nat (max_retries - attempt))")
    auto

declare retry_loop.simps [simp del]

text \<open>
  The decorated function. \<open>max_retries = None\<close> takes the configured default;
  \<open>has_session\<close> says whether a truthy \<open>session\<close> keyword argument was passed.
\<close>

definition with_transaction ::
  "int option \<Rightarrow> string option \<Rightarrow> bool \<Rightarrow> (int \<Rightarrow> exn + 'a) \<Rightarrow> 'a tx_outcome \<times> tx_event list"
where
  "with_transaction max_retries isolation_level has_session func =
     (let max_retries = (case max_retries of None \<Rightarrow> MAX_RETRIES | Some m \<Rightarrow> m)
      in if \<not> has_session then (RaisedValueError, [])
         else retry_loop func max_retries 0 RETRY_DELAY
                (case isolation_level of None \<Rightarrow> [] | Some l \<Rightarrow> [SetIsolation l]))"

text \<open>The session and clock events of \<open>k\<close> failed attempts that were retried.\<close>

definition retried :: "nat \<Rightarrow> tx_event list" where
  "retried k = concat (map (\<lambda>j. [Rollback, Sleep (RETRY_DELAY * RETRY_BACKOFF ^ j)]) [0..<k])"

section \<open>Python values and JSON snapshots (services/sync_core_worker.py)\<close>

text \<open>
  The values that row snapshots and payloads hold. A dict is an association list in
  insertion order with distinct keys; \<open>POther\<close> stands for an object of any other class
  (datetime, Decimal, float) and carries its text. Equality of two values is equality of
  the terms; Python's \<open>1 == True\<close> and the order-independence of nested dicts are not
  modelled, the order-independence of the compared top-level dicts is (\<open>dict_eq\<close>).
\<close>

datatype pyval =
    PNone
  | PBool bool
  | PInt int
  | PStr string
  | PList "pyval list"
  | PDict "(string \<times> pyval) list"
  | POther string

type_synonym pydict = "(string \<times> pyval) list"

fun truthy :: "pyval \<Rightarrow> bool" where
  "truthy PNone = False"
| "truthy (PBool b) = b"
| "truthy (PInt n) = (n \<noteq> 0)"
| "truthy (PStr s) = (s \<noteq> [])"
| "truthy (PList xs) = (xs \<noteq> [])"
| "truthy (PDict d) = (d \<noteq> [])"
| "truthy (POther s) = True"

text \<open>\<open>d.get(k)\<close> and \<open>d.get(k, default)\<close>.\<close>

definition py_get :: "pydict \<Rightarrow> string \<Rightarrow> pyval" where
  "py_get d k = (case map_of d k of None \<Rightarrow> PNone | Some v \<Rightarrow> v)"

definition py_get_default :: "pydict \<Rightarrow> string \<Rightarrow> pyval \<Rightarrow> pyval" where
  "py_get_default d k dflt = (case map_of d k of None \<Rightarrow> dflt | Some v \<Rightarrow> v)"

text \<open>\<open>d[k] = v\<close>: in place when the key is there, appended otherwise.\<close>

definition py_set :: "pydict \<Rightarrow> string \<Rightarrow> pyval \<Rightarrow> pydict" where
  "py_set d k v = AList.update k v d"

text \<open>\<open>a == b\<close> on two dicts: the same keys with the same values, in any order.\<close>

definition dict_eq :: "pydict \<Rightarrow> pydict \<Rightarrow> bool" where
  "dict_eq a b = list_all (\<lambda>k. map_of a k = map_of b k) (map fst a @ map fst b)"

text \<open>
  The library functions that the code calls and the model does not define: \<open>json.loads\<close>
  (\<open>None\<close> when it raises) and \<open>int\<close> on a string (\<open>None\<close> when it raises); and what
  the database engines decide: whether a statement violates a constraint of the schema
  (the exception raised, as a function of the rows of that database). \<open>int_of_other\<close> is
  \<open>int\<close> on an object of another class (a float truncates, a datetime raises), \<open>py_repr\<close>
  the text of a list or a dict. The last two fields belong to routers/sync_api.py: the
  exception that a SELECT on a table of a database raises (an unknown table), and the
  propagation of one row to one database (\<open>_ensure_fk_dependencies\<close> followed by
  \<open>_upsert_row_by_id\<close>), which is not embedded; it raises an \<open>HTTPException\<close> with a
  status code, or any other exception.
\<close>

datatype exc =
    IntegrityError "int option" "string option"
  | SQLAlchemyError
  | PyError py_error

datatype api_exc = HTTPException int | Propagated exc

type_synonym db_rows = "string \<Rightarrow> (int \<times> pydict) list"

record env =
  json_loads :: "string \<Rightarrow> pyval option"
  int_of_str :: "string \<Rightarrow> int option"
  int_of_other :: "string \<Rightarrow> int option"
  py_repr :: "pyval \<Rightarrow> string"
  upsert_violation :: "db_rows \<Rightarrow> string \<Rightarrow> string \<Rightarrow> pydict \<Rightarrow> exc option"
  delete_violation :: "db_rows \<Rightarrow> string \<Rightarrow> string \<Rightarrow> int \<Rightarrow> exc option"
  update_violation :: "db_rows \<Rightarrow> string \<Rightarrow> string \<Rightarrow> int \<Rightarrow> exc option"
  select_failure :: "string \<Rightarrow> string \<Rightarrow> exc option"
  api_sync_row :: "(string \<Rightarrow> db_rows) \<Rightarrow> string \<Rightarrow> string \<Rightarrow> string \<Rightarrow> pydict
                   \<Rightarrow> api_exc + (string \<Rightarrow> db_rows)"

text \<open>\<open>str.strip()\<close>, on the ASCII white space.\<close>

definition is_space :: "char \<Rightarrow> bool" where
  "is_space c = (c \<in> set [CHR '' '', CHR 0x09, CHR 0x0A, CHR 0x0B, CHR 0x0C, CHR 0x0D,
                          CHR 0x1C, CHR 0x1D, CHR 0x1E, CHR 0x1F])"

definition strip :: "string \<Rightarrow> string" where
  "strip s = rev (dropWhile is_space (rev (dropWhile is_space s)))"

text \<open>\<open>str(n)\<close> for an integer: its decimal digits.\<close>

definition digit_char :: "nat \<Rightarrow> char" where
  "digit_char d = char_of (of_char CHR ''0'' + d)"

fun str_of_nat :: "nat \<Rightarrow> string" where
  "str_of_nat n = (if n < 10 then [digit_char n] else str_of_nat (n div 10) @ [digit_char (n mod 10)])"

declare str_of_nat.simps [simp del]

definition str_of_int :: "int \<Rightarrow> string" where
  "str_of_int i = (if i < 0 then CHR ''-'' # str_of_nat (nat (- i)) else str_of_nat (nat i))"

text \<open>
  \<open>_parse_json_maybe\<close>. Bytes are not a separate class here: a snapshot read as bytes is
  the string it decodes to.
\<close>

definition parse_json_maybe :: "env \<Rightarrow> pyval \<Rightarrow> pyval" where
  "parse_json_maybe E v =
     (case v of
        PNone \<Rightarrow> PNone
      | PDict d \<Rightarrow> v
      | PList xs \<Rightarrow> v
      | PStr s \<Rightarrow>
          (let s' = strip s
           in if s' = [] then PNone
              else (case json_loads E s' of Some j \<Rightarrow> j | None \<Rightarrow> PStr s'))
      | _ \<Rightarrow> v)"

text \<open>\<open>int(x)\<close> and \<open>int(x or 0)\<close>.\<close>

definition py_int :: "env \<Rightarrow> pyval \<Rightarrow> exc + int" where
  "py_int E v =
     (case v of
        PInt n \<Rightarrow> Inr n
      | PBool b \<Rightarrow> Inr (if b then 1 else 0)
      | PStr s \<Rightarrow> (case int_of_str E s of Some n \<Rightarrow> Inr n | None \<Rightarrow> Inl (PyError ValueError))
      | POther s \<Rightarrow> (case int_of_other E s of Some n \<Rightarrow> Inr n | None \<Rightarrow> Inl (PyError TypeError))
      | _ \<Rightarrow> Inl (PyError TypeError))"

definition int_or0 :: "env \<Rightarrow> pyval \<Rightarrow> exc + int" where
  "int_or0 E v = (if truthy v then py_int E v else Inr 0)"

definition parse_vclock :: "env \<Rightarrow> pyval \<Rightarrow> exc + vclock" where
  "parse_vclock E v =
     (case parse_json_maybe E v of
        PDict parsed \<Rightarrow>
          (case int_or0 E (py_get_default parsed ''N'' (PInt 0)) of
             Inl e \<Rightarrow> Inl e
           | Inr n \<Rightarrow>
               (case int_or0 E (py_get_default parsed ''S'' (PInt 0)) of
                  Inl e \<Rightarrow> Inl e
                | Inr s \<Rightarrow> Inr \<lparr>vc_N = n, vc_S = s\<rparr>))
      | _ \<Rightarrow> Inr \<lparr>vc_N = 0, vc_S = 0\<rparr>)"

text \<open>The vector clock as the dict it is in Python, and as compact JSON text.\<close>

definition vclock_dict :: "vclock \<Rightarrow> pyval" where
  "vclock_dict v = PDict [(''N'', PInt (vc_N v)), (''S'', PInt (vc_S v))]"

definition dumps_vclock_compact :: "vclock \<Rightarrow> string" where
  "dumps_vclock_compact v =
     [CHR ''{'', CHR 0x22, CHR ''N'', CHR 0x22, CHR '':''] @ str_of_int (vc_N v)
     @ [CHR '','', CHR 0x22, CHR ''S'', CHR 0x22, CHR '':''] @ str_of_int (vc_S v) @ [CHR ''}'']"

text \<open>The component of a clock that an origin bumps: the values of \<open>EDGE_ORIGINS\<close>.\<close>

datatype origin_key = KeyN | KeyS

definition EDGE_ORIGINS :: "(string \<times> origin_key) list" where
  "EDGE_ORIGINS = [(''mariadb'', KeyN), (''postgres'', KeyS)]"

definition TRACKED_TABLES :: "string list" where
  "TRACKED_TABLES =
     [''users'', ''user_profiles'', ''items'', ''item_images'', ''transactions'', ''messages'',
      ''favorites'']"

fun vc_get :: "vclock \<Rightarrow> origin_key \<Rightarrow> int" where
  "vc_get v KeyN = vc_N v"
| "vc_get v KeyS = vc_S v"

fun vc_set :: "vclock \<Rightarrow> origin_key \<Rightarrow> int \<Rightarrow> vclock" where
  "vc_set v KeyN n = v\<lparr>vc_N := n\<rparr>"
| "vc_set v KeyS n = v\<lparr>vc_S := n\<rparr>"

definition strip_non_semantic_fields :: "pydict \<Rightarrow> pydict" where
  "strip_non_semantic_fields payload =
     filter (\<lambda>(k, v). k \<notin> set [''updated_at'', ''created_at'', ''sync_version'']) payload"

text \<open>\<open>_json_safe\<close>: objects of other classes become their text.\<close>

fun json_safe :: "pyval \<Rightarrow> pyval" where
  "json_safe (POther s) = PStr s"
| "json_safe (PDict d) = PDict (map (\<lambda>(k, v). (k, json_safe v)) d)"
| "json_safe (PList xs) = PList (map json_safe xs)"
| "json_safe v = v"

section \<open>The databases (core/models/sync.py and the tracked tables)\<close>

text \<open>
  A row of an edge database's \<open>sync_log\<close> table, and the \<open>EdgeLogRow\<close> that
  \<open>_fetch_edge_logs\<close> builds from it (\<open>occurred_at\<close> is not used by the worker).
\<close>

record sync_log_entry =
  sl_log_id :: int
  sl_table_name :: string
  sl_data_id :: int
  sl_operation :: string
  sl_old_data :: pyval
  sl_new_data :: pyval
  sl_status :: int

record edge_log_row =
  log_id :: int
  table_name :: string
  data_id :: int
  operation :: string
  old_data :: pyval
  new_data :: pyval

text \<open>The hub's tables: \<open>sync_configs\<close>, \<open>conflict_records\<close>. Datetimes are
  microseconds of UTC.\<close>

record sync_config =
  cfg_id :: int
  cfg_source :: string
  cfg_target :: string
  cfg_mode :: string
  interval_seconds :: int
  enabled :: bool
  last_run_at :: "int option"

record conflict_record =
  cr_id :: int
  cr_table_name :: string
  cr_record_id :: int
  cr_source :: string
  cr_target :: string
  cr_payload :: pyval
  cr_resolved :: bool
  cr_status :: string
  cr_resolution_note :: "string option"
  cr_resolved_by :: "int option"
  cr_resolved_at :: "int option"

text \<open>The statements run on the business tables and the change logs, in order.\<close>

datatype db_op =
    OpSelect string string int
  | OpSelectWhere string string string pyval
  | OpUpsert string string pydict
  | OpDelete string string int
  | OpUpdateVClock string string int string
  | OpMarkProcessed string int

text \<open>
  All the state the worker and the conflict API touch. \<open>rows db table\<close> is a table of
  a database as the list of its rows by primary key; \<open>sync_log db\<close> the change log of an
  edge database; the other tables are the hub's. \<open>sync_worker_state\<close> maps a worker
  name to its \<open>last_event_id\<close>; \<open>daily_stats\<close> holds today's counters; \<open>utc_now\<close> is
  the clock, which stands still while the worker runs. \<open>ops\<close> is the trace of the
  statements on rows and logs.
\<close>

record world =
  rows :: "string \<Rightarrow> db_rows"
  sync_log :: "string \<Rightarrow> sync_log_entry list"
  conflict_records :: "conflict_record list"
  sync_worker_state :: "(string \<times> int) list"
  sync_configs :: "sync_config list"
  daily_stats :: "string \<Rightarrow> int"
  utc_now :: int
  ops :: "db_op list"

definition log_op :: "db_op \<Rightarrow> world \<Rightarrow> world" where
  "log_op x w = w\<lparr>ops := ops w @ [x]\<rparr>"

definition set_table :: "world \<Rightarrow> string \<Rightarrow> string \<Rightarrow> (int \<times> pydict) list \<Rightarrow> world" where
  "set_table w db t tbl = w\<lparr>rows := (rows w)(db := (rows w db)(t := tbl))\<rparr>"

section \<open>Cursor and change log (services/sync_core_worker.py)\<close>

definition load_cursor :: "world \<Rightarrow> string \<Rightarrow> int \<times> world" where
  "load_cursor w worker_name =
     (case map_of (sync_worker_state w) worker_name of
        None \<Rightarrow> (0, w\<lparr>sync_worker_state := sync_worker_state w @ [(worker_name, 0)]\<rparr>)
      | Some v \<Rightarrow> (v, w))"

definition store_cursor :: "world \<Rightarrow> string \<Rightarrow> int \<Rightarrow> world" where
  "store_cursor w worker_name last_log_id =
     w\<lparr>sync_worker_state := AList.update worker_name last_log_id (sync_worker_state w)\<rparr>"

definition char_upper :: "char \<Rightarrow> char" where
  "char_upper c =
     (if CHR ''a'' \<le> c \<and> c \<le> CHR ''z'' then char_of (of_char c - (32::nat)) else c)"

definition upper :: "string \<Rightarrow> string" where
  "upper s = map char_upper s"

definition fetch_edge_logs :: "env \<Rightarrow> world \<Rightarrow> string \<Rightarrow> int \<Rightarrow> int \<Rightarrow> edge_log_row list" where
  "fetch_edge_logs E w origin_db after_log_id limit =
     map (\<lambda>r. \<lparr>log_id = sl_log_id r, table_name = sl_table_name r, data_id = sl_data_id r,
               operation = upper (sl_operation r),
               old_data = parse_json_maybe E (sl_old_data r),
               new_data = parse_json_maybe E (sl_new_data r)\<rparr>)
       (take (nat limit)
          (sort_key sl_log_id
             (filter (\<lambda>r. sl_status r = 0 \<and> sl_log_id r > after_log_id) (sync_log w origin_db))))"

definition mark_edge_log_processed :: "world \<Rightarrow> string \<Rightarrow> int \<Rightarrow> world" where
  "mark_edge_log_processed w origin_db lid =
     log_op (OpMarkProcessed origin_db lid)
       (w\<lparr>sync_log := (sync_log w)
            (origin_db := map (\<lambda>r. if sl_log_id r = lid then r\<lparr>sl_status := 1\<rparr> else r)
                            (sync_log w origin_db))\<rparr>)"

section \<open>Reading and writing rows (services/sync_core_worker.py)\<close>

definition select_current_row :: "world \<Rightarrow> string \<Rightarrow> string \<Rightarrow> int \<Rightarrow> pydict option \<times> world" where
  "select_current_row w target_db tbl record_id =
     (map_of (rows w target_db tbl) record_id, log_op (OpSelect target_db tbl record_id) w)"

definition select_edge_row :: "world \<Rightarrow> string \<Rightarrow> string \<Rightarrow> int \<Rightarrow> pydict option \<times> world" where
  "select_edge_row w origin_db tbl record_id =
     (map_of (rows w origin_db tbl) record_id, log_op (OpSelect origin_db tbl record_id) w)"

text \<open>\<open>SELECT id FROM t WHERE col = :v LIMIT 1\<close>: the first row found, if any.\<close>

definition select_id_where :: "world \<Rightarrow> string \<Rightarrow> string \<Rightarrow> string \<Rightarrow> pyval \<Rightarrow> int option \<times> world" where
  "select_id_where w db tbl col v =
     (map_option fst (find (\<lambda>(k, r). map_of r col = Some v) (rows w db tbl)),
      log_op (OpSelectWhere db tbl col v) w)"

definition normalize_payload_for_target :: "string \<Rightarrow> pydict \<Rightarrow> pydict" where
  "normalize_payload_for_target target_db payload =
     (if target_db \<noteq> ''postgres'' then payload
      else map (\<lambda>(key, v).
                  if starts_with ''is_'' key
                  then (case v of
                          PInt n \<Rightarrow> (if n = 0 \<or> n = 1 then (key, PBool (n \<noteq> 0)) else (key, v))
                        | PBool b \<Rightarrow> (key, PBool b)
                        | _ \<Rightarrow> (key, v))
                  else (key, v)) payload)"

text \<open>
  What the engine does with the statement that \<open>_upsert_row\<close> builds: \<open>INSERT\<close> of
  \<open>insert_cols\<close>, and on a row with that primary key \<open>UPDATE\<close> of \<open>update_cols\<close> instead.
  An empty \<open>SET\<close> list is a syntax error, a violated constraint raises what the schema
  says, an id that is not an integer is refused; an exception leaves the database as it
  was. The duplicate-key clause of MySQL is taken on the primary key only.
\<close>

definition exec_upsert ::
  "env \<Rightarrow> world \<Rightarrow> string \<Rightarrow> string \<Rightarrow> string list \<Rightarrow> string list \<Rightarrow> pydict \<Rightarrow> (exc + unit) \<times> world"
where
  "exec_upsert E w db tbl insert_cols update_cols params =
     (if update_cols = [] then (Inl SQLAlchemyError, w)
      else (case upsert_violation E (rows w db) db tbl params of
              Some e \<Rightarrow> (Inl e, w)
            | None \<Rightarrow>
                (case map_of params ''id'' of
                   Some (PInt k) \<Rightarrow>
                     (let new_row =
                        (case map_of (rows w db tbl) k of
                           None \<Rightarrow> map (\<lambda>c. (c, py_get params c)) insert_cols
                         | Some old \<Rightarrow> fold (\<lambda>c r. AList.update c (py_get params c) r) update_cols old)
                      in (Inr (),
                          log_op (OpUpsert db tbl params)
                            (set_table w db tbl (AList.update k new_row (rows w db tbl)))))
                 | _ \<Rightarrow> (Inl SQLAlchemyError, w))))"

definition upsert_row :: "env \<Rightarrow> world \<Rightarrow> string \<Rightarrow> string \<Rightarrow> pydict \<Rightarrow> (exc + unit) \<times> world" where
  "upsert_row E w target_db tbl payload0 =
     (let payload = normalize_payload_for_target target_db payload0;
          cols = map fst payload
      in if ''id'' \<notin> set (map fst payload) then (Inl (PyError ValueError), w)
         else (let update_cols = filter (\<lambda>c. c \<noteq> ''id'') cols
               in exec_upsert E w target_db tbl cols update_cols payload))"

definition delete_row :: "env \<Rightarrow> world \<Rightarrow> string \<Rightarrow> string \<Rightarrow> int \<Rightarrow> (exc + unit) \<times> world" where
  "delete_row E w target_db tbl record_id =
     (case delete_violation E (rows w target_db) target_db tbl record_id of
        Some e \<Rightarrow> (Inl e, w)
      | None \<Rightarrow>
          (Inr (),
           log_op (OpDelete target_db tbl record_id)
             (set_table w target_db tbl (AList.delete record_id (rows w target_db tbl)))))"

text \<open>
  \<open>_record_conflict\<close>: the new row of \<open>conflict_records\<close>, with the next id. The mail that
  follows is best effort and changes nothing here.
\<close>

definition next_conflict_id :: "conflict_record list \<Rightarrow> int" where
  "next_conflict_id cs = fold max (map cr_id cs) 0 + 1"

definition record_conflict ::
  "world \<Rightarrow> string \<Rightarrow> int \<Rightarrow> string \<Rightarrow> string \<Rightarrow> pyval \<Rightarrow> int \<times> world"
where
  "record_conflict w tbl record_id src tgt payload =
     (let conflict_id = next_conflict_id (conflict_records w);
          r = \<lparr>cr_id = conflict_id, cr_table_name = tbl, cr_record_id = record_id,
               cr_source = src, cr_target = tgt, cr_payload = json_safe payload,
               cr_resolved = False, cr_status = ''pending'', cr_resolution_note = None,
               cr_resolved_by = None, cr_resolved_at = None\<rparr>
      in (conflict_id, w\<lparr>conflict_records := conflict_records w @ [r]\<rparr>))"

definition bump_daily_stat :: "world \<Rightarrow> string \<Rightarrow> world" where
  "bump_daily_stat w field = w\<lparr>daily_stats := (daily_stats w)(field := daily_stats w field + 1)\<rparr>"

section \<open>Processing one change event (\<open>_process_edge_row\<close>)\<close>

definition is_insert_or_update :: "string \<Rightarrow> bool" where
  "is_insert_or_update op = (op \<in> set [''INSERT'', ''UPDATE''])"

text \<open>\<open>value if isinstance(value, dict) else None\<close>.\<close>

definition as_dict :: "pyval \<Rightarrow> pydict option" where
  "as_dict v = (case v of PDict d \<Rightarrow> Some d | _ \<Rightarrow> None)"

definition opt_dict :: "pydict option \<Rightarrow> pyval" where
  "opt_dict d = (case d of None \<Rightarrow> PNone | Some r \<Rightarrow> PDict r)"

text \<open>
  Smart-fix, the decision (\<open>needs_fix\<close>): the before and after snapshots are dicts with
  the same clock and different business fields; or there is no before snapshot, the
  event is an INSERT and the origin's component is not positive. Parsing a clock can
  raise.
\<close>

definition needs_fix :: "env \<Rightarrow> origin_key \<Rightarrow> edge_log_row \<Rightarrow> vclock \<Rightarrow> exc + bool" where
  "needs_fix E origin_key row v_clock =
     (case (as_dict (old_data row), as_dict (new_data row)) of
        (Some old_payload, Some new_payload) \<Rightarrow>
          (case parse_vclock E (py_get old_payload ''v_clock'') of
             Inl e \<Rightarrow> Inl e
           | Inr old_v \<Rightarrow>
               (case parse_vclock E (py_get new_payload ''v_clock'') of
                  Inl e \<Rightarrow> Inl e
                | Inr new_v \<Rightarrow>
                    Inr (old_v = new_v
                         \<and> \<not> dict_eq (strip_non_semantic_fields old_payload)
                                      (strip_non_semantic_fields new_payload))))
      | _ \<Rightarrow>
          (if operation row = ''INSERT'' then Inr (vc_get v_clock origin_key \<le> 0)
           else Inr False))"

text \<open>
  Smart-fix, the repair: write the bumped clock to the origin's row, then to the event's
  after snapshot (which is the source payload) and to the clock used for the comparison.
  An \<open>SQLAlchemyError\<close> of the write is caught and leaves all three as they were; any
  other exception propagates.
\<close>

definition bump_clock :: "vclock \<Rightarrow> origin_key \<Rightarrow> vclock" where
  "bump_clock v_clock origin_key = vc_set v_clock origin_key (vc_get v_clock origin_key + 1)"

text \<open>\<open>UPDATE {table} SET v_clock = :v WHERE id = :id\<close> on the origin.\<close>

definition write_fixed_clock :: "world \<Rightarrow> string \<Rightarrow> string \<Rightarrow> int \<Rightarrow> string \<Rightarrow> world" where
  "write_fixed_clock w origin_db tbl record_id fixed_text =
     log_op (OpUpdateVClock origin_db tbl record_id fixed_text)
       (set_table w origin_db tbl
          (case map_of (rows w origin_db tbl) record_id of
             None \<Rightarrow> rows w origin_db tbl
           | Some r \<Rightarrow>
               AList.update record_id (py_set r ''v_clock'' (PStr fixed_text)) (rows w origin_db tbl)))"

definition smart_fix ::
  "env \<Rightarrow> world \<Rightarrow> string \<Rightarrow> origin_key \<Rightarrow> edge_log_row \<Rightarrow> vclock
     \<Rightarrow> (exc + edge_log_row \<times> vclock) \<times> world"
where
  "smart_fix E w origin_db origin_key row v_clock =
     (if is_insert_or_update (operation row) then
        (case needs_fix E origin_key row v_clock of
           Inl e \<Rightarrow> (Inl e, w)
         | Inr False \<Rightarrow> (Inr (row, v_clock), w)
         | Inr True \<Rightarrow>
             (let fixed = bump_clock v_clock origin_key;
                  fixed_text = dumps_vclock_compact fixed
              in (case update_violation E (rows w origin_db) origin_db (table_name row) (data_id row) of
                    Some (PyError e) \<Rightarrow> (Inl (PyError e), w)
                  | Some e \<Rightarrow> (Inr (row, v_clock), w)
                  | None \<Rightarrow>
                      (Inr (row\<lparr>new_data :=
                                 (case new_data row of
                                    PDict d \<Rightarrow> PDict (py_set d ''v_clock'' (PStr fixed_text))
                                  | v \<Rightarrow> v)\<rparr>,
                            fixed),
                       write_fixed_clock w origin_db (table_name row) (data_id row) fixed_text))))
      else (Inr (row, v_clock), w))"

text \<open>\<open>source_payload\<close>: the after snapshot of an INSERT or UPDATE, else the before one.\<close>

definition source_payload_of :: "edge_log_row \<Rightarrow> pyval" where
  "source_payload_of row =
     (if is_insert_or_update (operation row) then new_data row else old_data row)"

text \<open>The payloads of the two kinds of conflict record.\<close>

definition delete_conflict_payload ::
  "string \<Rightarrow> string \<Rightarrow> edge_log_row \<Rightarrow> vclock \<Rightarrow> vclock \<Rightarrow> pydict option \<Rightarrow> pyval"
where
  "delete_conflict_payload origin_db target_db row v_clock current_v current =
     PDict [(''reason'', PStr ''vector_clock_conflict_delete''),
            (''origin'', PStr origin_db),
            (''target'', PStr target_db),
            (''table'', PStr (table_name row)),
            (''record_id'', PInt (data_id row)),
            (''edge_log_id'', PInt (log_id row)),
            (''source_v_clock'', vclock_dict v_clock),
            (''target_v_clock'', vclock_dict current_v),
            (''source_old'', old_data row),
            (''target_current'', opt_dict current)]"

definition update_conflict_payload ::
  "string \<Rightarrow> string \<Rightarrow> edge_log_row \<Rightarrow> vclock \<Rightarrow> vclock \<Rightarrow> pydict option \<Rightarrow> pyval"
where
  "update_conflict_payload origin_db target_db row v_clock current_v current =
     PDict [(''reason'', PStr ''vector_clock_conflict''),
            (''origin'', PStr origin_db),
            (''target'', PStr target_db),
            (''table'', PStr (table_name row)),
            (''record_id'', PInt (data_id row)),
            (''edge_log_id'', PInt (log_id row)),
            (''operation'', PStr (operation row)),
            (''source_v_clock'', vclock_dict v_clock),
            (''target_v_clock'', vclock_dict current_v),
            (''source_old'', old_data row),
            (''source_new'', new_data row),
            (''target_current'', opt_dict current)]"

text \<open>\<open>_upsert_row\<close> followed by \<open>_bump_daily_stat("sync_success_count")\<close>.\<close>

definition upsert_and_count :: "env \<Rightarrow> world \<Rightarrow> string \<Rightarrow> string \<Rightarrow> pydict \<Rightarrow> (exc + unit) \<times> world" where
  "upsert_and_count E w target_db tbl payload =
     (case upsert_row E w target_db tbl payload of
        (Inl e, w') \<Rightarrow> (Inl e, w')
      | (Inr u, w') \<Rightarrow> (Inr (), bump_daily_stat w' ''sync_success_count''))"

text \<open>
  The body of the \<open>try\<close> for one target: read the target's row, compare the clocks,
  then delete, upsert, skip or record a conflict. \<open>Inl\<close> is the exception raised inside
  the \<open>try\<close>.
\<close>

definition sync_to_target ::
  "env \<Rightarrow> world \<Rightarrow> string \<Rightarrow> edge_log_row \<Rightarrow> pydict \<Rightarrow> vclock \<Rightarrow> string \<Rightarrow> (exc + unit) \<times> world"
where
  "sync_to_target E w origin_db row source_payload v_clock target_db =
     (case select_current_row w target_db (table_name row) (data_id row) of
        (current, w1) \<Rightarrow>
          (case parse_vclock E (py_get (case current of None \<Rightarrow> [] | Some c \<Rightarrow> c) ''v_clock'') of
             Inl e \<Rightarrow> (Inl e, w1)
           | Inr current_v \<Rightarrow>
               (if operation row = ''DELETE'' then
                  (if current = None \<or> vclock_dominates v_clock current_v \<or> v_clock = current_v then
                     (case delete_row E w1 target_db (table_name row) (data_id row) of
                        (Inl e, w2) \<Rightarrow> (Inl e, w2)
                      | (Inr u, w2) \<Rightarrow> (Inr (), bump_daily_stat w2 ''sync_success_count''))
                   else if vclock_concurrent v_clock current_v then
                     (case record_conflict w1 (table_name row) (data_id row) origin_db target_db
                             (delete_conflict_payload origin_db target_db row v_clock current_v current) of
                        (cid, w2) \<Rightarrow> (Inr (), bump_daily_stat w2 ''sync_conflict_count''))
                   else (Inr (), w1))
                else
                  (if current = None \<or> vclock_dominates v_clock current_v \<or> v_clock = current_v then
                     upsert_and_count E w1 target_db (table_name row) source_payload
                   else if vclock_dominates current_v v_clock then (Inr (), w1)
                   else
                     (case record_conflict w1 (table_name row) (data_id row) origin_db target_db
                             (update_conflict_payload origin_db target_db row v_clock current_v current) of
                        (cid, w2) \<Rightarrow> (Inr (), bump_daily_stat w2 ''sync_conflict_count''))))))"

text \<open>The reason tag of a conflict record, as \<open>raw_payload.get("reason")\<close> reads it.\<close>

definition conflict_reason :: "conflict_record \<Rightarrow> pyval" where
  "conflict_reason r = (case cr_payload r of PDict d \<Rightarrow> py_get d ''reason'' | _ \<Rightarrow> PNone)"

section \<open>Repairs after a failed write (the \<open>except\<close> branch of \<open>_process_edge_row\<close>)\<close>

text \<open>
  An \<open>IntegrityError\<close> carries the driver's error number (\<open>orig.args[0]\<close>) and SQLSTATE
  (\<open>orig.sqlstate\<close>).
\<close>

definition is_mysql_fk_missing :: "exc \<Rightarrow> bool" where
  "is_mysql_fk_missing e = (case e of IntegrityError (Some n) s \<Rightarrow> n = 1452 | _ \<Rightarrow> False)"

definition is_postgres_unique_violation :: "exc \<Rightarrow> bool" where
  "is_postgres_unique_violation e =
     (case e of IntegrityError n s \<Rightarrow> s = Some ''23505'' | _ \<Rightarrow> False)"

definition is_postgres_fk_missing :: "exc \<Rightarrow> bool" where
  "is_postgres_fk_missing e =
     (case e of IntegrityError n s \<Rightarrow> s = Some ''23503'' | _ \<Rightarrow> False)"

fun first_user_match :: "world \<Rightarrow> string \<Rightarrow> (string \<times> pyval) list \<Rightarrow> int option \<times> world" where
  "first_user_match w target_db [] = (None, w)"
| "first_user_match w target_db ((col, v) # cands) =
     (case select_id_where w target_db ''users'' col v of
        (Some i, w1) \<Rightarrow> (Some i, w1)
      | (None, w1) \<Rightarrow> first_user_match w1 target_db cands)"

definition map_user_id_by_unique :: "world \<Rightarrow> string \<Rightarrow> string \<Rightarrow> int \<Rightarrow> int option \<times> world" where
  "map_user_id_by_unique w origin_db target_db origin_user_id =
     (case select_edge_row w origin_db ''users'' origin_user_id of
        (None, w1) \<Rightarrow> (None, w1)
      | (Some origin_user, w1) \<Rightarrow>
          (let candidates =
                 filter (\<lambda>(col, v). truthy v)
                   (map (\<lambda>col. (col, py_get origin_user col)) [''email'', ''student_id'', ''username''])
           in if candidates = [] then (None, w1)
              else first_user_match w1 target_db candidates))"

definition select_profile_id_by_user_id :: "world \<Rightarrow> string \<Rightarrow> int \<Rightarrow> int option \<times> world" where
  "select_profile_id_by_user_id w target_db user_id =
     select_id_where w target_db ''user_profiles'' ''user_id'' (PInt user_id)"

definition ensure_parent_present ::
  "env \<Rightarrow> world \<Rightarrow> string \<Rightarrow> string \<Rightarrow> string \<Rightarrow> int \<Rightarrow> bool \<times> world"
where
  "ensure_parent_present E w origin_db target_db parent_table parent_id =
     (case select_current_row w target_db parent_table parent_id of
        (Some existing, w1) \<Rightarrow> (True, w1)
      | (None, w1) \<Rightarrow>
          (case select_edge_row w1 origin_db parent_table parent_id of
             (None, w2) \<Rightarrow> (False, w2)
           | (Some parent_payload, w2) \<Rightarrow>
               (case upsert_row E w2 target_db parent_table parent_payload of
                  (Inl e, w3) \<Rightarrow> (False, w3)
                | (Inr u, w3) \<Rightarrow> (True, w3))))"

text \<open>
  How a repair block ends: it raised (out of \<open>_process_edge_row\<close>), it wrote the row
  (\<open>continue\<close> with the next target), it gave up (\<open>return False\<close>), or it did not apply
  and the next block sees the exception it leaves.
\<close>

datatype flow = Crash exc | Continue | ReturnFalse | Fall exc

text \<open>\<open>try: _upsert_row(patched); _bump_daily_stat(...); continue\<close> with
  \<open>except: return False\<close>.\<close>

definition retry_or_fail :: "env \<Rightarrow> world \<Rightarrow> string \<Rightarrow> string \<Rightarrow> pydict \<Rightarrow> flow \<times> world" where
  "retry_or_fail E w target_db tbl patched =
     (case upsert_and_count E w target_db tbl patched of
        (Inl e, w1) \<Rightarrow> (ReturnFalse, w1)
      | (Inr u, w1) \<Rightarrow> (Continue, w1))"

text \<open>Postgres target, \<open>user_profiles\<close>, foreign key missing: map the user by its
  unique fields and retry.\<close>

definition repair_pg_profile_fk ::
  "env \<Rightarrow> world \<Rightarrow> string \<Rightarrow> string \<Rightarrow> edge_log_row \<Rightarrow> pydict \<Rightarrow> exc \<Rightarrow> flow \<times> world"
where
  "repair_pg_profile_fk E w origin_db target_db row source_payload e =
     (if target_db = ''postgres'' \<and> table_name row = ''user_profiles''
         \<and> is_insert_or_update (operation row) \<and> is_postgres_fk_missing e
      then
        (if py_get source_payload ''user_id'' = PNone then (Fall e, w)
           else
             (case py_int E (py_get source_payload ''user_id'') of
                Inl x \<Rightarrow> (Crash x, w)
              | Inr pid \<Rightarrow>
                  (case map_user_id_by_unique w origin_db target_db pid of
                     (None, w1) \<Rightarrow> (Fall e, w1)
                   | (Some mapped, w1) \<Rightarrow>
                       (case upsert_and_count E w1 target_db (table_name row)
                               (py_set source_payload ''user_id'' (PInt mapped)) of
                          (Inl exc2, w2) \<Rightarrow> (Fall exc2, w2)
                        | (Inr u, w2) \<Rightarrow> (Continue, w2)))))
      else (Fall e, w))"

text \<open>Postgres target, \<open>user_profiles\<close>, unique violation: write to the profile that
  the user already has.\<close>

definition repair_pg_profile_unique ::
  "env \<Rightarrow> world \<Rightarrow> string \<Rightarrow> string \<Rightarrow> edge_log_row \<Rightarrow> pydict \<Rightarrow> exc \<Rightarrow> flow \<times> world"
where
  "repair_pg_profile_unique E w origin_db target_db row source_payload e =
     (if target_db = ''postgres'' \<and> table_name row = ''user_profiles''
         \<and> is_insert_or_update (operation row) \<and> is_postgres_unique_violation e
      then
        (if py_get source_payload ''user_id'' = PNone then (Fall e, w)
           else
             (case py_int E (py_get source_payload ''user_id'') of
                Inl x \<Rightarrow> (Crash x, w)
              | Inr uid0 \<Rightarrow>
                  (case select_current_row w target_db ''users'' uid0 of
                     (present, w1) \<Rightarrow>
                       (case (if present = None
                              then (case map_user_id_by_unique w1 origin_db target_db uid0 of
                                      (Some mapped_uid, w2) \<Rightarrow> (mapped_uid, w2)
                                    | (None, w2) \<Rightarrow> (uid0, w2))
                              else (uid0, w1)) of
                          (uid, w2) \<Rightarrow>
                            (case select_profile_id_by_user_id w2 target_db uid of
                               (None, w3) \<Rightarrow> (Fall e, w3)
                             | (Some existing_profile_id, w3) \<Rightarrow>
                                 retry_or_fail E w3 target_db (table_name row)
                                   (py_set (py_set source_payload ''user_id'' (PInt uid))
                                      ''id'' (PInt existing_profile_id)))))))
      else (Fall e, w))"

text \<open>Postgres target, \<open>users\<close>, unique violation: write to the user that is there
  under another id.\<close>

definition repair_pg_user_unique ::
  "env \<Rightarrow> world \<Rightarrow> string \<Rightarrow> string \<Rightarrow> edge_log_row \<Rightarrow> pydict \<Rightarrow> exc \<Rightarrow> flow \<times> world"
where
  "repair_pg_user_unique E w origin_db target_db row source_payload e =
     (if target_db = ''postgres'' \<and> table_name row = ''users''
         \<and> is_insert_or_update (operation row) \<and> is_postgres_unique_violation e
      then
        (case map_user_id_by_unique w origin_db target_db (data_id row) of
           (None, w1) \<Rightarrow> (Fall e, w1)
         | (Some mapped, w1) \<Rightarrow>
             retry_or_fail E w1 target_db (table_name row) (py_set source_payload ''id'' (PInt mapped)))
      else (Fall e, w))"

text \<open>MySQL or MariaDB target, foreign key missing, table \<open>items\<close>: map the seller.\<close>

definition repair_mysql_item_fk ::
  "env \<Rightarrow> world \<Rightarrow> string \<Rightarrow> string \<Rightarrow> edge_log_row \<Rightarrow> pydict \<Rightarrow> exc \<Rightarrow> flow \<times> world"
where
  "repair_mysql_item_fk E w origin_db target_db row source_payload e =
     (if table_name row = ''items'' then
        (if py_get source_payload ''seller_id'' = PNone then (Fall e, w)
           else
             (case py_int E (py_get source_payload ''seller_id'') of
                Inl x \<Rightarrow> (Crash x, w)
              | Inr sid \<Rightarrow>
                  (case map_user_id_by_unique w origin_db target_db sid of
                     (None, w1) \<Rightarrow> (Fall e, w1)
                   | (Some mapped, w1) \<Rightarrow>
                       retry_or_fail E w1 target_db (table_name row)
                         (py_set source_payload ''seller_id'' (PInt mapped)))))
      else (Fall e, w))"

text \<open>The same, table \<open>user_profiles\<close>: backfill the parent user and retry, then map
  the user and retry.\<close>

definition repair_mysql_profile_fk ::
  "env \<Rightarrow> world \<Rightarrow> string \<Rightarrow> string \<Rightarrow> edge_log_row \<Rightarrow> pydict \<Rightarrow> exc \<Rightarrow> flow \<times> world"
where
  "repair_mysql_profile_fk E w origin_db target_db row source_payload e =
     (if table_name row = ''user_profiles'' then
        (if py_get source_payload ''user_id'' = PNone then (Fall e, w)
           else
             (case py_int E (py_get source_payload ''user_id'') of
                Inl x \<Rightarrow> (Crash x, w)
              | Inr pid \<Rightarrow>
                  (case ensure_parent_present E w origin_db target_db ''users'' pid of
                     (present, w1) \<Rightarrow>
                       (case (if present
                              then (case upsert_and_count E w1 target_db (table_name row) source_payload of
                                      (Inl exc2, w2) \<Rightarrow> (Fall exc2, w2)
                                    | (Inr u, w2) \<Rightarrow> (Continue, w2))
                              else (Fall e, w1)) of
                          (Fall e2, w2) \<Rightarrow>
                            (case map_user_id_by_unique w2 origin_db target_db pid of
                               (None, w3) \<Rightarrow> (Fall e2, w3)
                             | (Some mapped, w3) \<Rightarrow>
                                 retry_or_fail E w3 target_db (table_name row)
                                   (py_set source_payload ''user_id'' (PInt mapped)))
                        | other \<Rightarrow> other))))
      else (Fall e, w))"

definition repair_mysql_fk ::
  "env \<Rightarrow> world \<Rightarrow> string \<Rightarrow> string \<Rightarrow> edge_log_row \<Rightarrow> pydict \<Rightarrow> exc \<Rightarrow> flow \<times> world"
where
  "repair_mysql_fk E w origin_db target_db row source_payload e =
     (if is_mysql_fk_missing e \<and> is_insert_or_update (operation row) then
        (case repair_mysql_item_fk E w origin_db target_db row source_payload e of
           (Fall e1, w1) \<Rightarrow> repair_mysql_profile_fk E w1 origin_db target_db row source_payload e1
         | other \<Rightarrow> other)
      else (Fall e, w))"

text \<open>The whole \<open>except\<close> branch: the four repairs in order, then \<open>return False\<close>.\<close>

definition handle_replication_error ::
  "env \<Rightarrow> world \<Rightarrow> string \<Rightarrow> string \<Rightarrow> edge_log_row \<Rightarrow> pydict \<Rightarrow> exc \<Rightarrow> flow \<times> world"
where
  "handle_replication_error E w origin_db target_db row source_payload e =
     (case repair_pg_profile_fk E w origin_db target_db row source_payload e of
        (Fall e1, w1) \<Rightarrow>
          (case repair_pg_profile_unique E w1 origin_db target_db row source_payload e1 of
             (Fall e2, w2) \<Rightarrow>
               (case repair_pg_user_unique E w2 origin_db target_db row source_payload e2 of
                  (Fall e3, w3) \<Rightarrow>
                    (case repair_mysql_fk E w3 origin_db target_db row source_payload e3 of
                       (Fall e4, w4) \<Rightarrow> (ReturnFalse, w4)
                     | other \<Rightarrow> other)
                | other \<Rightarrow> other)
           | other \<Rightarrow> other)
      | other \<Rightarrow> other)"

section \<open>\<open>_process_edge_row\<close>\<close>

text \<open>
  The loop over the targets. \<open>Inr True\<close>: every target was handled; \<open>Inr False\<close>: a
  write failed and no repair applied; \<open>Inl\<close>: an exception left the function.
\<close>

fun sync_targets ::
  "env \<Rightarrow> world \<Rightarrow> string \<Rightarrow> edge_log_row \<Rightarrow> pydict \<Rightarrow> vclock \<Rightarrow> string list \<Rightarrow> (exc + bool) \<times> world"
where
  "sync_targets E w origin_db row source_payload v_clock [] = (Inr True, w)"
| "sync_targets E w origin_db row source_payload v_clock (target_db # targets) =
     (if target_db = origin_db then sync_targets E w origin_db row source_payload v_clock targets
      else
        (case sync_to_target E w origin_db row source_payload v_clock target_db of
           (Inr u, w1) \<Rightarrow> sync_targets E w1 origin_db row source_payload v_clock targets
         | (Inl e, w1) \<Rightarrow>
             (case handle_replication_error E w1 origin_db target_db row source_payload e of
                (Crash x, w2) \<Rightarrow> (Inl x, w2)
              | (Continue, w2) \<Rightarrow> sync_targets E w2 origin_db row source_payload v_clock targets
              | (other, w2) \<Rightarrow> (Inr False, w2))))"

definition process_edge_row ::
  "env \<Rightarrow> world \<Rightarrow> string \<Rightarrow> origin_key \<Rightarrow> edge_log_row \<Rightarrow> string list \<Rightarrow> (exc + bool) \<times> world"
where
  "process_edge_row E w origin_db origin_key row targets =
     (if table_name row \<notin> set TRACKED_TABLES
      then (Inr True, mark_edge_log_processed w origin_db (log_id row))
      else
        (case source_payload_of row of
           PDict source_payload \<Rightarrow>
             (case parse_vclock E (py_get source_payload ''v_clock'') of
                Inl e \<Rightarrow> (Inl e, w)
              | Inr v_clock \<Rightarrow>
                  (case smart_fix E w origin_db origin_key row v_clock of
                     (Inl e, w1) \<Rightarrow> (Inl e, w1)
                   | (Inr (row', v_clock'), w1) \<Rightarrow>
                       (case sync_targets E w1 origin_db row'
                               (case as_dict (source_payload_of row') of
                                  Some d \<Rightarrow> d | None \<Rightarrow> source_payload)
                               v_clock' targets of
                          (Inr True, w2) \<Rightarrow> (Inr True, mark_edge_log_processed w2 origin_db (log_id row))
                        | other \<Rightarrow> other)))
         | _ \<Rightarrow> (Inr True, mark_edge_log_processed w origin_db (log_id row))))"

section \<open>Targets, schedule and the main loop (\<open>run_forever\<close>)\<close>

definition load_manual_trigger_counter :: "world \<Rightarrow> int" where
  "load_manual_trigger_counter w =
     (case map_of (sync_worker_state w) ''manual_trigger'' of None \<Rightarrow> 0 | Some v \<Rightarrow> v)"

text \<open>\<open>trigger_manual_sync\<close> of routers/sync_api.py: the operator's manual trigger.\<close>

definition trigger_manual_sync :: "world \<Rightarrow> world" where
  "trigger_manual_sync w =
     (case map_of (sync_worker_state w) ''manual_trigger'' of
        None \<Rightarrow> w\<lparr>sync_worker_state := sync_worker_state w @ [(''manual_trigger'', 1)]\<rparr>
      | Some v \<Rightarrow> w\<lparr>sync_worker_state := AList.update ''manual_trigger'' (v + 1) (sync_worker_state w)\<rparr>)"

text \<open>\<open>str(cfg.mode or "realtime")\<close> and \<open>int(cfg.interval_seconds or 300)\<close>.\<close>

definition mode_of :: "sync_config \<Rightarrow> string" where
  "mode_of cfg = (if cfg_mode cfg = [] then ''realtime'' else cfg_mode cfg)"

definition interval_of :: "sync_config \<Rightarrow> int" where
  "interval_of cfg = (if interval_seconds cfg = 0 then 300 else interval_seconds cfg)"

text \<open>\<open>due\<close>: never run, or the interval (seconds) has passed since \<open>last_run_at\<close>.\<close>

definition is_due :: "int \<Rightarrow> sync_config \<Rightarrow> bool" where
  "is_due now cfg =
     (case last_run_at cfg of
        None \<Rightarrow> True
      | Some l \<Rightarrow> now - l \<ge> interval_of cfg * 1000000)"

text \<open>The loop over the selected configs, with the set of targets and the list of
  scheduled ids it builds.\<close>

fun scan_configs ::
  "int \<Rightarrow> bool \<Rightarrow> sync_config list \<Rightarrow> string list \<Rightarrow> int list \<Rightarrow> string list \<times> int list"
where
  "scan_configs now force_scheduled [] targets scheduled_ids = (targets, scheduled_ids)"
| "scan_configs now force_scheduled (cfg # cfgs) targets scheduled_ids =
     (if mode_of cfg = ''realtime''
      then scan_configs now force_scheduled cfgs (targets @ [cfg_target cfg]) scheduled_ids
      else if mode_of cfg \<noteq> ''scheduled''
      then scan_configs now force_scheduled cfgs targets scheduled_ids
      else if force_scheduled
      then scan_configs now force_scheduled cfgs (targets @ [cfg_target cfg])
             (scheduled_ids @ [cfg_id cfg])
      else if is_due now cfg
      then scan_configs now force_scheduled cfgs (targets @ [cfg_target cfg])
             (scheduled_ids @ [cfg_id cfg])
      else scan_configs now force_scheduled cfgs targets scheduled_ids)"

text \<open>The configs that the query selects: enabled links of this origin to another
  database.\<close>

definition selected_configs :: "world \<Rightarrow> string \<Rightarrow> sync_config list" where
  "selected_configs w origin =
     filter (\<lambda>cfg. enabled cfg \<and> cfg_source cfg = origin \<and> cfg_target cfg \<noteq> origin)
       (sync_configs w)"

definition resolve_targets_and_due_scheduled ::
  "world \<Rightarrow> string \<Rightarrow> bool \<Rightarrow> string list \<times> int list"
where
  "resolve_targets_and_due_scheduled w origin force_scheduled =
     (case scan_configs (utc_now w) force_scheduled (selected_configs w origin) [] [] of
        (targets, scheduled_ids) \<Rightarrow> (sort (remdups targets), scheduled_ids))"

definition touch_scheduled_last_run :: "world \<Rightarrow> int list \<Rightarrow> world" where
  "touch_scheduled_last_run w config_ids =
     (if config_ids = [] then w
      else w\<lparr>sync_configs :=
             map (\<lambda>cfg. if cfg_id cfg \<in> set config_ids then cfg\<lparr>last_run_at := Some (utc_now w)\<rparr>
                        else cfg)
               (sync_configs w)\<rparr>)"

text \<open>
  The \<open>for row in rows\<close> loop with its \<open>break\<close>: the result is \<open>max_committed\<close>, or the
  exception that left \<open>_process_edge_row\<close>.
\<close>

fun process_rows ::
  "env \<Rightarrow> world \<Rightarrow> string \<Rightarrow> origin_key \<Rightarrow> string list \<Rightarrow> edge_log_row list \<Rightarrow> int
     \<Rightarrow> (exc + int) \<times> world"
where
  "process_rows E w origin_db origin_key targets [] max_committed = (Inr max_committed, w)"
| "process_rows E w origin_db origin_key targets (row # rest) max_committed =
     (case process_edge_row E w origin_db origin_key row targets of
        (Inl e, w1) \<Rightarrow> (Inl e, w1)
      | (Inr False, w1) \<Rightarrow> (Inr max_committed, w1)
      | (Inr True, w1) \<Rightarrow>
          process_rows E w1 origin_db origin_key targets rest (max max_committed (log_id row)))"

definition cursor_name_of :: "string \<Rightarrow> string" where
  "cursor_name_of origin_db = ''edge_sync_log:'' @ origin_db"

text \<open>
  The body of \<open>for origin_db, origin_key in EDGE_ORIGINS.items()\<close>. The result says
  whether the origin made progress (\<open>progressed = True\<close>).
\<close>

definition origin_round ::
  "env \<Rightarrow> world \<Rightarrow> int \<Rightarrow> bool \<Rightarrow> string \<Rightarrow> origin_key \<Rightarrow> (exc + bool) \<times> world"
where
  "origin_round E w batch_size force_scheduled origin_db origin_key =
     (case load_cursor w (cursor_name_of origin_db) of
        (last_id, w1) \<Rightarrow>
          (case resolve_targets_and_due_scheduled w1 origin_db force_scheduled of
             (targets, scheduled_ids) \<Rightarrow>
               (if targets = [] then (Inr False, w1)
                else
                  (let batch = fetch_edge_logs E w1 origin_db last_id batch_size
                   in if batch = [] then (Inr False, touch_scheduled_last_run w1 scheduled_ids)
                      else
                        (case process_rows E w1 origin_db origin_key targets batch last_id of
                           (Inl e, w2) \<Rightarrow> (Inl e, w2)
                         | (Inr max_committed, w2) \<Rightarrow>
                             (Inr True,
                              touch_scheduled_last_run
                                (store_cursor w2 (cursor_name_of origin_db) max_committed)
                                scheduled_ids))))))"

fun origins_loop ::
  "env \<Rightarrow> world \<Rightarrow> int \<Rightarrow> bool \<Rightarrow> (string \<times> origin_key) list \<Rightarrow> bool \<Rightarrow> (exc + bool) \<times> world"
where
  "origins_loop E w batch_size force_scheduled [] progressed = (Inr progressed, w)"
| "origins_loop E w batch_size force_scheduled ((origin_db, origin_key) # rest) progressed =
     (case origin_round E w batch_size force_scheduled origin_db origin_key of
        (Inl e, w1) \<Rightarrow> (Inl e, w1)
      | (Inr p, w1) \<Rightarrow> origins_loop E w1 batch_size force_scheduled rest (progressed \<or> p))"

text \<open>
  One pass of the \<open>while\<close> loop of \<open>run_forever\<close>. The worker's own variable
  \<open>last_manual_counter\<close> goes in and comes out; the sleep of an idle round is not
  modelled.
\<close>

definition worker_round ::
  "env \<Rightarrow> world \<Rightarrow> int \<Rightarrow> int \<Rightarrow> (exc + bool) \<times> int \<times> world"
where
  "worker_round E w batch_size last_manual_counter =
     (let manual_counter = load_manual_trigger_counter w;
          force_scheduled = (manual_counter > last_manual_counter);
          last_manual_counter' = (if force_scheduled then manual_counter else last_manual_counter)
      in (case origins_loop E w batch_size force_scheduled EDGE_ORIGINS False of
            (r, w1) \<Rightarrow> (r, last_manual_counter', w1)))"

text \<open>The cursor as \<open>_load_cursor\<close> reads it: 0 when the worker has no row yet.\<close>

definition cursor_value :: "world \<Rightarrow> string \<Rightarrow> int" where
  "cursor_value w origin_db =
     (case map_of (sync_worker_state w) (cursor_name_of origin_db) of None \<Rightarrow> 0 | Some v \<Rightarrow> v)"

text \<open>
  The change-log entries marked processed, in the order of the trace; and what every
  step of the worker other than marking an entry and storing the cursor leaves alone:
  the cursors, the change logs, the topology, the clock and the marks.
\<close>

definition marked :: "db_op list \<Rightarrow> (string \<times> int) list" where
  "marked os = concat (map (\<lambda>x. case x of OpMarkProcessed db i \<Rightarrow> [(db, i)] | _ \<Rightarrow> []) os)"

definition hub_view ::
  "world \<Rightarrow> (string \<times> int) list \<times> (string \<Rightarrow> sync_log_entry list) \<times> sync_config list \<times> int
     \<times> (string \<times> int) list"
where
  "hub_view w = (sync_worker_state w, sync_log w, sync_configs w, utc_now w, marked (ops w))"

text \<open>How many events of a batch are processed before the loop stops.\<close>

fun ok_prefix ::
  "env \<Rightarrow> world \<Rightarrow> string \<Rightarrow> origin_key \<Rightarrow> string list \<Rightarrow> edge_log_row list \<Rightarrow> nat"
where
  "ok_prefix E w origin_db origin_key targets [] = 0"
| "ok_prefix E w origin_db origin_key targets (row # rest) =
     (case process_edge_row E w origin_db origin_key row targets of
        (Inr True, w1) \<Rightarrow> Suc (ok_prefix E w1 origin_db origin_key targets rest)
      | other \<Rightarrow> 0)"

text \<open>Marking a list of events processed, one after the other.\<close>

definition mark_all :: "string \<Rightarrow> edge_log_row list \<Rightarrow> world \<Rightarrow> world" where
  "mark_all origin_db batch w =
     fold (\<lambda>row w. mark_edge_log_processed w origin_db (log_id row)) batch w"

text \<open>
  Any sequence of rounds of the worker on any origins, with anything else in between
  that is not the worker (local writes, the operator, the API): such activity may change
  the world in any way but leaves every origin's cursor as it is, since only the worker
  writes cursors.
\<close>

inductive worker_run :: "env \<Rightarrow> world \<Rightarrow> world \<Rightarrow> bool" for E :: env where
  run_start: "worker_run E w w"
| run_round:
    "worker_run E w w1 \<Longrightarrow>
     origin_round E w1 batch_size force_scheduled origin_db origin_key = (r, w2) \<Longrightarrow>
     worker_run E w w2"
| run_other:
    "worker_run E w w1 \<Longrightarrow>
     (\<forall>origin_db. cursor_value w2 origin_db = cursor_value w1 origin_db) \<Longrightarrow>
     worker_run E w w2"

text \<open>
  A selected link contributes its target in a round: it is realtime, or it is scheduled
  and either the round is forced by a manual trigger or the link is due.
\<close>

definition contributes :: "int \<Rightarrow> bool \<Rightarrow> sync_config \<Rightarrow> bool" where
  "contributes now force_scheduled cfg =
     (mode_of cfg = ''realtime''
      \<or> (mode_of cfg = ''scheduled'' \<and> (force_scheduled \<or> is_due now cfg)))"

definition scheduled_now :: "int \<Rightarrow> bool \<Rightarrow> sync_config \<Rightarrow> bool" where
  "scheduled_now now force_scheduled cfg =
     (mode_of cfg = ''scheduled'' \<and> (force_scheduled \<or> is_due now cfg))"

section \<open>Resolution of a conflict by an operator (api_gateway/routers/sync_api.py)\<close>


























text \<open>
  The two UPDATE statements on \<open>conflict_records\<close>, and what the two passes over \<open>group_rows\<close>
  read: \<open>int(row.get("id") or -1)\<close>, and the signature of a row's payload under the table
  and id of the conflict being resolved. The WHERE clause of the group compares the
  table names as strings and the record ids as integers; \<open>resolved\<close> is a Boolean column,
  so \<open>int(row.get("resolved") or 0) == 1\<close> is its value.
\<close>

definition mark_resolved :: "int \<Rightarrow> int option \<Rightarrow> string \<Rightarrow> conflict_record \<Rightarrow> conflict_record" where
  "mark_resolved now user_id note r =
     r\<lparr>cr_resolved := True, cr_status := ''resolved'', cr_resolved_by := user_id,
       cr_resolved_at := Some now, cr_resolution_note := Some note\<rparr>"












section \<open>Sample inputs\<close>

text \<open>
  An environment in which no statement fails, \<open>json.loads\<close> and \<open>int\<close> reject every
  string and object, and the API's propagation writes nothing; and the world with no
  rows at all. The concrete inputs of the examples below are built from them.
\<close>

definition env0 :: env where
  "env0 = \<lparr>json_loads = (\<lambda>s. None), int_of_str = (\<lambda>s. None),
           int_of_other = (\<lambda>s. None), py_repr = (\<lambda>v. []),
           upsert_violation = (\<lambda>r db t p. None), delete_violation = (\<lambda>r db t i. None),
           update_violation = (\<lambda>r db t i. None), select_failure = (\<lambda>db t. None),
           api_sync_row = (\<lambda>r src db t p. Inr r)\<rparr>"

definition world0 :: world where
  "world0 = \<lparr>rows = (\<lambda>db t. []), sync_log = (\<lambda>db. []), conflict_records = [],
             sync_worker_state = [], sync_configs = [], daily_stats = (\<lambda>f. 0), utc_now = 0,
             ops = []\<rparr>"

definition clock_dict :: "int \<Rightarrow> int \<Rightarrow> pyval" where
  "clock_dict n s = PDict [(''N'', PInt n), (''S'', PInt s)]"

definition item_row :: "int \<Rightarrow> string \<Rightarrow> int \<Rightarrow> int \<Rightarrow> pydict" where
  "item_row i title n s = [(''id'', PInt i), (''title'', PStr title), (''v_clock'', clock_dict n s)]"

text \<open>
  A hub with one realtime link from the MariaDB edge to the hub's own database, and two
  inserts of items waiting in that edge's change log; and an environment whose hub
  refuses the item with id 8 (a duplicate entry, for which there is no repair).
\<close>

definition sample_link :: sync_config where
  "sample_link = \<lparr>cfg_id = 1, cfg_source = ''mariadb'', cfg_target = ''mysql'',
                   cfg_mode = ''realtime'', interval_seconds = 30, enabled = True,
                   last_run_at = None\<rparr>"

definition insert_event :: "int \<Rightarrow> int \<Rightarrow> string \<Rightarrow> int \<Rightarrow> int \<Rightarrow> sync_log_entry" where
  "insert_event i rid title n s =
     \<lparr>sl_log_id = i, sl_table_name = ''items'', sl_data_id = rid, sl_operation = ''INSERT'',
      sl_old_data = PNone, sl_new_data = PDict (item_row rid title n s), sl_status = 0\<rparr>"

definition world1 :: world where
  "world1 = world0\<lparr>sync_configs := [sample_link],
                    sync_log := (\<lambda>db. if db = ''mariadb''
                                      then [insert_event 1 7 ''lamp'' 1 0, insert_event 2 8 ''desk'' 1 0]
                                      else [])\<rparr>"

definition env1 :: env where
  "env1 = env0\<lparr>upsert_violation :=
                  (\<lambda>r db t p. if map_of p ''id'' = Some (PInt 8)
                              then Some (IntegrityError (Some 1062) None) else None)\<rparr>"

text \<open>
  The scenario of the scheduled link: one scheduled link from the MariaDB edge to the
  hub's database with an interval of 300 seconds, last run 10 seconds before the current
  time (1000 seconds), and no change event anywhere.
\<close>

definition scheduled_link :: sync_config where
  "scheduled_link = \<lparr>cfg_id = 4, cfg_source = ''mariadb'', cfg_target = ''mysql'',
                      cfg_mode = ''scheduled'', interval_seconds = 300, enabled = True,
                      last_run_at = Some 990000000\<rparr>"

definition world2 :: world where
  "world2 = world0\<lparr>sync_configs := [scheduled_link], utc_now := 1000000000\<rparr>"

text \<open>
  Events on item 7 as the worker receives them: an UPDATE that changed the title and
  left the clock at \<open>{N:1, S:0}\<close>; an INSERT that carries a before snapshot equal to its
  after snapshot, with clock \<open>{N:0, S:0}\<close>; an UPDATE and a DELETE with clock
  \<open>{N:2, S:0}\<close>. And worlds in which an edge or the hub holds item 7.
\<close>

definition title_edit :: edge_log_row where
  "title_edit = \<lparr>log_id = 3, table_name = ''items'', data_id = 7, operation = ''UPDATE'',
                  old_data = PDict (item_row 7 ''lamp'' 1 0),
                  new_data = PDict (item_row 7 ''desk'' 1 0)\<rparr>"

definition insert_with_before :: edge_log_row where
  "insert_with_before = \<lparr>log_id = 1, table_name = ''items'', data_id = 7, operation = ''INSERT'',
                          old_data = PDict (item_row 7 ''lamp'' 0 0),
                          new_data = PDict (item_row 7 ''lamp'' 0 0)\<rparr>"

definition update_n2 :: edge_log_row where
  "update_n2 = \<lparr>log_id = 4, table_name = ''items'', data_id = 7, operation = ''UPDATE'',
                 old_data = PDict (item_row 7 ''lamp'' 1 0),
                 new_data = PDict (item_row 7 ''desk'' 2 0)\<rparr>"

definition delete_n2 :: edge_log_row where
  "delete_n2 = \<lparr>log_id = 5, table_name = ''items'', data_id = 7, operation = ''DELETE'',
                 old_data = PDict (item_row 7 ''desk'' 2 0), new_data = PNone\<rparr>"

definition world_with_item :: "string \<Rightarrow> pydict \<Rightarrow> world" where
  "world_with_item db r =
     world0\<lparr>rows := (\<lambda>d t. if d = db \<and> t = ''items'' then [(7, r)] else [])\<rparr>"


text \<open>
  The same hub with a second insert whose clock has the component \<open>N\<close> set to the text
  \<open>abc\<close>, which \<open>int\<close> rejects.
\<close>

definition bad_clock_insert :: sync_log_entry where
  "bad_clock_insert =
     \<lparr>sl_log_id = 2, sl_table_name = ''items'', sl_data_id = 8, sl_operation = ''INSERT'',
      sl_old_data = PNone,
      sl_new_data = PDict [(''id'', PInt 8), (''title'', PStr ''desk''),
                           (''v_clock'', PDict [(''N'', PStr ''abc''), (''S'', PInt 0)])],
      sl_status = 0\<rparr>"

definition world3 :: world where
  "world3 = world0\<lparr>sync_configs := [sample_link],
                    sync_log := (\<lambda>db. if db = ''mariadb''
                                      then [insert_event 1 7 ''lamp'' 1 0, bad_clock_insert]
                                      else [])\<rparr>"


section \<open>Theorems: vector clocks\<close>

text \<open>
  C3. For all vector clocks a and b: a does not dominate itself; being concurrent is
  symmetric; and a clock that dominates another is not concurrent with it. Dominating is
  being at least as large in both components and larger in one; being concurrent is
  being different with neither dominating.
\<close>

theorem C3_vclock_algebra:
  "\<not> vclock_dominates a a
   \<and> vclock_concurrent a b = vclock_concurrent b a
   \<and> (vclock_dominates a b \<longrightarrow> \<not> vclock_concurrent a b)
   \<and> vclock_dominates a b =
       ((vc_N a \<ge> vc_N b \<and> vc_S a \<ge> vc_S b) \<and> (vc_N a > vc_N b \<or> vc_S a > vc_S b))
   \<and> vclock_concurrent a b = (a \<noteq> b \<and> \<not> vclock_dominates a b \<and> \<not> vclock_dominates b a)"
  by (auto simp: vclock_dominates_def vclock_concurrent_def)

theorem C3_vclock_algebra_witness:
  "vclock_dominates \<lparr>vc_N = 2, vc_S = 0\<rparr> \<lparr>vc_N = 1, vc_S = 0\<rparr>
   \<and> \<not> vclock_concurrent \<lparr>vc_N = 2, vc_S = 0\<rparr> \<lparr>vc_N = 1, vc_S = 0\<rparr>
   \<and> vclock_concurrent \<lparr>vc_N = 2, vc_S = 0\<rparr> \<lparr>vc_N = 1, vc_S = 1\<rparr>
   \<and> vclock_concurrent \<lparr>vc_N = 1, vc_S = 1\<rparr> \<lparr>vc_N = 2, vc_S = 0\<rparr>"
  using C3_vclock_algebra [of "\<lparr>vc_N = 2, vc_S = 0\<rparr>" "\<lparr>vc_N = 1, vc_S = 0\<rparr>"]
    C3_vclock_algebra [of "\<lparr>vc_N = 2, vc_S = 0\<rparr>" "\<lparr>vc_N = 1, vc_S = 1\<rparr>"]
  by (simp add: vclock_dominates_def vclock_concurrent_def)

section \<open>Theorems: identifier generator\<close>

lemma and_mask41: "(x::int) AND 0x1FFFFFFFFFF = x mod 2 ^ 41"
proof -
  have m: "(0x1FFFFFFFFFF :: int) = mask 41" by (simp add: mask_eq_exp_minus_1)
  have "x AND mask 41 = x mod 2 ^ 41"
    by (simp only: take_bit_eq_mod flip: take_bit_eq_mask)
  then show ?thesis by (simp only: m)
qed

lemma and_mask12: "(x::int) AND 0xFFF = x mod 2 ^ 12"
proof -
  have m: "(0xFFF :: int) = mask 12" by (simp add: mask_eq_exp_minus_1)
  have "x AND mask 12 = x mod 2 ^ 12"
    by (simp only: take_bit_eq_mod flip: take_bit_eq_mask)
  then show ?thesis by (simp only: m)
qed

lemma compose_id:
  assumes "0 \<le> w" "w < 2 ^ 10" "0 \<le> s" "s < 2 ^ 12" 
  shows "push_bit 22 (t::int) OR push_bit 12 w OR s = t * 2 ^ 22 + w * 2 ^ 12 + s"
proof -
  have s: "take_bit 12 s = s" using assms by (simp add: take_bit_int_eq_self)
  have "push_bit 12 w OR s = concat_bit 12 s w"
    by (simp add: concat_bit_def s or.commute)
  also have "\<dots> = s + w * 2 ^ 12"
    by (simp add: concat_bit_eq s push_bit_eq_mult)
  finally have low: "push_bit 12 w OR s = s + w * 2 ^ 12" .
  have "0 \<le> s + w * 2 ^ 12" "s + w * 2 ^ 12 < 2 ^ 22" using assms by auto
  then have m: "take_bit 22 (s + w * 2 ^ 12) = s + w * 2 ^ 12"
    by (simp add: take_bit_int_eq_self)
  have "push_bit 22 t OR (s + w * 2 ^ 12) = concat_bit 22 (s + w * 2 ^ 12) t"
    by (simp only: concat_bit_def m or.commute)
  also have "\<dots> = (s + w * 2 ^ 12) + t * 2 ^ 22"
    by (simp only: concat_bit_eq m push_bit_eq_mult)
  finally show ?thesis by (simp add: low)
qed

lemma spin_wait_Some:
  "spin_wait p ts = Some (t, ts') \<Longrightarrow> p < t \<and> t \<in> set ts \<and> set ts' \<subseteq> set ts"
  by (induction ts) (auto split: if_splits)

lemma emit_id_code:
  assumes "snowflake_ok g" "0 \<le> s" "s \<le> 4095" "in_epoch_range g now"
    and "emit_id g now s = (i, g')"
  shows "i = id_code g' \<and> snowflake_ok g' \<and> last_ms g' = now \<and> seq g' = s
         \<and> epoch_ms g' = epoch_ms g \<and> worker_id g' = worker_id g"
proof -
  have g': "g' = g\<lparr>last_ms := now, seq := s\<rparr>"
    using assms(5) by (simp add: emit_id_def Let_def)
  have "0 \<le> now - epoch_ms g" "now - epoch_ms g < 2 ^ 41"
    using assms(4) by (simp_all add: in_epoch_range_def)
  then have ts: "(now - epoch_ms g) AND 0x1FFFFFFFFFF = now - epoch_ms g"
    by (simp only: and_mask41 mod_pos_pos_trivial)
  have "i = push_bit 22 (now - epoch_ms g) OR push_bit 12 (worker_id g) OR s"
    using assms(5) ts by (simp add: emit_id_def Let_def)
  also have "\<dots> = (now - epoch_ms g) * 2 ^ 22 + worker_id g * 2 ^ 12 + s"
    using assms(1-3) by (intro compose_id) (simp_all add: snowflake_ok_def)
  finally show ?thesis using assms(1-3) by (simp add: g' id_code_def snowflake_ok_def)
qed

lemma next_id_step:
  assumes ok: "snowflake_ok g"
    and rng: "\<forall>t\<in>set clock. in_epoch_range g t"
    and up: "last_ms g < epoch_ms g + 2 ^ 41"
    and run: "next_id g clock = Some ((i, g'), clock')"
  shows "i = id_code g' \<and> snowflake_ok g' \<and> epoch_ms g' = epoch_ms g
         \<and> worker_id g' = worker_id g \<and> in_epoch_range g (last_ms g')
         \<and> set clock' \<subseteq> set clock
         \<and> (last_ms g < last_ms g' \<or> last_ms g = last_ms g' \<and> seq g < seq g')"
proof (cases clock)
  case Nil
  with run show ?thesis by (simp add: next_id_def)
next
  case (Cons t ts)
  have t: "in_epoch_range g t" using rng Cons by simp
  define now where "now = (if t < last_ms g then last_ms g else t)"
  define s where "s = (seq g + 1) AND 0xFFF"
  have s_rng: "0 \<le> s" "s \<le> 4095" by (simp_all add: s_def and_mask12)
  have now_rng: "in_epoch_range g now"
    using t up by (auto simp: now_def in_epoch_range_def)
  show ?thesis
  proof (cases "now = last_ms g")
    case same: True
    show ?thesis
    proof (cases "s = 0")
      case True
      from run Cons same True obtain now' where
        sp: "spin_wait (last_ms g) ts = Some (now', clock')" and e: "emit_id g now' 0 = (i, g')"
        by (auto simp: next_id_def Let_def now_def s_def split: option.splits if_splits)
      from spin_wait_Some [OF sp] have n': "last_ms g < now'" "now' \<in> set ts" "set clock' \<subseteq> set ts"
        by auto
      then have r': "in_epoch_range g now'" using rng Cons by simp
      from emit_id_code [OF ok _ _ r' e] n' r' Cons show ?thesis by auto
    next
      case False
      with run Cons same have e: "emit_id g now s = (i, g')" and c: "clock' = ts"
        by (auto simp: next_id_def Let_def now_def s_def split: if_splits)
      have "s = seq g + 1"
      proof -
        have "seq g + 1 \<noteq> 4096" using False by (auto simp: s_def and_mask12)
        then have "seq g + 1 < 4096" "0 \<le> seq g + 1" using ok by (auto simp: snowflake_ok_def)
        then show ?thesis by (simp add: s_def and_mask12)
      qed
      with emit_id_code [OF ok s_rng now_rng e] same c now_rng Cons show ?thesis by auto
    qed
  next
    case False
    with run Cons have e: "emit_id g now 0 = (i, g')" and c: "clock' = ts"
      by (auto simp: next_id_def Let_def now_def split: if_splits)
    have "last_ms g < now" using False by (auto simp: now_def split: if_splits)
    with emit_id_code [OF ok _ _ now_rng e] c now_rng Cons show ?thesis by auto
  qed
qed

lemma id_code_mono:
  assumes "snowflake_ok g" "snowflake_ok g'" "epoch_ms g' = epoch_ms g" "worker_id g' = worker_id g"
    and "last_ms g < last_ms g' \<or> last_ms g = last_ms g' \<and> seq g < seq g'"
  shows "id_code g < id_code g'"
proof -
  from assms(5) show ?thesis
  proof
    assume "last_ms g < last_ms g'"
    then have "(last_ms g - epoch_ms g) + 1 \<le> last_ms g' - epoch_ms g" by simp
    then have "((last_ms g - epoch_ms g) + 1) * 2 ^ 22 \<le> (last_ms g' - epoch_ms g) * 2 ^ 22"
      by (simp only: mult_le_cancel_right) simp
    then show ?thesis using assms(1-4) by (simp add: id_code_def snowflake_ok_def algebra_simps)
  next
    assume "last_ms g = last_ms g' \<and> seq g < seq g'"
    then show ?thesis using assms(3,4) by (simp add: id_code_def)
  qed
qed

lemma next_ids_above:
  assumes "snowflake_ok g" "\<forall>t\<in>set clock. in_epoch_range g t" "last_ms g < epoch_ms g + 2 ^ 41"
    and "next_ids n g clock = Some (ids, g', clock')"
  shows "sorted_wrt (<) ids \<and> (\<forall>i\<in>set ids. id_code g < i \<and> 0 \<le> i \<and> i < 2 ^ 63)"
  using assms
proof (induction n arbitrary: g clock ids)
  case 0
  then show ?case by simp
next
  case (Suc n)
  from Suc.prems(4) obtain i g1 c1 rest_ids where
    st: "next_id g clock = Some ((i, g1), c1)" and
    rest: "next_ids n g1 c1 = Some (rest_ids, g', clock')" and ids: "ids = i # rest_ids"
    by (auto split: option.splits)
  note s = next_id_step [OF Suc.prems(1-3) st]
  have r1: "\<forall>t\<in>set c1. in_epoch_range g1 t"
    using s Suc.prems(2) by (auto simp: in_epoch_range_def)
  have u1: "last_ms g1 < epoch_ms g1 + 2 ^ 41" using s by (simp add: in_epoch_range_def)
  have ok1: "snowflake_ok g1" using s by simp
  note ih = Suc.IH [OF ok1 r1 u1 rest]
  have lt: "id_code g < id_code g1"
    using id_code_mono [OF Suc.prems(1) ok1] s by simp
  have i: "i = id_code g1" using s by simp
  have "0 \<le> last_ms g1 - epoch_ms g1" "last_ms g1 - epoch_ms g1 \<le> 2 ^ 41 - 1"
    using s by (simp_all add: in_epoch_range_def)
  then have "0 \<le> (last_ms g1 - epoch_ms g1) * 2 ^ 22"
    "(last_ms g1 - epoch_ms g1) * 2 ^ 22 \<le> (2 ^ 41 - 1) * 2 ^ 22"
    by simp_all
  then have b: "0 \<le> i" "i < 2 ^ 63"
    using ok1 by (simp_all add: i id_code_def snowflake_ok_def)
  show ?case using ih lt i b by (auto simp: ids)
qed


text \<open>
  C8 (amended). On one generator whose worker id and sequence are in range, for clock
  readings that all lie in the 41-bit window after the epoch
  (\<open>epoch_ms \<le> t < epoch_ms + 2^41\<close>, in any order, also going backwards), the ids that
  consecutive calls of \<open>next_id\<close> return are strictly increasing, pairwise distinct and
  fit in 63 bits. In a call whose reading is not past the last recorded millisecond, the
  sequence goes up by one and the millisecond stays, unless the sequence was 4095: then
  the call spins until a reading past the last millisecond and the sequence restarts at 0.
\<close>

theorem C8_next_id_strictly_increasing:
  assumes "snowflake_ok g"
    and "\<forall>t\<in>set clock. in_epoch_range g t"
    and "last_ms g < epoch_ms g + 2 ^ 41"
  shows "(next_ids n g clock = Some (ids, g', clock') \<longrightarrow>
            sorted_wrt (<) ids \<and> distinct ids \<and> (\<forall>i\<in>set ids. 0 \<le> i \<and> i < 2 ^ 63))
       \<and> (next_id g (t # ts) = Some ((i, g1), c1) \<and> t \<le> last_ms g \<longrightarrow>
            (if seq g < 4095
             then last_ms g1 = last_ms g \<and> seq g1 = seq g + 1 \<and> c1 = ts
             else seq g1 = 0 \<and> last_ms g < last_ms g1
                  \<and> spin_wait (last_ms g) ts = Some (last_ms g1, c1)))"
proof (intro conjI impI)
  assume run: "next_ids n g clock = Some (ids, g', clock')"
  from next_ids_above [OF assms run]
  show "sorted_wrt (<) ids" and "\<forall>i\<in>set ids. 0 \<le> i \<and> i < 2 ^ 63" by auto
  from \<open>sorted_wrt (<) ids\<close> show "distinct ids"
    by (simp add: strict_sorted_iff)
next
  assume a: "next_id g (t # ts) = Some ((i, g1), c1) \<and> t \<le> last_ms g"
  show "if seq g < 4095
        then last_ms g1 = last_ms g \<and> seq g1 = seq g + 1 \<and> c1 = ts
        else seq g1 = 0 \<and> last_ms g < last_ms g1
             \<and> spin_wait (last_ms g) ts = Some (last_ms g1, c1)"
  proof (cases "seq g < 4095")
    case True
    then have "0 \<le> seq g + 1" "seq g + 1 < 4096" using assms(1) by (simp_all add: snowflake_ok_def)
    then have s: "(seq g + 1) AND 0xFFF = seq g + 1" by (simp add: and_mask12)
    have "seq g + 1 \<noteq> 0" using assms(1) by (simp add: snowflake_ok_def)
    with a s True show ?thesis
      by (auto simp: next_id_def emit_id_def Let_def split: if_splits)
  next
    case False
    then have "seq g = 4095" using assms(1) by (simp add: snowflake_ok_def)
    then have s: "(seq g + 1) AND 0xFFF = 0" by (simp add: and_mask12)
    from a s obtain now' where sp: "spin_wait (last_ms g) ts = Some (now', c1)"
      and e: "emit_id g now' 0 = (i, g1)"
      by (auto simp: next_id_def Let_def split: if_splits option.splits)
    from e have "last_ms g1 = now'" "seq g1 = 0" by (auto simp: emit_id_def Let_def)
    with sp spin_wait_Some [OF sp] False show ?thesis by simp
  qed
qed

theorem C8_next_id_strictly_increasing_witness:
  "snowflake_ok \<lparr>worker_id = 5, epoch_ms = 1704067200000, last_ms = - 1, seq = 0\<rparr>
   \<and> in_epoch_range \<lparr>worker_id = 5, epoch_ms = 1704067200000, last_ms = - 1, seq = 0\<rparr>
         1704067200005
   \<and> in_epoch_range \<lparr>worker_id = 5, epoch_ms = 1704067200000, last_ms = - 1, seq = 0\<rparr>
         1704067200003
   \<and> next_ids 3 \<lparr>worker_id = 5, epoch_ms = 1704067200000, last_ms = - 1, seq = 0\<rparr>
        [1704067200005, 1704067200005, 1704067200003]
      = Some ([20992000, 20992001, 20992002],
              \<lparr>worker_id = 5, epoch_ms = 1704067200000, last_ms = 1704067200005, seq = 2\<rparr>, [])
   \<and> sorted_wrt (<) [20992000, 20992001, 20992002 :: int]
   \<and> distinct [20992000, 20992001, 20992002 :: int]"
proof -
  let ?g = "\<lparr>worker_id = 5, epoch_ms = 1704067200000, last_ms = - 1, seq = 0\<rparr>"
  let ?c = "[1704067200005, 1704067200005, 1704067200003 :: int]"
  have ok: "snowflake_ok ?g" by (simp add: snowflake_ok_def)
  have rng: "\<forall>t\<in>set ?c. in_epoch_range ?g t" by (simp add: in_epoch_range_def)
  have up: "last_ms ?g < epoch_ms ?g + 2 ^ 41" by simp
  have run: "next_ids 3 ?g ?c
      = Some ([20992000, 20992001, 20992002],
              \<lparr>worker_id = 5, epoch_ms = 1704067200000, last_ms = 1704067200005, seq = 2\<rparr>, [])"
    by (simp add: numeral_3_eq_3 next_id_def emit_id_def Let_def and_mask41 and_mask12 push_bit_eq_mult)
  from C8_next_id_strictly_increasing [OF ok rng up, of 3 "[20992000, 20992001, 20992002]"] run ok rng
  show ?thesis by (simp add: in_epoch_range_def)
qed

text \<open>
  The claim as stated, for any clock readings, fails: a reading one millisecond before
  the epoch is masked to the largest 41-bit timestamp, and the id of the next call, at
  the epoch itself, is smaller.
\<close>

theorem C8_any_clock_counterexample:
  "Snowflake 0 1704067200000
     = Inr \<lparr>worker_id = 0, epoch_ms = 1704067200000, last_ms = - 1, seq = 0\<rparr>
   \<and> next_ids 2 \<lparr>worker_id = 0, epoch_ms = 1704067200000, last_ms = - 1, seq = 0\<rparr>
        [1704067199999, 1704067200000]
      = Some ([9223372036850581504, 0],
              \<lparr>worker_id = 0, epoch_ms = 1704067200000, last_ms = 1704067200000, seq = 0\<rparr>, [])
   \<and> \<not> sorted_wrt (<) [9223372036850581504, 0 :: int]"
  by (simp add: Snowflake_def numeral_2_eq_2 next_id_def emit_id_def Let_def and_mask41 and_mask12
      push_bit_eq_mult)

section \<open>Theorems: transaction retry wrapper\<close>

lemma retry_loop_gen:
  assumes "0 \<le> a" "a + int k < m"
    and "\<forall>j. a \<le> j \<and> j < a + int k \<longrightarrow> (\<exists>e. func j = Inl e \<and> is_retryable_error e)"
    and "case func (a + int k) of Inr v \<Rightarrow> True | Inl e \<Rightarrow> \<not> is_retryable_error e \<or> a + int k = m - 1"
  shows "retry_loop func m a d tr =
      (case func (a + int k) of Inr v \<Rightarrow> Returned v | Inl e \<Rightarrow> Raised e,
       tr @ concat (map (\<lambda>j. [Rollback, Sleep (d * RETRY_BACKOFF ^ j)]) [0..<k])
          @ [case func (a + int k) of Inr v \<Rightarrow> Commit | Inl e \<Rightarrow> Rollback])"
  using assms
proof (induction k arbitrary: a d tr)
  case 0
  then show ?case
    by (subst retry_loop.simps) (auto split: sum.splits)
next
  case (Suc k)
  have "a \<le> a \<and> a < a + int (Suc k)" by simp
  with Suc.prems(3) obtain e where e: "func a = Inl e" "is_retryable_error e"
    by blast
  have step: "retry_loop func m a d tr
      = retry_loop func m (a + 1) (d * RETRY_BACKOFF) (tr @ [Rollback, Sleep d])"
    using Suc.prems(1,2) e by (subst retry_loop.simps) auto
  have idx: "a + 1 + int k = a + int (Suc k)" by simp
  have ih: "retry_loop func m (a + 1) (d * RETRY_BACKOFF) (tr @ [Rollback, Sleep d]) =
      (case func (a + 1 + int k) of Inr v \<Rightarrow> Returned v | Inl e \<Rightarrow> Raised e,
       (tr @ [Rollback, Sleep d])
          @ concat (map (\<lambda>j. [Rollback, Sleep (d * RETRY_BACKOFF * RETRY_BACKOFF ^ j)]) [0..<k])
          @ [case func (a + 1 + int k) of Inr v \<Rightarrow> Commit | Inl e \<Rightarrow> Rollback])"
  proof (rule Suc.IH)
    show "0 \<le> a + 1" using Suc.prems(1) by simp
    show "a + 1 + int k < m" using Suc.prems(2) by simp
    show "\<forall>j. a + 1 \<le> j \<and> j < a + 1 + int k \<longrightarrow> (\<exists>e. func j = Inl e \<and> is_retryable_error e)"
      using Suc.prems(3) by simp
    show "case func (a + 1 + int k) of Inr v \<Rightarrow> True
          | Inl e \<Rightarrow> \<not> is_retryable_error e \<or> a + 1 + int k = m - 1"
      using Suc.prems(4) unfolding idx .
  qed
  have shift: "concat (map (\<lambda>j. [Rollback, Sleep (d * RETRY_BACKOFF ^ j)]) [0..<Suc k])
      = [Rollback, Sleep d] @ concat (map (\<lambda>j. [Rollback, Sleep (d * RETRY_BACKOFF * RETRY_BACKOFF ^ j)]) [0..<k])"
    by (simp only: upt_conv_Cons [OF zero_less_Suc] map_Suc_upt [symmetric] list.map concat.simps map_map o_def)
       (simp add: mult.assoc)
  show ?case unfolding step ih shift idx by simp
qed


lemma starts_with_iff: "starts_with p s \<longleftrightarrow> (\<exists>b. s = p @ b)"
  by (induction p s rule: starts_with.induct) auto

lemma str_contains_iff: "str_contains p s \<longleftrightarrow> (\<exists>a b. s = a @ p @ b)"
proof (induction s)
  case Nil
  then show ?case by auto
next
  case (Cons c cs)
  show ?case
  proof
    assume "str_contains p (c # cs)"
    then consider "starts_with p (c # cs)" | "str_contains p cs" by auto
    then show "\<exists>a b. c # cs = a @ p @ b"
    proof cases
      case 1
      then obtain b where "c # cs = [] @ p @ b" by (auto simp: starts_with_iff)
      then show ?thesis by blast
    next
      case 2
      with Cons obtain a b where "cs = a @ p @ b" by auto
      then have "c # cs = (c # a) @ p @ b" by simp
      then show ?thesis by blast
    qed
  next
    assume "\<exists>a b. c # cs = a @ p @ b"
    then obtain a b where ab: "c # cs = a @ p @ b" by auto
    show "str_contains p (c # cs)"
    proof (cases a)
      case Nil
      with ab have "starts_with p (c # cs)" by (auto simp: starts_with_iff)
      then show ?thesis by simp
    next
      case (Cons x xs)
      with ab have "cs = xs @ p @ b" by simp
      with Cons.IH show ?thesis by auto
    qed
  qed
qed

text \<open>
  C9. Run under the retry wrapper with a maximum of \<open>m\<close> attempts, a function whose
  first \<open>k < m\<close> attempts fail with retryable errors and whose next attempt returns, fails
  with an error that is not retryable, or is the last permitted attempt: the wrapper
  rolls back and sleeps after each of the \<open>k\<close> failures, the j-th sleep (from 0) being the
  base delay times the multiplier to the power j; then it commits and returns the
  result, or rolls back and raises that attempt's error at once, with no further sleep
  or attempt. An error is retryable exactly when it is a database error whose
  lower-cased message contains one of the deadlock, lock-wait-timeout and
  serialization-failure patterns.
\<close>

theorem C9_with_transaction_retry:
  fixes func :: "int \<Rightarrow> exn + 'a"
  assumes "int k < m"
    and "\<forall>j. 0 \<le> j \<and> j < int k \<longrightarrow> (\<exists>e. func j = Inl e \<and> is_retryable_error e)"
    and "case func (int k) of Inr v \<Rightarrow> True
         | Inl e \<Rightarrow> \<not> is_retryable_error e \<or> int k = m - 1"
  shows "with_transaction (Some m) None True func =
           (case func (int k) of
              Inr v \<Rightarrow> (Returned v, retried k @ [Commit])
            | Inl e \<Rightarrow> (Raised e, retried k @ [Rollback]))
         \<and> (\<forall>e. is_retryable_error e \<longleftrightarrow>
                is_dbapi_error e \<and>
                (\<exists>p \<in> {''deadlock'', ''lock wait timeout'', ''could not serialize'',
                        ''database is locked'', ''serialization failure''}.
                   \<exists>a b. lower (message e) = a @ p @ b))"
proof
  have "retry_loop func m 0 RETRY_DELAY [] =
      (case func (0 + int k) of Inr v \<Rightarrow> Returned v | Inl e \<Rightarrow> Raised e,
       [] @ concat (map (\<lambda>j. [Rollback, Sleep (RETRY_DELAY * RETRY_BACKOFF ^ j)]) [0..<k])
          @ [case func (0 + int k) of Inr v \<Rightarrow> Commit | Inl e \<Rightarrow> Rollback])"
    using assms retry_loop_gen [of 0 k m func RETRY_DELAY "[]"] by (simp cong: sum.case_cong)
  then show "with_transaction (Some m) None True func =
           (case func (int k) of
              Inr v \<Rightarrow> (Returned v, retried k @ [Commit])
            | Inl e \<Rightarrow> (Raised e, retried k @ [Rollback]))"
    by (simp add: with_transaction_def retried_def split: sum.splits)
next
  show "\<forall>e. is_retryable_error e \<longleftrightarrow>
                is_dbapi_error e \<and>
                (\<exists>p \<in> {''deadlock'', ''lock wait timeout'', ''could not serialize'',
                        ''database is locked'', ''serialization failure''}.
                   \<exists>a b. lower (message e) = a @ p @ b)"
    by (simp add: is_retryable_error_def retryable_patterns_def Let_def str_contains_iff
        del: One_nat_def)
qed

theorem C9_with_transaction_retry_witness:
  "with_transaction (Some 3) None True
     (\<lambda>j. if j < 1 then Inl \<lparr>is_dbapi_error = True, message = ''Deadlock found''\<rparr>
           else (Inl \<lparr>is_dbapi_error = True, message = ''Unknown column''\<rparr> :: exn + nat))
   = (Raised \<lparr>is_dbapi_error = True, message = ''Unknown column''\<rparr>,
      [Rollback, Sleep (1 / 10), Rollback])
   \<and> with_transaction (Some 3) None True
     (\<lambda>j. Inl \<lparr>is_dbapi_error = True, message = ''Deadlock found''\<rparr> :: exn + nat)
   = (Raised \<lparr>is_dbapi_error = True, message = ''Deadlock found''\<rparr>,
      [Rollback, Sleep (1 / 10), Rollback, Sleep (1 / 5), Rollback])"
proof -
  let ?d = "\<lparr>is_dbapi_error = True, message = ''Deadlock found''\<rparr>"
  let ?u = "\<lparr>is_dbapi_error = True, message = ''Unknown column''\<rparr>"
  let ?f = "\<lambda>j::int. if j < 1 then Inl ?d else (Inl ?u :: exn + nat)"
  let ?g = "\<lambda>j::int. (Inl ?d :: exn + nat)"
  have d: "is_retryable_error ?d"
    by code_simp
  have u: "\<not> is_retryable_error ?u"
    by code_simp
  have r1: "retried (Suc 0) = [Rollback, Sleep (1 / 10)]"
    by (simp add: retried_def RETRY_DELAY_def)
  have r2: "retried 2 = [Rollback, Sleep (1 / 10), Rollback, Sleep (1 / 5)]"
    by (simp add: retried_def RETRY_DELAY_def RETRY_BACKOFF_def numeral_2_eq_2)
  have "with_transaction (Some 3) None True ?f = (Raised ?u, retried 1 @ [Rollback])"
    using C9_with_transaction_retry [of 1 3 ?f] d u by simp
  moreover have "with_transaction (Some 3) None True ?g = (Raised ?d, retried 2 @ [Rollback])"
    using C9_with_transaction_retry [of 2 3 ?g] d by simp
  ultimately show ?thesis by (simp add: r1 r2)
qed

section \<open>Theorems: the replication upsert\<close>

lemma rows_log_op [simp]: "rows (log_op x w) = rows w"
  by (simp add: log_op_def)

lemma rows_set_table [simp]:
  "rows (set_table w db t tbl) = (rows w)(db := (rows w db)(t := tbl))"
  by (simp add: set_table_def)

lemma fold_update_lookup:
  "map_of (fold (\<lambda>c r. AList.update c (f c) r) cs old) c
     = (if c \<in> set cs then Some (f c) else map_of old c)"
  by (induction cs arbitrary: old) (auto simp: update_conv')

lemma fold_update_same:
  "\<forall>c\<in>set cs. map_of r c = Some (f c) \<Longrightarrow> fold (\<lambda>c r. AList.update c (f c) r) cs r = r"
  by (induction cs) (auto simp: update_triv)

lemma map_of_tabulate: "map_of (map (\<lambda>c. (c, f c)) cols) c = (if c \<in> set cols then Some (f c) else None)"
  by (induction cols) auto

lemma exec_upsert_twice:
  assumes "set update_cols \<subseteq> set insert_cols"
  shows "rows (snd (exec_upsert E (snd (exec_upsert E w db tbl insert_cols update_cols params))
                 db tbl insert_cols update_cols params))
       = rows (snd (exec_upsert E w db tbl insert_cols update_cols params))"
proof (cases "exec_upsert E w db tbl insert_cols update_cols params")
  case (Pair r w1)
  show ?thesis
  proof (cases r)
    case (Inl e)
    with Pair have "w1 = w"
      by (auto simp: exec_upsert_def Let_def split: if_splits option.splits pyval.splits)
    with Pair show ?thesis by simp
  next
    case (Inr u)
    with Pair obtain k where k: "map_of params ''id'' = Some (PInt k)" and ne: "update_cols \<noteq> []"
      by (auto simp: exec_upsert_def Let_def split: if_splits option.splits pyval.splits)
    define new_row where "new_row =
       (case map_of (rows w db tbl) k of
          None \<Rightarrow> map (\<lambda>c. (c, py_get params c)) insert_cols
        | Some old \<Rightarrow> fold (\<lambda>c r. AList.update c (py_get params c) r) update_cols old)"
    have w1: "rows w1 = (rows w)(db := (rows w db)(tbl := AList.update k new_row (rows w db tbl)))"
      using Pair Inr k ne
      by (auto simp: exec_upsert_def Let_def new_row_def split: if_splits option.splits)
    have look: "\<forall>c\<in>set update_cols. map_of new_row c = Some (py_get params c)"
      using assms by (auto simp: new_row_def fold_update_lookup map_of_tabulate split: option.splits)
    have again: "fold (\<lambda>c r. AList.update c (py_get params c) r) update_cols new_row = new_row"
      using look by (rule fold_update_same)
    have stored: "map_of (rows w1 db tbl) k = Some new_row"
      by (simp add: w1 update_conv')
    have same_tbl: "AList.update k new_row (rows w1 db tbl) = rows w1 db tbl"
      using stored by (rule update_triv)
    show ?thesis
    proof (cases "upsert_violation E (rows w1 db) db tbl params")
      case None
      then have "rows (snd (exec_upsert E w1 db tbl insert_cols update_cols params)) = rows w1"
        using k ne stored again same_tbl
        by (simp add: exec_upsert_def Let_def)
      with Pair show ?thesis by simp
    next
      case (Some e)
      then have "snd (exec_upsert E w1 db tbl insert_cols update_cols params) = w1"
        using ne by (simp add: exec_upsert_def)
      with Pair show ?thesis by simp
    qed
  qed
qed


lemma keys_normalize [simp]:
  "map fst (normalize_payload_for_target target_db payload) = map fst payload"
  by (auto simp: normalize_payload_for_target_def split: pyval.splits)

lemma keys_normalize_set [simp]:
  "fst ` set (normalize_payload_for_target target_db payload) = fst ` set payload"
  by (simp only: list.set_map [symmetric] keys_normalize)

lemma upsert_row_unfold:
  "upsert_row E w target_db tbl payload =
     (if ''id'' \<notin> set (map fst payload) then (Inl (PyError ValueError), w)
      else exec_upsert E w target_db tbl (map fst payload) (filter (\<lambda>c. c \<noteq> ''id'') (map fst payload))
             (normalize_payload_for_target target_db payload))"
  by (simp add: upsert_row_def Let_def)

lemma exec_upsert_stored:
  assumes "exec_upsert E w db tbl insert_cols update_cols params = (Inr u, w1)"
    and "set update_cols \<subseteq> set insert_cols"
  shows "\<exists>k r. map_of params ''id'' = Some (PInt k)
           \<and> map_of (rows w1 db tbl) k = Some r
           \<and> (\<forall>c\<in>set update_cols. map_of r c = Some (py_get params c))"
proof -
  from assms(1) obtain k where k: "map_of params ''id'' = Some (PInt k)" and ne: "update_cols \<noteq> []"
    by (auto simp: exec_upsert_def Let_def split: if_splits option.splits pyval.splits)
  define new_row where "new_row =
     (case map_of (rows w db tbl) k of
        None \<Rightarrow> map (\<lambda>c. (c, py_get params c)) insert_cols
      | Some old \<Rightarrow> fold (\<lambda>c r. AList.update c (py_get params c) r) update_cols old)"
  have w1: "rows w1 = (rows w)(db := (rows w db)(tbl := AList.update k new_row (rows w db tbl)))"
    using assms(1) k ne
    by (auto simp: exec_upsert_def Let_def new_row_def split: if_splits option.splits)
  have "\<forall>c\<in>set update_cols. map_of new_row c = Some (py_get params c)"
    using assms(2) by (auto simp: new_row_def fold_update_lookup map_of_tabulate split: option.splits)
  moreover have "map_of (rows w1 db tbl) k = Some new_row"
    by (simp add: w1 update_conv')
  ultimately show ?thesis using k by blast
qed

lemma upsert_row_twice:
  "rows (snd (upsert_row E (snd (upsert_row E w target_db tbl payload)) target_db tbl payload))
     = rows (snd (upsert_row E w target_db tbl payload))"
proof (cases "''id'' \<in> set (map fst payload)")
  case False
  then show ?thesis by (simp add: upsert_row_unfold)
next
  case True
  let ?cols = "map fst payload"
  let ?upd = "filter (\<lambda>c. c \<noteq> ''id'') ?cols"
  have sub: "set ?upd \<subseteq> set ?cols" by auto
  have eq: "\<And>w. upsert_row E w target_db tbl payload
      = exec_upsert E w target_db tbl ?cols ?upd (normalize_payload_for_target target_db payload)"
    using True by (simp add: upsert_row_unfold)
  show ?thesis unfolding eq by (rule exec_upsert_twice [OF sub])
qed

lemma upsert_row_stored:
  assumes "upsert_row E w target_db tbl payload = (Inr u, w1)"
  shows "\<exists>k r. map_of (normalize_payload_for_target target_db payload) ''id'' = Some (PInt k)
           \<and> map_of (rows w1 target_db tbl) k = Some r
           \<and> (\<forall>c\<in>set (map fst payload). c \<noteq> ''id'' \<longrightarrow>
                 map_of r c = Some (py_get (normalize_payload_for_target target_db payload) c))"
proof -
  let ?cols = "map fst payload"
  let ?upd = "filter (\<lambda>c. c \<noteq> ''id'') ?cols"
  have sub: "set ?upd \<subseteq> set ?cols" by auto
  have idin: "''id'' \<in> set (map fst payload)"
    using assms by (auto simp: upsert_row_unfold split: if_splits)
  then have "exec_upsert E w target_db tbl ?cols ?upd
      (normalize_payload_for_target target_db payload) = (Inr u, w1)"
    using assms by (simp add: upsert_row_unfold)
  from exec_upsert_stored [OF this sub] show ?thesis by auto
qed

text \<open>
  C6. The replication upsert is idempotent: for every target database, table and
  payload, the tables after applying \<open>_upsert_row\<close> twice in succession are the tables
  after applying it once. When the first application succeeds, the payload has an
  integer id, and the row stored under it holds the payload's value in every other
  column of the payload.
\<close>

theorem C6_upsert_idempotent:
  "rows (snd (upsert_row E (snd (upsert_row E w target_db tbl payload)) target_db tbl payload))
     = rows (snd (upsert_row E w target_db tbl payload))
   \<and> (fst (upsert_row E w target_db tbl payload) = Inr () \<longrightarrow>
        (\<exists>k r. map_of (normalize_payload_for_target target_db payload) ''id'' = Some (PInt k)
           \<and> map_of (rows (snd (upsert_row E w target_db tbl payload)) target_db tbl) k = Some r
           \<and> (\<forall>c\<in>set (map fst payload). c \<noteq> ''id'' \<longrightarrow>
                 map_of r c = Some (py_get (normalize_payload_for_target target_db payload) c))))"
proof (intro conjI impI)
  show "rows (snd (upsert_row E (snd (upsert_row E w target_db tbl payload)) target_db tbl payload))
     = rows (snd (upsert_row E w target_db tbl payload))"
    by (rule upsert_row_twice)
next
  assume "fst (upsert_row E w target_db tbl payload) = Inr ()"
  then have "upsert_row E w target_db tbl payload
      = (Inr (), snd (upsert_row E w target_db tbl payload))"
    by (simp add: prod_eq_iff)
  then show "\<exists>k r. map_of (normalize_payload_for_target target_db payload) ''id'' = Some (PInt k)
           \<and> map_of (rows (snd (upsert_row E w target_db tbl payload)) target_db tbl) k = Some r
           \<and> (\<forall>c\<in>set (map fst payload). c \<noteq> ''id'' \<longrightarrow>
                 map_of r c = Some (py_get (normalize_payload_for_target target_db payload) c))"
    by (rule upsert_row_stored)
qed

theorem C6_upsert_idempotent_witness:
  "fst (upsert_row env0 world0 ''mysql'' ''items'' (item_row 7 ''lamp'' 1 0)) = Inr ()
   \<and> rows (snd (upsert_row env0 world0 ''mysql'' ''items'' (item_row 7 ''lamp'' 1 0)))
        ''mysql'' ''items'' = [(7, item_row 7 ''lamp'' 1 0)]
   \<and> rows (snd (upsert_row env0
              (snd (upsert_row env0 world0 ''mysql'' ''items'' (item_row 7 ''lamp'' 1 0)))
              ''mysql'' ''items'' (item_row 7 ''lamp'' 1 0)))
        ''mysql'' ''items'' = [(7, item_row 7 ''lamp'' 1 0)]"
proof -
  have one: "upsert_row env0 world0 ''mysql'' ''items'' (item_row 7 ''lamp'' 1 0)
      = (Inr (), log_op (OpUpsert ''mysql'' ''items'' (item_row 7 ''lamp'' 1 0))
                  (set_table world0 ''mysql'' ''items'' [(7, item_row 7 ''lamp'' 1 0)]))"
    by (simp add: upsert_row_def exec_upsert_def normalize_payload_for_target_def Let_def
        env0_def world0_def item_row_def py_get_def)
  have r1: "rows (snd (upsert_row env0 world0 ''mysql'' ''items'' (item_row 7 ''lamp'' 1 0)))
        ''mysql'' ''items'' = [(7, item_row 7 ''lamp'' 1 0)]"
    by (simp add: one)
  from C6_upsert_idempotent [of env0 world0 "''mysql''" "''items''" "item_row 7 ''lamp'' 1 0"] r1 one
  show ?thesis by simp
qed

section \<open>What the steps of the worker leave alone\<close>

lemma marked_append [simp]: "marked (xs @ ys) = marked xs @ marked ys"
  by (simp add: marked_def)

lemma marked_single [simp]:
  "marked [OpSelect db t i] = []" "marked [OpSelectWhere db t c v] = []"
  "marked [OpUpsert db t p] = []" "marked [OpDelete db t i] = []"
  "marked [OpUpdateVClock db t i s] = []" "marked [OpMarkProcessed db i] = [(db, i)]"
  by (simp_all add: marked_def)

lemma hub_view_log_op [simp]:
  "hub_view (log_op (OpSelect db t i) w) = hub_view w"
  "hub_view (log_op (OpSelectWhere db t c v) w) = hub_view w"
  "hub_view (log_op (OpUpsert db t p) w) = hub_view w"
  "hub_view (log_op (OpDelete db t i) w) = hub_view w"
  "hub_view (log_op (OpUpdateVClock db t i s) w) = hub_view w"
  by (simp_all add: hub_view_def log_op_def)

lemma hub_view_set_table [simp]: "hub_view (set_table w db t tbl) = hub_view w"
  by (simp add: hub_view_def set_table_def)

lemma hub_view_bump [simp]: "hub_view (bump_daily_stat w f) = hub_view w"
  by (simp add: hub_view_def bump_daily_stat_def)

lemma hub_select_current_row: "select_current_row w db t i = (r, w1) \<Longrightarrow> hub_view w1 = hub_view w"
  by (auto simp: select_current_row_def)

lemma hub_select_edge_row: "select_edge_row w db t i = (r, w1) \<Longrightarrow> hub_view w1 = hub_view w"
  by (auto simp: select_edge_row_def)

lemma hub_select_id_where: "select_id_where w db t c v = (r, w1) \<Longrightarrow> hub_view w1 = hub_view w"
  by (auto simp: select_id_where_def)

lemma hub_exec_upsert: "exec_upsert E w db t ic uc p = (r, w1) \<Longrightarrow> hub_view w1 = hub_view w"
  by (auto simp: exec_upsert_def Let_def split: if_splits option.splits pyval.splits)

lemma hub_upsert_row: "upsert_row E w db t p = (r, w1) \<Longrightarrow> hub_view w1 = hub_view w"
  by (auto simp: upsert_row_def Let_def dest: hub_exec_upsert split: if_splits)

lemma hub_delete_row: "delete_row E w db t i = (r, w1) \<Longrightarrow> hub_view w1 = hub_view w"
  by (auto simp: delete_row_def split: option.splits)

lemma hub_record_conflict: "record_conflict w t i s g p = (c, w1) \<Longrightarrow> hub_view w1 = hub_view w"
  by (auto simp: record_conflict_def Let_def hub_view_def)

lemma hub_upsert_and_count: "upsert_and_count E w db t p = (r, w1) \<Longrightarrow> hub_view w1 = hub_view w"
  by (auto simp: upsert_and_count_def split: prod.splits sum.splits dest!: hub_upsert_row)

lemma hub_first_user_match: "first_user_match w db cands = (r, w1) \<Longrightarrow> hub_view w1 = hub_view w"
proof (induction cands arbitrary: w)
  case Nil
  then show ?case by simp
next
  case (Cons c cands)
  obtain col v where c: "c = (col, v)" by (cases c)
  obtain r0 w0 where s: "select_id_where w db ''users'' col v = (r0, w0)"
    by (cases "select_id_where w db ''users'' col v")
  have q0: "hub_view w0 = hub_view w" using s by (rule hub_select_id_where)
  show ?case
  proof (cases r0)
    case None
    with Cons.prems c s have "first_user_match w0 db cands = (r, w1)" by simp
    from Cons.IH [OF this] q0 show ?thesis by simp
  next
    case (Some i)
    with Cons.prems c s have "w1 = w0" by simp
    with q0 show ?thesis by simp
  qed
qed

lemma hub_map_user_id_by_unique:
  "map_user_id_by_unique w o_db t_db u = (r, w1) \<Longrightarrow> hub_view w1 = hub_view w"
  by (auto simp: map_user_id_by_unique_def Let_def simp del: first_user_match.simps filter.simps list.map
      split: prod.splits option.splits if_splits
      dest!: hub_select_edge_row hub_first_user_match)

lemma hub_select_profile: "select_profile_id_by_user_id w db u = (r, w1) \<Longrightarrow> hub_view w1 = hub_view w"
  by (auto simp: select_profile_id_by_user_id_def dest: hub_select_id_where)

lemma hub_ensure_parent_present:
  "ensure_parent_present E w o_db t_db pt pid = (r, w1) \<Longrightarrow> hub_view w1 = hub_view w"
  by (auto simp: ensure_parent_present_def split: prod.splits option.splits sum.splits
      dest!: hub_select_edge_row hub_select_current_row hub_upsert_row)

lemma hub_retry_or_fail: "retry_or_fail E w db t p = (r, w1) \<Longrightarrow> hub_view w1 = hub_view w"
  by (auto simp: retry_or_fail_def split: prod.splits sum.splits dest!: hub_upsert_and_count)

lemma hub_repair_pg_profile_fk:
  "repair_pg_profile_fk E w o_db t_db row sp e = (r, w1) \<Longrightarrow> hub_view w1 = hub_view w"
  by (auto simp: repair_pg_profile_fk_def split: prod.splits option.splits sum.splits if_splits
      dest!: hub_map_user_id_by_unique hub_upsert_and_count)

lemma hub_repair_pg_profile_unique:
  "repair_pg_profile_unique E w o_db t_db row sp e = (r, w1) \<Longrightarrow> hub_view w1 = hub_view w"
  by (auto simp: repair_pg_profile_unique_def split: prod.splits option.splits sum.splits if_splits
      dest!: hub_map_user_id_by_unique hub_retry_or_fail hub_select_current_row hub_select_profile)

lemma hub_repair_pg_user_unique:
  "repair_pg_user_unique E w o_db t_db row sp e = (r, w1) \<Longrightarrow> hub_view w1 = hub_view w"
  by (auto simp: repair_pg_user_unique_def split: prod.splits option.splits sum.splits if_splits
      dest!: hub_map_user_id_by_unique hub_retry_or_fail)

lemma hub_repair_mysql_item_fk:
  "repair_mysql_item_fk E w o_db t_db row sp e = (r, w1) \<Longrightarrow> hub_view w1 = hub_view w"
  by (auto simp: repair_mysql_item_fk_def split: prod.splits option.splits sum.splits if_splits
      dest!: hub_map_user_id_by_unique hub_retry_or_fail)

lemma hub_repair_mysql_profile_fk:
  "repair_mysql_profile_fk E w o_db t_db row sp e = (r, w1) \<Longrightarrow> hub_view w1 = hub_view w"
  by (auto simp: repair_mysql_profile_fk_def split: prod.splits option.splits sum.splits if_splits flow.splits
      dest!: hub_map_user_id_by_unique hub_retry_or_fail hub_ensure_parent_present hub_upsert_and_count)

lemma hub_repair_mysql_fk:
  "repair_mysql_fk E w o_db t_db row sp e = (r, w1) \<Longrightarrow> hub_view w1 = hub_view w"
  by (auto simp: repair_mysql_fk_def split: prod.splits if_splits flow.splits
      dest!: hub_repair_mysql_item_fk hub_repair_mysql_profile_fk)

lemma hub_handle_replication_error:
  "handle_replication_error E w o_db t_db row sp e = (r, w1) \<Longrightarrow> hub_view w1 = hub_view w"
  by (auto simp: handle_replication_error_def split: prod.splits flow.splits
      dest!: hub_repair_pg_profile_fk hub_repair_pg_profile_unique hub_repair_pg_user_unique
        hub_repair_mysql_fk)

lemma hub_sync_to_target:
  "sync_to_target E w o_db row sp v t_db = (r, w1) \<Longrightarrow> hub_view w1 = hub_view w"
  by (auto simp: sync_to_target_def split: prod.splits sum.splits if_splits
      dest!: hub_select_current_row hub_delete_row hub_record_conflict hub_upsert_and_count)

lemma hub_smart_fix:
  "smart_fix E w o_db k row v = (r, w1) \<Longrightarrow> hub_view w1 = hub_view w"
  by (auto simp: smart_fix_def write_fixed_clock_def Let_def
      split: sum.splits if_splits bool.splits option.splits exc.splits)

lemma hub_sync_targets:
  "sync_targets E w o_db row sp v ts = (r, w1) \<Longrightarrow> hub_view w1 = hub_view w"
proof (induction ts arbitrary: w)
  case Nil
  then show ?case by simp
next
  case (Cons t ts)
  show ?case
  proof (cases "t = o_db")
    case True
    with Cons show ?thesis by simp
  next
    case False
    obtain r0 w0 where s: "sync_to_target E w o_db row sp v t = (r0, w0)"
      by (cases "sync_to_target E w o_db row sp v t")
    have h0: "hub_view w0 = hub_view w" using s by (rule hub_sync_to_target)
    show ?thesis
    proof (cases r0)
      case (Inr u)
      with Cons.prems False s have "sync_targets E w0 o_db row sp v ts = (r, w1)" by simp
      from Cons.IH [OF this] h0 show ?thesis by simp
    next
      case (Inl e)
      obtain f w2 where h: "handle_replication_error E w0 o_db t row sp e = (f, w2)"
        by (cases "handle_replication_error E w0 o_db t row sp e")
      have h2: "hub_view w2 = hub_view w" using hub_handle_replication_error [OF h] h0 by simp
      show ?thesis
      proof (cases f)
        case Continue
        with Cons.prems False s Inl h have "sync_targets E w2 o_db row sp v ts = (r, w1)" by simp
        from Cons.IH [OF this] h2 show ?thesis by simp
      qed (use Cons.prems False s Inl h h2 in auto)
    qed
  qed
qed

lemma hub_view_mark:
  "hub_view (mark_edge_log_processed w o_db i) =
     (sync_worker_state w,
      (sync_log w)(o_db := map (\<lambda>r. if sl_log_id r = i then r\<lparr>sl_status := 1\<rparr> else r) (sync_log w o_db)),
      sync_configs w, utc_now w, marked (ops w) @ [(o_db, i)])"
  by (simp add: hub_view_def mark_edge_log_processed_def log_op_def)

lemma mark_cong: "hub_view w1 = hub_view w \<Longrightarrow>
  hub_view (mark_edge_log_processed w1 o_db i) = hub_view (mark_edge_log_processed w o_db i)"
  by (simp add: hub_view_mark) (simp add: hub_view_def)

lemma process_edge_row_view:
  assumes "process_edge_row E w o_db k row ts = (r, w1)"
  shows "hub_view w1 =
     (if r = Inr True then hub_view (mark_edge_log_processed w o_db (log_id row)) else hub_view w)"
proof (cases "table_name row \<notin> set TRACKED_TABLES \<or> as_dict (source_payload_of row) = None")
  case True
  with assms have "r = Inr True" "w1 = mark_edge_log_processed w o_db (log_id row)"
    by (auto simp: process_edge_row_def as_dict_def split: pyval.splits)
  then show ?thesis by simp
next
  case False
  then obtain sp where sp: "source_payload_of row = PDict sp" and tr: "table_name row \<in> set TRACKED_TABLES"
    by (auto simp: as_dict_def split: pyval.splits)
  show ?thesis
  proof (cases "parse_vclock E (py_get sp ''v_clock'')")
    case (Inl e)
    with assms sp tr show ?thesis by (auto simp: process_edge_row_def)
  next
    case (Inr v)
    obtain r0 w0 where sf: "smart_fix E w o_db k row v = (r0, w0)"
      by (cases "smart_fix E w o_db k row v")
    have h0: "hub_view w0 = hub_view w" using sf by (rule hub_smart_fix)
    show ?thesis
    proof (cases r0)
      case (Inl e)
      with assms sp tr Inr sf h0 show ?thesis by (auto simp: process_edge_row_def)
    next
      case (Inr rv)
      obtain row' v' where rv: "rv = (row', v')" by (cases rv)
      define sp' where "sp' = (case as_dict (source_payload_of row') of Some d \<Rightarrow> d | None \<Rightarrow> sp)"
      obtain r2 w2 where st: "sync_targets E w0 o_db row' sp' v' ts = (r2, w2)"
        by (cases "sync_targets E w0 o_db row' sp' v' ts")
      have h2: "hub_view w2 = hub_view w" using hub_sync_targets [OF st] h0 by simp
      have res: "(r, w1) = (case (r2, w2) of
            (Inr True, w2) \<Rightarrow> (Inr True, mark_edge_log_processed w2 o_db (log_id row))
          | other \<Rightarrow> other)"
        using assms sp tr \<open>parse_vclock E (py_get sp ''v_clock'') = Inr v\<close> sf Inr rv st
        by (simp add: process_edge_row_def sp'_def)
      show ?thesis
      proof (cases "r2 = Inr True")
        case True
        with res have "r = Inr True" "w1 = mark_edge_log_processed w2 o_db (log_id row)" by auto
        with mark_cong [OF h2] show ?thesis by simp
      next
        case False
        with res have "r = r2" "w1 = w2" by (auto split: sum.splits bool.splits)
        with False h2 show ?thesis by simp
      qed
    qed
  qed
qed

section \<open>The loop over a batch\<close>

lemma process_rows_Cons_True:
  "process_edge_row E w o_db k row ts = (Inr True, w0) \<Longrightarrow>
   process_rows E w o_db k ts (row # rest) mc = process_rows E w0 o_db k ts rest (max mc (log_id row))"
  by simp

lemma process_rows_Cons_stop:
  "process_edge_row E w o_db k row ts = (r0, w0) \<Longrightarrow> r0 \<noteq> Inr True \<Longrightarrow>
   process_rows E w o_db k ts (row # rest) mc = (case r0 of Inl e \<Rightarrow> Inl e | Inr b \<Rightarrow> Inr mc, w0)"
  by (cases r0) (auto split: bool.splits)

lemma ok_prefix_Cons_True:
  "process_edge_row E w o_db k row ts = (Inr True, w0) \<Longrightarrow>
   ok_prefix E w o_db k ts (row # rest) = Suc (ok_prefix E w0 o_db k ts rest)"
  by simp

lemma ok_prefix_Cons_stop:
  "process_edge_row E w o_db k row ts = (r0, w0) \<Longrightarrow> r0 \<noteq> Inr True \<Longrightarrow>
   ok_prefix E w o_db k ts (row # rest) = 0"
  by (cases r0) (auto split: bool.splits)

declare process_rows.simps(2) [simp del] ok_prefix.simps(2) [simp del]

lemma ok_prefix_le: "ok_prefix E w o_db k ts batch \<le> length batch"
proof (induction batch arbitrary: w)
  case Nil
  show ?case by simp
next
  case (Cons row rest)
  obtain r0 w0 where p: "process_edge_row E w o_db k row ts = (r0, w0)"
    by (cases "process_edge_row E w o_db k row ts")
  show ?case
  proof (cases "r0 = Inr True")
    case True
    with p Cons.IH [of w0] show ?thesis by (simp add: ok_prefix_Cons_True)
  next
    case False
    with p show ?thesis by (simp add: ok_prefix_Cons_stop)
  qed
qed

lemma mark_all_cong:
  "hub_view a = hub_view b \<Longrightarrow> hub_view (mark_all o_db xs a) = hub_view (mark_all o_db xs b)"
proof (induction xs arbitrary: a b)
  case Nil
  then show ?case by (simp add: mark_all_def)
next
  case (Cons x xs)
  have "hub_view (mark_edge_log_processed a o_db (log_id x)) = hub_view (mark_edge_log_processed b o_db (log_id x))"
    using Cons.prems by (rule mark_cong)
  from Cons.IH [OF this] show ?case by (simp add: mark_all_def)
qed

lemma process_rows_view:
  "process_rows E w o_db k ts batch mc = (r, w1) \<Longrightarrow>
   hub_view w1 = hub_view (mark_all o_db (take (ok_prefix E w o_db k ts batch) batch) w)"
proof (induction batch arbitrary: w mc)
  case Nil
  then show ?case by (simp add: mark_all_def)
next
  case (Cons row rest)
  obtain r0 w0 where p: "process_edge_row E w o_db k row ts = (r0, w0)"
    by (cases "process_edge_row E w o_db k row ts")
  note v = process_edge_row_view [OF p]
  show ?case
  proof (cases "r0 = Inr True")
    case True
    with p have p': "process_edge_row E w o_db k row ts = (Inr True, w0)" by simp
    from Cons.prems have "process_rows E w0 o_db k ts rest (max mc (log_id row)) = (r, w1)"
      by (simp add: process_rows_Cons_True [OF p'])
    from Cons.IH [OF this]
    have 1: "hub_view w1 = hub_view (mark_all o_db (take (ok_prefix E w0 o_db k ts rest) rest) w0)" .
    have "hub_view w0 = hub_view (mark_edge_log_processed w o_db (log_id row))"
      using v True by simp
    from mark_all_cong [OF this]
    have 2: "hub_view (mark_all o_db (take (ok_prefix E w0 o_db k ts rest) rest) w0)
      = hub_view (mark_all o_db (take (ok_prefix E w0 o_db k ts rest) rest)
          (mark_edge_log_processed w o_db (log_id row)))" .
    show ?thesis
      unfolding ok_prefix_Cons_True [OF p'] 1 2 by (simp add: mark_all_def)
  next
    case False
    from Cons.prems have "w1 = w0"
      by (simp add: process_rows_Cons_stop [OF p False])
    moreover have "hub_view w0 = hub_view w" using v False by simp
    ultimately show ?thesis
      by (simp add: ok_prefix_Cons_stop [OF p False] mark_all_def)
  qed
qed

lemma process_rows_result:
  "process_rows E w o_db k ts batch mc = (Inr m, w1) \<Longrightarrow>
   m = fold (\<lambda>row m. max m (log_id row)) (take (ok_prefix E w o_db k ts batch) batch) mc"
proof (induction batch arbitrary: w mc)
  case Nil
  then show ?case by simp
next
  case (Cons row rest)
  obtain r0 w0 where p: "process_edge_row E w o_db k row ts = (r0, w0)"
    by (cases "process_edge_row E w o_db k row ts")
  show ?case
  proof (cases "r0 = Inr True")
    case True
    with p have p': "process_edge_row E w o_db k row ts = (Inr True, w0)" by simp
    from Cons.prems have "process_rows E w0 o_db k ts rest (max mc (log_id row)) = (Inr m, w1)"
      by (simp add: process_rows_Cons_True [OF p'])
    from Cons.IH [OF this] show ?thesis
      by (simp add: ok_prefix_Cons_True [OF p'])
  next
    case False
    from Cons.prems have "m = mc"
      by (cases r0) (simp_all add: process_rows_Cons_stop [OF p False])
    then show ?thesis by (simp add: ok_prefix_Cons_stop [OF p False])
  qed
qed

lemma process_rows_take:
  "process_rows E w o_db k ts (take (ok_prefix E w o_db k ts batch) batch) mc
   = (Inr (fold (\<lambda>row m. max m (log_id row)) (take (ok_prefix E w o_db k ts batch) batch) mc),
      snd (process_rows E w o_db k ts (take (ok_prefix E w o_db k ts batch) batch) mc))"
proof (induction batch arbitrary: w mc)
  case Nil
  show ?case by simp
next
  case (Cons row rest)
  obtain r0 w0 where p: "process_edge_row E w o_db k row ts = (r0, w0)"
    by (cases "process_edge_row E w o_db k row ts")
  show ?case
  proof (cases "r0 = Inr True")
    case True
    with p have p': "process_edge_row E w o_db k row ts = (Inr True, w0)" by simp
    show ?thesis
      using Cons.IH [of w0 "max mc (log_id row)"]
      by (simp add: ok_prefix_Cons_True [OF p'] process_rows_Cons_True [OF p'])
  next
    case False
    show ?thesis by (simp add: ok_prefix_Cons_stop [OF p False])
  qed
qed

lemma process_rows_stops:
  "ok_prefix E w o_db k ts batch < length batch \<Longrightarrow>
   fst (process_edge_row E
          (snd (process_rows E w o_db k ts (take (ok_prefix E w o_db k ts batch) batch) mc))
          o_db k (batch ! ok_prefix E w o_db k ts batch) ts) \<noteq> Inr True"
proof (induction batch arbitrary: w mc)
  case Nil
  then show ?case by simp
next
  case (Cons row rest)
  obtain r0 w0 where p: "process_edge_row E w o_db k row ts = (r0, w0)"
    by (cases "process_edge_row E w o_db k row ts")
  show ?case
  proof (cases "r0 = Inr True")
    case True
    with p have p': "process_edge_row E w o_db k row ts = (Inr True, w0)" by simp
    from Cons.prems have "ok_prefix E w0 o_db k ts rest < length rest"
      by (simp add: ok_prefix_Cons_True [OF p'])
    from Cons.IH [OF this, of "max mc (log_id row)"] show ?thesis
      by (simp add: ok_prefix_Cons_True [OF p'] process_rows_Cons_True [OF p'])
  next
    case False
    with p show ?thesis by (simp add: ok_prefix_Cons_stop [OF p False])
  qed
qed

lemma process_rows_crash_or_result:
  "process_rows E w o_db k ts batch mc = (Inl e, w1) \<Longrightarrow> ok_prefix E w o_db k ts batch < length batch"
proof (induction batch arbitrary: w mc)
  case Nil
  then show ?case by simp
next
  case (Cons row rest)
  obtain r0 w0 where p: "process_edge_row E w o_db k row ts = (r0, w0)"
    by (cases "process_edge_row E w o_db k row ts")
  show ?case
  proof (cases "r0 = Inr True")
    case True
    with p have p': "process_edge_row E w o_db k row ts = (Inr True, w0)" by simp
    from Cons.prems have "process_rows E w0 o_db k ts rest (max mc (log_id row)) = (Inl e, w1)"
      by (simp add: process_rows_Cons_True [OF p'])
    from Cons.IH [OF this] show ?thesis by (simp add: ok_prefix_Cons_True [OF p'])
  next
    case False
    show ?thesis by (simp add: ok_prefix_Cons_stop [OF p False])
  qed
qed

section \<open>Cursor and batch order\<close>

lemma cursor_value_view: "hub_view w1 = hub_view w \<Longrightarrow> cursor_value w1 o_db = cursor_value w o_db"
  by (simp add: hub_view_def cursor_value_def)

lemma cursor_name_inj [simp]: "cursor_name_of a = cursor_name_of b \<longleftrightarrow> a = b"
  by (simp add: cursor_name_of_def)

lemma cursor_value_store:
  "cursor_value (store_cursor w (cursor_name_of o_db) v) o' = (if o' = o_db then v else cursor_value w o')"
  by (simp add: cursor_value_def store_cursor_def update_conv')

lemma load_cursor_value: "fst (load_cursor w (cursor_name_of o_db)) = cursor_value w o_db"
  by (simp add: load_cursor_def cursor_value_def split: option.splits)

lemma cursor_value_load: "cursor_value (snd (load_cursor w nm)) o' = cursor_value w o'"
  by (auto simp: load_cursor_def cursor_value_def map_add_def split: option.splits)

lemma cursor_value_touch [simp]: "cursor_value (touch_scheduled_last_run w ids) o' = cursor_value w o'"
  by (simp add: touch_scheduled_last_run_def cursor_value_def)

lemma marked_touch [simp]: "ops (touch_scheduled_last_run w ids) = ops w"
  by (simp add: touch_scheduled_last_run_def)

lemma ops_store [simp]: "ops (store_cursor w nm v) = ops w"
  by (simp add: store_cursor_def)

lemma ops_load [simp]: "ops (snd (load_cursor w nm)) = ops w"
  by (simp add: load_cursor_def split: option.splits)

lemma cursor_value_mark_all: "cursor_value (mark_all o_db xs w) o' = cursor_value w o'"
proof (induction xs arbitrary: w)
  case Nil
  show ?case by (simp add: mark_all_def)
next
  case (Cons x xs)
  have "cursor_value (mark_edge_log_processed w o_db (log_id x)) o' = cursor_value w o'"
    by (simp add: cursor_value_def mark_edge_log_processed_def log_op_def)
  with Cons.IH [of "mark_edge_log_processed w o_db (log_id x)"] show ?case
    by (simp add: mark_all_def)
qed

lemma marked_mark_all:
  "marked (ops (mark_all o_db xs w)) = marked (ops w) @ map (\<lambda>row. (o_db, log_id row)) xs"
proof (induction xs arbitrary: w)
  case Nil
  show ?case by (simp add: mark_all_def)
next
  case (Cons x xs)
  have "marked (ops (mark_edge_log_processed w o_db (log_id x))) = marked (ops w) @ [(o_db, log_id x)]"
    by (simp add: mark_edge_log_processed_def log_op_def)
  with Cons.IH [of "mark_edge_log_processed w o_db (log_id x)"] show ?case
    by (simp add: mark_all_def)
qed

lemma fold_max_ge: "mc \<le> fold (\<lambda>row m. max m (log_id row)) xs (mc::int)"
proof (induction xs arbitrary: mc)
  case Nil
  show ?case by simp
next
  case (Cons x xs)
  have "mc \<le> max mc (log_id x)" by simp
  also have "\<dots> \<le> fold (\<lambda>row m. max m (log_id row)) xs (max mc (log_id x))" by (rule Cons.IH)
  finally show ?case by simp
qed

lemma fold_max_last:
  "sorted_wrt (<) (mc # map log_id xs) \<Longrightarrow>
   fold (\<lambda>row m. max m (log_id row)) xs (mc::int) = last (mc # map log_id xs)"
proof (induction xs arbitrary: mc)
  case Nil
  show ?case by simp
next
  case (Cons x xs)
  from Cons.prems have lt: "mc < log_id x" and s: "sorted_wrt (<) (log_id x # map log_id xs)"
    by auto
  have "max mc (log_id x) = log_id x" using lt by simp
  with Cons.IH [OF s] show ?case by simp
qed

lemma fetch_ids:
  "map log_id (fetch_edge_logs E w o_db after n)
   = map sl_log_id (take (nat n) (sort_key sl_log_id
        (filter (\<lambda>r. sl_status r = 0 \<and> sl_log_id r > after) (sync_log w o_db))))"
  by (simp add: fetch_edge_logs_def o_def)

lemma fetch_sorted:
  assumes "distinct (map sl_log_id (sync_log w o_db))"
  shows "sorted_wrt (<) (after # map log_id (fetch_edge_logs E w o_db after n))"
proof -
  let ?f = "filter (\<lambda>r. sl_status r = 0 \<and> sl_log_id r > after) (sync_log w o_db)"
  let ?s = "sort_key sl_log_id ?f"
  have d: "distinct (map sl_log_id ?f)" using assms by (rule distinct_map_filter)
  then have "distinct (map sl_log_id ?s)" by (simp add: distinct_map)
  moreover have "sorted (map sl_log_id ?s)" by (rule sorted_sort_key)
  ultimately have "sorted_wrt (<) (map sl_log_id ?s)" by (simp add: strict_sorted_iff)
  then have "sorted_wrt (<) (take (nat n) (map sl_log_id ?s))" by (rule sorted_wrt_take)
  then have 1: "sorted_wrt (<) (map sl_log_id (take (nat n) ?s))" by (simp add: take_map)
  have 3: "\<forall>y\<in>set (map sl_log_id (take (nat n) ?s)). after < y"
  proof
    fix y assume "y \<in> set (map sl_log_id (take (nat n) ?s))"
    then obtain x where x: "x \<in> set (take (nat n) ?s)" and y: "y = sl_log_id x"
      by (auto simp only: set_map)
    from x have "x \<in> set ?s" by (rule in_set_takeD)
    then have "x \<in> set ?f" by (simp only: set_sort)
    then show "after < y" unfolding y by simp
  qed
  show ?thesis unfolding fetch_ids sorted_wrt.simps using 3 1 by (rule conjI)
qed

lemma sorted_take_prefix:
  "sorted_wrt (<) (c # map log_id xs) \<Longrightarrow> sorted_wrt (<) (c # map log_id (take k xs))"
proof -
  assume a: "sorted_wrt (<) (c # map log_id xs)"
  have "sorted_wrt (<) (take (Suc k) (c # map log_id xs))" using a by (rule sorted_wrt_take)
  then show ?thesis by (simp add: take_map)
qed

section \<open>One origin in one round\<close>

lemma load_cursor_fields [simp]:
  "sync_configs (snd (load_cursor w nm)) = sync_configs w"
  "sync_log (snd (load_cursor w nm)) = sync_log w"
  "utc_now (snd (load_cursor w nm)) = utc_now w"
  by (simp_all add: load_cursor_def split: option.splits)

lemma resolve_load [simp]:
  "resolve_targets_and_due_scheduled (snd (load_cursor w nm)) o_db force
   = resolve_targets_and_due_scheduled w o_db force"
  by (simp add: resolve_targets_and_due_scheduled_def selected_configs_def)

lemma fetch_load [simp]:
  "fetch_edge_logs E (snd (load_cursor w nm)) o_db after n = fetch_edge_logs E w o_db after n"
  by (simp add: fetch_edge_logs_def)

lemma origin_round_unfold:
  "origin_round E w n force o_db k =
     (let w1 = snd (load_cursor w (cursor_name_of o_db));
          targets = fst (resolve_targets_and_due_scheduled w o_db force);
          scheduled_ids = snd (resolve_targets_and_due_scheduled w o_db force);
          batch = fetch_edge_logs E w o_db (cursor_value w o_db) n
      in if targets = [] then (Inr False, w1)
         else if batch = [] then (Inr False, touch_scheduled_last_run w1 scheduled_ids)
         else (case process_rows E w1 o_db k targets batch (cursor_value w o_db) of
                 (Inl e, w2) \<Rightarrow> (Inl e, w2)
               | (Inr m, w2) \<Rightarrow>
                   (Inr True, touch_scheduled_last_run (store_cursor w2 (cursor_name_of o_db) m)
                                scheduled_ids)))"
proof -
  obtain l w1 where lc: "load_cursor w (cursor_name_of o_db) = (l, w1)"
    by (cases "load_cursor w (cursor_name_of o_db)")
  have l: "l = cursor_value w o_db" using load_cursor_value [of w o_db] lc by simp
  have w1: "w1 = snd (load_cursor w (cursor_name_of o_db))" using lc by simp
  obtain ts ids where r: "resolve_targets_and_due_scheduled w o_db force = (ts, ids)"
    by (cases "resolve_targets_and_due_scheduled w o_db force")
  have r1: "resolve_targets_and_due_scheduled w1 o_db force = (ts, ids)"
    unfolding w1 using r by simp
  have f1: "fetch_edge_logs E w1 o_db (cursor_value w o_db) n
      = fetch_edge_logs E w o_db (cursor_value w o_db) n"
    unfolding w1 by simp
  show ?thesis
    unfolding origin_round_def lc r1 prod.case l f1 Let_def r fst_conv snd_conv w1 [symmetric] ..
qed

lemma origin_round_cursor:
  assumes "origin_round E w n force o_db k = (r, w')"
  shows "cursor_value w o' \<le> cursor_value w' o'"
proof -
  define w1 where "w1 = snd (load_cursor w (cursor_name_of o_db))"
  define targets where "targets = fst (resolve_targets_and_due_scheduled w o_db force)"
  define ids where "ids = snd (resolve_targets_and_due_scheduled w o_db force)"
  define batch where "batch = fetch_edge_logs E w o_db (cursor_value w o_db) n"
  have c1: "cursor_value w1 o' = cursor_value w o'" unfolding w1_def by (rule cursor_value_load)
  note u = origin_round_unfold [of E w n force o_db k, unfolded Let_def,
      folded w1_def targets_def ids_def batch_def]
  show ?thesis
  proof (cases "targets = [] \<or> batch = []")
    case True
    with assms u have "w' = w1 \<or> w' = touch_scheduled_last_run w1 ids" by (auto split: if_splits)
    with c1 show ?thesis by auto
  next
    case False
    obtain r2 w2 where p: "process_rows E w1 o_db k targets batch (cursor_value w o_db) = (r2, w2)"
      by (cases "process_rows E w1 o_db k targets batch (cursor_value w o_db)")
    have "hub_view w2 = hub_view (mark_all o_db (take (ok_prefix E w1 o_db k targets batch) batch) w1)"
      using p by (rule process_rows_view)
    from cursor_value_view [OF this, of o'] have c2: "cursor_value w2 o' = cursor_value w o'"
      using c1 by (simp add: cursor_value_mark_all)
    show ?thesis
    proof (cases r2)
      case (Inl e)
      with assms u False p have "w' = w2" by simp
      with c2 show ?thesis by simp
    next
      case (Inr m)
      with assms u False p
      have w': "w' = touch_scheduled_last_run (store_cursor w2 (cursor_name_of o_db) m) ids" by simp
      have "m = fold (\<lambda>row m. max m (log_id row)) (take (ok_prefix E w1 o_db k targets batch) batch)
                  (cursor_value w o_db)"
        using p Inr by (auto dest: process_rows_result)
      then have "cursor_value w o_db \<le> m" by (simp add: fold_max_ge)
      then show ?thesis using c2 by (simp add: w' cursor_value_store)
    qed
  qed
qed

lemma worker_run_cursor:
  "worker_run E w w' \<Longrightarrow> cursor_value w o' \<le> cursor_value w' o'"
proof (induction rule: worker_run.induct)
  case (run_start w)
  show ?case by simp
next
  case (run_round w w1 batch_size force_scheduled origin_db origin_key r w2)
  from origin_round_cursor [OF run_round.hyps(2), of o'] run_round.IH show ?case by simp
next
  case (run_other w w1 w2)
  then show ?case by simp
qed

lemma process_rows_stops_False:
  assumes "process_rows E w o_db k ts batch mc = (Inr m, w1)"
    and "ok_prefix E w o_db k ts batch < length batch"
  shows "fst (process_edge_row E
          (snd (process_rows E w o_db k ts (take (ok_prefix E w o_db k ts batch) batch) mc))
          o_db k (batch ! ok_prefix E w o_db k ts batch) ts) = Inr False"
  using assms
proof (induction batch arbitrary: w mc)
  case Nil
  then show ?case by simp
next
  case (Cons row rest)
  obtain r0 w0 where p: "process_edge_row E w o_db k row ts = (r0, w0)"
    by (cases "process_edge_row E w o_db k row ts")
  show ?case
  proof (cases "r0 = Inr True")
    case True
    with p have p': "process_edge_row E w o_db k row ts = (Inr True, w0)" by simp
    from Cons.prems have 1: "process_rows E w0 o_db k ts rest (max mc (log_id row)) = (Inr m, w1)"
      and 2: "ok_prefix E w0 o_db k ts rest < length rest"
      by (simp_all add: ok_prefix_Cons_True [OF p'] process_rows_Cons_True [OF p'])
    from Cons.IH [OF 1 2] show ?thesis
      by (simp add: ok_prefix_Cons_True [OF p'] process_rows_Cons_True [OF p'])
  next
    case False
    from Cons.prems(1) have "r0 \<noteq> Inl e" for e
      by (auto simp: process_rows_Cons_stop [OF p False])
    with False have "r0 = Inr False" by (cases r0) auto
    with p show ?thesis by (simp add: ok_prefix_Cons_stop [OF p False])
  qed
qed

section \<open>Theorems: cursor, order and halting\<close>

text \<open>
  Over any sequence of worker rounds (with any other activity in between that leaves the
  cursors alone) the cursor of an origin never decreases. In a round of an origin that
  processes a batch without an exception leaving it: the batch is in strictly ascending
  order of \<open>log_id\<close>, all beyond the cursor; the events marked processed in the round
  are the first \<open>k\<close> of the batch, in that order, where \<open>k\<close> counts the events processed
  before the first that was not; the stored cursor is the \<open>log_id\<close> of the last of them,
  or the old cursor when there is none; and when \<open>k\<close> is not the whole batch, event \<open>k\<close>
  is the one whose processing reported a failure, and the cursor is not past it.
\<close>

theorem round_without_exception:
  "(worker_run E w w' \<longrightarrow> cursor_value w origin \<le> cursor_value w' origin)
   \<and> (origin_round E w n force o_db key = (Inr True, w'')
        \<and> distinct (map sl_log_id (sync_log w o_db)) \<longrightarrow>
       (let w1 = snd (load_cursor w (cursor_name_of o_db));
            targets = fst (resolve_targets_and_due_scheduled w o_db force);
            batch = fetch_edge_logs E w o_db (cursor_value w o_db) n;
            k = ok_prefix E w1 o_db key targets batch
        in sorted_wrt (<) (cursor_value w o_db # map log_id batch)
           \<and> marked (ops w'') = marked (ops w) @ map (\<lambda>row. (o_db, log_id row)) (take k batch)
           \<and> cursor_value w'' o_db = last (cursor_value w o_db # map log_id (take k batch))
           \<and> (k < length batch \<longrightarrow>
                fst (process_edge_row E
                       (snd (process_rows E w1 o_db key targets (take k batch) (cursor_value w o_db)))
                       o_db key (batch ! k) targets) = Inr False)))"
proof (intro conjI impI)
  assume "worker_run E w w'"
  then show "cursor_value w origin \<le> cursor_value w' origin" by (rule worker_run_cursor)
next
  assume a: "origin_round E w n force o_db key = (Inr True, w'')
        \<and> distinct (map sl_log_id (sync_log w o_db))"
  define w1 where "w1 = snd (load_cursor w (cursor_name_of o_db))"
  define targets where "targets = fst (resolve_targets_and_due_scheduled w o_db force)"
  define ids where "ids = snd (resolve_targets_and_due_scheduled w o_db force)"
  define batch where "batch = fetch_edge_logs E w o_db (cursor_value w o_db) n"
  define k where "k = ok_prefix E w1 o_db key targets batch"
  note u = origin_round_unfold [of E w n force o_db key, unfolded Let_def,
      folded w1_def targets_def ids_def batch_def]
  from a u have ne: "targets \<noteq> []" "batch \<noteq> []" by (auto split: if_splits)
  obtain r2 w2 where p: "process_rows E w1 o_db key targets batch (cursor_value w o_db) = (r2, w2)"
    by (cases "process_rows E w1 o_db key targets batch (cursor_value w o_db)")
  from a u ne p obtain m where r2: "r2 = Inr m"
    and w'': "w'' = touch_scheduled_last_run (store_cursor w2 (cursor_name_of o_db) m) ids"
    by (cases r2) auto
  have srt: "sorted_wrt (<) (cursor_value w o_db # map log_id batch)"
    unfolding batch_def using a by (intro fetch_sorted) simp
  have view: "hub_view w2 = hub_view (mark_all o_db (take k batch) w1)"
    unfolding k_def using p by (rule process_rows_view)
  then have "marked (ops w2) = marked (ops (mark_all o_db (take k batch) w1))"
    by (simp add: hub_view_def)
  then have mk: "marked (ops w'') = marked (ops w) @ map (\<lambda>row. (o_db, log_id row)) (take k batch)"
    by (simp add: w'' marked_mark_all w1_def)
  have "m = fold (\<lambda>row m. max m (log_id row)) (take k batch) (cursor_value w o_db)"
    unfolding k_def using p r2 by (auto dest: process_rows_result)
  also have "\<dots> = last (cursor_value w o_db # map log_id (take k batch))"
    using srt by (intro fold_max_last sorted_take_prefix)
  finally have cur: "cursor_value w'' o_db = last (cursor_value w o_db # map log_id (take k batch))"
    by (simp add: w'' cursor_value_store)
  have stop: "k < length batch \<longrightarrow>
                fst (process_edge_row E
                       (snd (process_rows E w1 o_db key targets (take k batch) (cursor_value w o_db)))
                       o_db key (batch ! k) targets) = Inr False"
    unfolding k_def using p r2 by (auto intro: process_rows_stops_False)
  show "let w1 = snd (load_cursor w (cursor_name_of o_db));
            targets = fst (resolve_targets_and_due_scheduled w o_db force);
            batch = fetch_edge_logs E w o_db (cursor_value w o_db) n;
            k = ok_prefix E w1 o_db key targets batch
        in sorted_wrt (<) (cursor_value w o_db # map log_id batch)
           \<and> marked (ops w'') = marked (ops w) @ map (\<lambda>row. (o_db, log_id row)) (take k batch)
           \<and> cursor_value w'' o_db = last (cursor_value w o_db # map log_id (take k batch))
           \<and> (k < length batch \<longrightarrow>
                fst (process_edge_row E
                       (snd (process_rows E w1 o_db key targets (take k batch) (cursor_value w o_db)))
                       o_db key (batch ! k) targets) = Inr False)"
    unfolding Let_def
    using srt mk cur stop
    unfolding w1_def targets_def batch_def k_def by blast
qed


theorem round_without_exception_example:
  "worker_run env1 world1 (snd (origin_round env1 world1 100 False ''mariadb'' KeyN))
   \<and> origin_round env1 world1 100 False ''mariadb'' KeyN
       = (Inr True, snd (origin_round env1 world1 100 False ''mariadb'' KeyN))
   \<and> distinct (map sl_log_id (sync_log world1 ''mariadb''))
   \<and> map log_id (fetch_edge_logs env1 world1 ''mariadb'' 0 100) = [1, 2]
   \<and> ok_prefix env1 (snd (load_cursor world1 (cursor_name_of ''mariadb''))) ''mariadb'' KeyN
        [''mysql''] (fetch_edge_logs env1 world1 ''mariadb'' 0 100) = 1
   \<and> cursor_value world1 ''mariadb'' = 0
   \<and> cursor_value (snd (origin_round env1 world1 100 False ''mariadb'' KeyN)) ''mariadb'' = 1
   \<and> marked (ops (snd (origin_round env1 world1 100 False ''mariadb'' KeyN))) = [(''mariadb'', 1)]
   \<and> cursor_value world1 ''mariadb''
        \<le> cursor_value (snd (origin_round env1 world1 100 False ''mariadb'' KeyN)) ''mariadb''"
proof -
  let ?w = "snd (origin_round env1 world1 100 False ''mariadb'' KeyN)"
  have r: "origin_round env1 world1 100 False ''mariadb'' KeyN = (Inr True, ?w)"
  proof -
    have "fst (origin_round env1 world1 100 False ''mariadb'' KeyN) = Inr True" by code_simp
    then show ?thesis by (simp add: prod_eq_iff)
  qed
  have run: "worker_run env1 world1 ?w"
    by (rule run_round [OF run_start r])
  have d: "distinct (map sl_log_id (sync_log world1 ''mariadb''))" by code_simp
  have c0: "cursor_value world1 ''mariadb'' = 0" by code_simp
  have b: "map log_id (fetch_edge_logs env1 world1 ''mariadb'' 0 100) = [1, 2]" by code_simp
  have k: "ok_prefix env1 (snd (load_cursor world1 (cursor_name_of ''mariadb''))) ''mariadb'' KeyN
        [''mysql''] (fetch_edge_logs env1 world1 ''mariadb'' 0 100) = 1" by code_simp
  have t: "fst (resolve_targets_and_due_scheduled world1 ''mariadb'' False) = [''mysql'']" by code_simp
  have m0: "marked (ops world1) = []" by code_simp
  have b2: "map (\<lambda>row. (''mariadb'', log_id row)) (fetch_edge_logs env1 world1 ''mariadb'' 0 100)
      = [(''mariadb'', 1), (''mariadb'', 2)]" by code_simp
  note inst = round_without_exception [of env1 world1 ?w "''mariadb''" 100 False "''mariadb''" KeyN ?w]
  from inst run have le: "cursor_value world1 ''mariadb'' \<le> cursor_value ?w ''mariadb''" by blast
  from inst r d have
    "marked (ops ?w) = marked (ops world1) @ map (\<lambda>row. (''mariadb'', log_id row))
        (take 1 (fetch_edge_logs env1 world1 ''mariadb'' 0 100))"
    "cursor_value ?w ''mariadb'' = last (0 # map log_id (take 1 (fetch_edge_logs env1 world1 ''mariadb'' 0 100)))"
    unfolding Let_def c0 t k by blast+
  then have "marked (ops ?w) = [(''mariadb'', 1)]" "cursor_value ?w ''mariadb'' = 1"
    using b by (simp_all add: m0 b2 take_map [symmetric] del: take_map)
  with run r d b k c0 le show ?thesis by blast
qed

lemma process_rows_raise:
  assumes "process_rows E w o_db k ts batch mc = (Inl e, w1)"
  shows "fst (process_edge_row E
          (snd (process_rows E w o_db k ts (take (ok_prefix E w o_db k ts batch) batch) mc))
          o_db k (batch ! ok_prefix E w o_db k ts batch) ts) = Inl e"
  using assms
proof (induction batch arbitrary: w mc)
  case Nil
  then show ?case by simp
next
  case (Cons row rest)
  obtain r0 w0 where p: "process_edge_row E w o_db k row ts = (r0, w0)"
    by (cases "process_edge_row E w o_db k row ts")
  show ?case
  proof (cases "r0 = Inr True")
    case True
    with p Cons show ?thesis
      by (simp add: process_rows_Cons_True ok_prefix_Cons_True)
  next
    case False
    with p Cons.prems show ?thesis
      by (cases r0) (simp_all add: process_rows_Cons_stop ok_prefix_Cons_stop)
  qed
qed

text \<open>
  A round that an exception leaves: the events marked processed are again the first \<open>k\<close>
  of the batch, event \<open>k\<close> is the one whose processing raised, and \<open>_store_cursor\<close> is not
  reached: the cursor keeps the value it had before the round.
\<close>

theorem round_with_exception:
  assumes r: "origin_round E w n force o_db key = (Inl e, w'')"
  shows "let w1 = snd (load_cursor w (cursor_name_of o_db));
             targets = fst (resolve_targets_and_due_scheduled w o_db force);
             batch = fetch_edge_logs E w o_db (cursor_value w o_db) n;
             k = ok_prefix E w1 o_db key targets batch
         in k < length batch
            \<and> marked (ops w'') = marked (ops w) @ map (\<lambda>row. (o_db, log_id row)) (take k batch)
            \<and> cursor_value w'' o_db = cursor_value w o_db
            \<and> fst (process_edge_row E
                      (snd (process_rows E w1 o_db key targets (take k batch) (cursor_value w o_db)))
                      o_db key (batch ! k) targets) = Inl e"
proof -
  define w1 where "w1 = snd (load_cursor w (cursor_name_of o_db))"
  define targets where "targets = fst (resolve_targets_and_due_scheduled w o_db force)"
  define ids where "ids = snd (resolve_targets_and_due_scheduled w o_db force)"
  define batch where "batch = fetch_edge_logs E w o_db (cursor_value w o_db) n"
  define k where "k = ok_prefix E w1 o_db key targets batch"
  note u = origin_round_unfold [of E w n force o_db key, unfolded Let_def,
      folded w1_def targets_def ids_def batch_def]
  from r u have ne: "targets \<noteq> []" "batch \<noteq> []" by (auto split: if_splits)
  obtain r2 w2 where p: "process_rows E w1 o_db key targets batch (cursor_value w o_db) = (r2, w2)"
    by (cases "process_rows E w1 o_db key targets batch (cursor_value w o_db)")
  from r u ne p have r2: "r2 = Inl e" and w'': "w'' = w2"
    by (cases r2; simp)+
  have kl: "k < length batch"
    unfolding k_def using p r2 by (auto dest: process_rows_crash_or_result)
  have view: "hub_view w2 = hub_view (mark_all o_db (take k batch) w1)"
    unfolding k_def using p by (rule process_rows_view)
  then have "marked (ops w2) = marked (ops (mark_all o_db (take k batch) w1))"
    by (simp add: hub_view_def)
  then have mk: "marked (ops w'') = marked (ops w) @ map (\<lambda>row. (o_db, log_id row)) (take k batch)"
    by (simp add: w'' marked_mark_all w1_def)
  have "cursor_value w2 o_db = cursor_value (mark_all o_db (take k batch) w1) o_db"
    by (rule cursor_value_view [OF view])
  then have cur: "cursor_value w'' o_db = cursor_value w o_db"
    by (simp add: w'' cursor_value_mark_all w1_def cursor_value_load)
  have stop: "fst (process_edge_row E
                      (snd (process_rows E w1 o_db key targets (take k batch) (cursor_value w o_db)))
                      o_db key (batch ! k) targets) = Inl e"
    unfolding k_def using p r2 by (auto intro: process_rows_raise)
  show ?thesis
    unfolding Let_def
    using kl mk cur stop
    unfolding w1_def targets_def batch_def k_def by blast
qed

text \<open>
  C2, at a failing input. The MariaDB edge holds two pending INSERTs of items, the cursor
  is 0; the clock of the second has the text \<open>abc\<close> for its component \<open>N\<close>. \<open>_parse_vclock\<close>
  raises \<open>ValueError\<close> on it before the \<open>try\<close> of \<open>_process_edge_row\<close> is entered, so the
  function does not return False and the loop of \<open>run_forever\<close> is left by the exception:
  event 1 is marked processed and the stored cursor is still 0, while the highest fully
  processed id before the failing event is 1.
\<close>

theorem C2_raise_skips_store_cursor:
  "map log_id (fetch_edge_logs env0 world3 ''mariadb'' 0 100) = [1, 2]
   \<and> fst (resolve_targets_and_due_scheduled world3 ''mariadb'' False) = [''mysql'']
   \<and> cursor_value world3 ''mariadb'' = 0
   \<and> marked (ops world3) = []
   \<and> fst (origin_round env0 world3 100 False ''mariadb'' KeyN) = Inl (PyError ValueError)
   \<and> marked (ops (snd (origin_round env0 world3 100 False ''mariadb'' KeyN))) = [(''mariadb'', 1)]
   \<and> cursor_value (snd (origin_round env0 world3 100 False ''mariadb'' KeyN)) ''mariadb'' = 0"
  by code_simp

section \<open>Theorems: untracked and malformed events\<close>

text \<open>
  C10. For a change event whose table is not tracked, or whose relevant snapshot (the
  after snapshot of an INSERT or UPDATE, else the before snapshot) is not a dict,
  processing reports success and does exactly one thing: it marks that entry of the
  origin's change log processed. No row of any database is read or written, no conflict
  is recorded, no cursor, counter or link changes, and the batch loop goes on with the
  next event.
\<close>

theorem C10_untracked_or_malformed:
  assumes "table_name row \<notin> set TRACKED_TABLES \<or> as_dict (source_payload_of row) = None"
  shows "process_edge_row E w origin_db origin_key row targets
           = (Inr True, mark_edge_log_processed w origin_db (log_id row))
       \<and> mark_edge_log_processed w origin_db (log_id row)
           = w\<lparr>sync_log := (sync_log w)
                   (origin_db := map (\<lambda>r. if sl_log_id r = log_id row then r\<lparr>sl_status := 1\<rparr> else r)
                                   (sync_log w origin_db)),
                ops := ops w @ [OpMarkProcessed origin_db (log_id row)]\<rparr>
       \<and> process_rows E w origin_db origin_key targets (row # rest) max_committed
           = process_rows E (mark_edge_log_processed w origin_db (log_id row)) origin_db origin_key
               targets rest (max max_committed (log_id row))"
proof -
  have 1: "process_edge_row E w origin_db origin_key row targets
           = (Inr True, mark_edge_log_processed w origin_db (log_id row))"
    using assms by (auto simp: process_edge_row_def as_dict_def split: pyval.splits)
  have 2: "mark_edge_log_processed w origin_db (log_id row)
           = w\<lparr>sync_log := (sync_log w)
                   (origin_db := map (\<lambda>r. if sl_log_id r = log_id row then r\<lparr>sl_status := 1\<rparr> else r)
                                   (sync_log w origin_db)),
                ops := ops w @ [OpMarkProcessed origin_db (log_id row)]\<rparr>"
    by (simp add: mark_edge_log_processed_def log_op_def)
  have 3: "process_rows E w origin_db origin_key targets (row # rest) max_committed
           = process_rows E (mark_edge_log_processed w origin_db (log_id row)) origin_db origin_key
               targets rest (max max_committed (log_id row))"
    using 1 by (rule process_rows_Cons_True)
  from 1 2 3 show ?thesis by blast
qed

theorem C10_untracked_or_malformed_witness:
  "table_name \<lparr>log_id = 5, table_name = ''orders'', data_id = 3, operation = ''UPDATE'',
                old_data = PNone, new_data = PDict [(''id'', PInt 3)]\<rparr> \<notin> set TRACKED_TABLES
   \<and> process_edge_row env0 world0 ''mariadb'' KeyN
        \<lparr>log_id = 5, table_name = ''orders'', data_id = 3, operation = ''UPDATE'',
         old_data = PNone, new_data = PDict [(''id'', PInt 3)]\<rparr> [''mysql'', ''postgres'']
      = (Inr True, world0\<lparr>sync_log := (sync_log world0)(''mariadb'' := []),
                           ops := [OpMarkProcessed ''mariadb'' 5]\<rparr>)
   \<and> as_dict (source_payload_of
        \<lparr>log_id = 6, table_name = ''items'', data_id = 3, operation = ''DELETE'',
         old_data = PStr ''not json'', new_data = PNone\<rparr>) = None
   \<and> process_edge_row env0 world0 ''mariadb'' KeyN
        \<lparr>log_id = 6, table_name = ''items'', data_id = 3, operation = ''DELETE'',
         old_data = PStr ''not json'', new_data = PNone\<rparr> [''mysql'', ''postgres'']
      = (Inr True, world0\<lparr>sync_log := (sync_log world0)(''mariadb'' := []),
                           ops := [OpMarkProcessed ''mariadb'' 6]\<rparr>)"
proof -
  let ?a = "\<lparr>log_id = 5, table_name = ''orders'', data_id = 3, operation = ''UPDATE'',
                old_data = PNone, new_data = PDict [(''id'', PInt 3)]\<rparr>"
  let ?b = "\<lparr>log_id = 6, table_name = ''items'', data_id = 3, operation = ''DELETE'',
         old_data = PStr ''not json'', new_data = PNone\<rparr>"
  have a: "table_name ?a \<notin> set TRACKED_TABLES" by (simp add: TRACKED_TABLES_def)
  have b: "as_dict (source_payload_of ?b) = None"
    by (simp add: as_dict_def source_payload_of_def is_insert_or_update_def)
  have e: "sync_log world0 ''mariadb'' = []" "ops world0 = []" by (simp_all add: world0_def)
  from C10_untracked_or_malformed [of ?a env0 world0 "''mariadb''" KeyN "[''mysql'', ''postgres'']"]
    C10_untracked_or_malformed [of ?b env0 world0 "''mariadb''" KeyN "[''mysql'', ''postgres'']"]
    a b e
  show ?thesis by simp
qed

section \<open>Theorems: targets and schedule\<close>

lemma scan_configs_char:
  "scan_configs now force cfgs T I =
     (T @ map cfg_target (filter (contributes now force) cfgs),
      I @ map cfg_id (filter (scheduled_now now force) cfgs))"
proof (induction cfgs arbitrary: T I)
  case Nil
  show ?case by simp
next
  case (Cons c cfgs)
  show ?case
    unfolding scan_configs.simps Cons.IH
    by (simp add: contributes_def scheduled_now_def fun_eq_iff cong: filter_cong)
qed

lemma resolve_char:
  "resolve_targets_and_due_scheduled w origin force =
     (sort (remdups (map cfg_target (filter (contributes (utc_now w) force) (selected_configs w origin)))),
      map cfg_id (filter (scheduled_now (utc_now w) force) (selected_configs w origin)))"
  by (simp add: resolve_targets_and_due_scheduled_def scan_configs_char)

lemma scheduled_imp_contributes: "scheduled_now now force c \<Longrightarrow> contributes now force c"
  by (simp add: scheduled_now_def contributes_def)

lemma resolve_targets_empty:
  "fst (resolve_targets_and_due_scheduled w origin force) = [] \<Longrightarrow>
   snd (resolve_targets_and_due_scheduled w origin force) = []"
proof -
  assume "fst (resolve_targets_and_due_scheduled w origin force) = []"
  then have "set (sort (remdups (map cfg_target
      (filter (contributes (utc_now w) force) (selected_configs w origin))))) = {}"
    by (simp only: resolve_char fst_conv set_empty)
  then have "filter (contributes (utc_now w) force) (selected_configs w origin) = []"
    by simp
  then have "filter (scheduled_now (utc_now w) force) (selected_configs w origin) = []"
    by (auto simp: filter_empty_conv scheduled_imp_contributes)
  then show ?thesis by (simp add: resolve_char)
qed

lemma touch_nil [simp]: "touch_scheduled_last_run w [] = w"
  by (simp add: touch_scheduled_last_run_def)

lemma touch_configs:
  "sync_configs (touch_scheduled_last_run w ids)
   = map (\<lambda>c. if cfg_id c \<in> set ids then c\<lparr>last_run_at := Some (utc_now w)\<rparr> else c) (sync_configs w)"
  by (cases "ids = []") (simp_all add: touch_scheduled_last_run_def)

lemma hub_view_configs: "hub_view a = hub_view b \<Longrightarrow> sync_configs a = sync_configs b \<and> utc_now a = utc_now b"
  by (simp add: hub_view_def)

lemma configs_mark_all [simp]:
  "sync_configs (mark_all o_db xs w) = sync_configs w" "utc_now (mark_all o_db xs w) = utc_now w"
proof -
  have "sync_configs (mark_all o_db xs w) = sync_configs w \<and> utc_now (mark_all o_db xs w) = utc_now w"
  proof (induction xs arbitrary: w)
    case Nil
    show ?case by (simp add: mark_all_def)
  next
    case (Cons x xs)
    have "sync_configs (mark_edge_log_processed w o_db (log_id x)) = sync_configs w"
      "utc_now (mark_edge_log_processed w o_db (log_id x)) = utc_now w"
      by (simp_all add: mark_edge_log_processed_def log_op_def)
    with Cons.IH [of "mark_edge_log_processed w o_db (log_id x)"] show ?case
      by (simp add: mark_all_def)
  qed
  then show "sync_configs (mark_all o_db xs w) = sync_configs w" "utc_now (mark_all o_db xs w) = utc_now w"
    by simp_all
qed

lemma origin_round_configs:
  assumes "origin_round E w n force o_db k = (Inr p, w')"
  shows "sync_configs w' =
     map (\<lambda>c. if cfg_id c \<in> set (snd (resolve_targets_and_due_scheduled w o_db force))
               then c\<lparr>last_run_at := Some (utc_now w)\<rparr> else c) (sync_configs w)"
proof -
  define w1 where "w1 = snd (load_cursor w (cursor_name_of o_db))"
  define targets where "targets = fst (resolve_targets_and_due_scheduled w o_db force)"
  define ids where "ids = snd (resolve_targets_and_due_scheduled w o_db force)"
  define batch where "batch = fetch_edge_logs E w o_db (cursor_value w o_db) n"
  have c1: "sync_configs w1 = sync_configs w" "utc_now w1 = utc_now w"
    unfolding w1_def by simp_all
  note u = origin_round_unfold [of E w n force o_db k, unfolded Let_def,
      folded w1_def targets_def ids_def batch_def]
  show ?thesis
  proof (cases "targets = []")
    case True
    then have "ids = []" unfolding targets_def ids_def by (rule resolve_targets_empty)
    moreover from True assms u have "w' = w1" by simp
    ultimately show ?thesis using c1 by (simp add: ids_def [symmetric] map_idI)
  next
    case False
    show ?thesis
    proof (cases "batch = []")
      case True
      with False assms u have "w' = touch_scheduled_last_run w1 ids" by simp
      then show ?thesis using c1 by (simp add: touch_configs ids_def [symmetric])
    next
      case nb: False
      obtain r2 w2 where p: "process_rows E w1 o_db k targets batch (cursor_value w o_db) = (r2, w2)"
        by (cases "process_rows E w1 o_db k targets batch (cursor_value w o_db)")
      have "hub_view w2 = hub_view (mark_all o_db (take (ok_prefix E w1 o_db k targets batch) batch) w1)"
        using p by (rule process_rows_view)
      from hub_view_configs [OF this] have c2: "sync_configs w2 = sync_configs w" "utc_now w2 = utc_now w"
        using c1 by simp_all
      from assms u False nb p obtain m where
        "w' = touch_scheduled_last_run (store_cursor w2 (cursor_name_of o_db) m) ids"
        by (cases r2) auto
      then show ?thesis using c2
        by (simp add: touch_configs ids_def [symmetric] store_cursor_def)
    qed
  qed
qed


lemma load_trigger: "load_manual_trigger_counter (trigger_manual_sync w) = load_manual_trigger_counter w + 1"
  by (simp add: load_manual_trigger_counter_def trigger_manual_sync_def update_conv' map_add_def
      split: option.splits)

lemma worker_round_unfold:
  "worker_round E w n last_manual_counter =
     (let manual_counter = load_manual_trigger_counter w;
          force = (manual_counter > last_manual_counter);
          seen = (if force then manual_counter else last_manual_counter)
      in (case origin_round E w n force ''mariadb'' KeyN of
            (Inl e, w1) \<Rightarrow> (Inl e, seen, w1)
          | (Inr p, w1) \<Rightarrow>
              (case origin_round E w1 n force ''postgres'' KeyS of
                 (Inl e, w2) \<Rightarrow> (Inl e, seen, w2)
               | (Inr q, w2) \<Rightarrow> (Inr (p \<or> q), seen, w2))))"
proof -
  define forced where "forced = (load_manual_trigger_counter w > last_manual_counter)"
  obtain r1 w1 where a: "origin_round E w n forced ''mariadb'' KeyN = (r1, w1)"
    by (cases "origin_round E w n forced ''mariadb'' KeyN")
  show ?thesis
  proof (cases r1)
    case (Inl e)
    with a show ?thesis
      by (simp add: worker_round_def EDGE_ORIGINS_def Let_def forced_def [symmetric])
  next
    case (Inr p)
    obtain r2 w2 where b: "origin_round E w1 n forced ''postgres'' KeyS = (r2, w2)"
      by (cases "origin_round E w1 n forced ''postgres'' KeyS")
    show ?thesis
    proof (cases r2)
      case (Inl e)
      with a b Inr show ?thesis
        by (simp add: worker_round_def EDGE_ORIGINS_def Let_def forced_def [symmetric])
    next
      case r2: (Inr q)
      with a b Inr show ?thesis
        by (simp add: worker_round_def EDGE_ORIGINS_def Let_def forced_def [symmetric])
    qed
  qed
qed

lemma selected_member:
  "cfg \<in> set (selected_configs w origin) \<longleftrightarrow>
     cfg \<in> set (sync_configs w) \<and> enabled cfg \<and> cfg_source cfg = origin \<and> cfg_target cfg \<noteq> origin"
  by (auto simp: selected_configs_def)

lemma distinct_ids_unique:
  assumes "distinct (map cfg_id cs)" "a \<in> set cs" "b \<in> set cs" "cfg_id a = cfg_id b"
  shows "a = b"
  using assms by (meson distinct_map inj_onD)

text \<open>
  C7. For an enabled link of the origin to another database, in a round of that
  origin: a realtime link's target is among the round's targets; a scheduled link is
  among the round's scheduled links exactly when the round is forced or the link is due
  (never run, or the current time minus \<open>last_run_at\<close> is at least the interval, an
  interval of 0 counting as 300 seconds), its target is then among the targets, and
  without force this needs the time since \<open>last_run_at\<close> to be at least
  \<open>interval_seconds\<close>. A round is forced exactly when the manual-trigger counter is
  above the value the worker saw last, and a manual trigger raises the counter by one.
  When the round ends without an exception, \<open>last_run_at\<close> of exactly the round's
  scheduled links is the current time, whether or not there were events.
\<close>

theorem C7_scheduled_links:
  assumes "cfg \<in> set (sync_configs w)" and "enabled cfg" and "cfg_source cfg = origin"
    and "cfg_target cfg \<noteq> origin" and "distinct (map cfg_id (sync_configs w))"
  shows
   "(mode_of cfg = ''realtime'' \<longrightarrow>
       cfg_target cfg \<in> set (fst (resolve_targets_and_due_scheduled w origin force)))
    \<and> (mode_of cfg = ''scheduled'' \<longrightarrow>
         (cfg_id cfg \<in> set (snd (resolve_targets_and_due_scheduled w origin force)) \<longleftrightarrow>
            force \<or> last_run_at cfg = None
            \<or> (\<exists>l. last_run_at cfg = Some l \<and> utc_now w - l \<ge> interval_of cfg * 1000000))
         \<and> (cfg_id cfg \<in> set (snd (resolve_targets_and_due_scheduled w origin force)) \<longrightarrow>
              cfg_target cfg \<in> set (fst (resolve_targets_and_due_scheduled w origin force)))
         \<and> (cfg_id cfg \<in> set (snd (resolve_targets_and_due_scheduled w origin force)) \<and> \<not> force \<longrightarrow>
              (\<forall>l. last_run_at cfg = Some l \<longrightarrow> utc_now w - l \<ge> interval_seconds cfg * 1000000)))
    \<and> (origin_round E w n force origin key = (Inr p, w') \<longrightarrow>
         sync_configs w' =
           map (\<lambda>c. if cfg_id c \<in> set (snd (resolve_targets_and_due_scheduled w origin force))
                     then c\<lparr>last_run_at := Some (utc_now w)\<rparr> else c) (sync_configs w))
    \<and> load_manual_trigger_counter (trigger_manual_sync w) = load_manual_trigger_counter w + 1
    \<and> worker_round E w n last_manual_counter =
         (let manual_counter = load_manual_trigger_counter w;
              forced = (manual_counter > last_manual_counter);
              seen = (if forced then manual_counter else last_manual_counter)
          in (case origin_round E w n forced ''mariadb'' KeyN of
                (Inl e, w1) \<Rightarrow> (Inl e, seen, w1)
              | (Inr p, w1) \<Rightarrow>
                  (case origin_round E w1 n forced ''postgres'' KeyS of
                     (Inl e, w2) \<Rightarrow> (Inl e, seen, w2)
                   | (Inr q, w2) \<Rightarrow> (Inr (p \<or> q), seen, w2))))"
proof -
  let ?sel = "selected_configs w origin"
  let ?res = "resolve_targets_and_due_scheduled w origin force"
  have sel: "cfg \<in> set ?sel" using assms(1-4) by (simp add: selected_member)
  have dsel: "distinct (map cfg_id ?sel)"
    unfolding selected_configs_def using assms(5) by (rule distinct_map_filter)
  have targets: "set (fst ?res) = cfg_target ` {c \<in> set ?sel. contributes (utc_now w) force c}"
    by (simp add: resolve_char)
  have ids: "set (snd ?res) = cfg_id ` {c \<in> set ?sel. scheduled_now (utc_now w) force c}"
    by (simp add: resolve_char)
  have id_iff: "cfg_id cfg \<in> set (snd ?res) \<longleftrightarrow> scheduled_now (utc_now w) force cfg"
  proof
    assume "cfg_id cfg \<in> set (snd ?res)"
    then obtain c where c: "c \<in> set ?sel" "scheduled_now (utc_now w) force c" "cfg_id c = cfg_id cfg"
      unfolding ids by auto
    from distinct_ids_unique [OF dsel c(1) sel c(3)] c(2) show "scheduled_now (utc_now w) force cfg"
      by simp
  next
    assume "scheduled_now (utc_now w) force cfg"
    with sel show "cfg_id cfg \<in> set (snd ?res)" unfolding ids by blast
  qed
  have 1: "mode_of cfg = ''realtime'' \<longrightarrow> cfg_target cfg \<in> set (fst ?res)"
    unfolding targets using sel by (auto simp: contributes_def)
  have 2: "mode_of cfg = ''scheduled'' \<longrightarrow>
         (cfg_id cfg \<in> set (snd ?res) \<longleftrightarrow>
            force \<or> last_run_at cfg = None
            \<or> (\<exists>l. last_run_at cfg = Some l \<and> utc_now w - l \<ge> interval_of cfg * 1000000))"
    unfolding id_iff by (auto simp: scheduled_now_def is_due_def split: option.splits)
  have 3: "cfg_id cfg \<in> set (snd ?res) \<longrightarrow> cfg_target cfg \<in> set (fst ?res)"
    unfolding id_iff targets using sel by (auto dest: scheduled_imp_contributes)
  have 4: "cfg_id cfg \<in> set (snd ?res) \<and> \<not> force \<longrightarrow>
              (\<forall>l. last_run_at cfg = Some l \<longrightarrow> utc_now w - l \<ge> interval_seconds cfg * 1000000)"
    unfolding id_iff by (auto simp: scheduled_now_def is_due_def interval_of_def split: if_splits)
  have 5: "origin_round E w n force origin key = (Inr p, w') \<longrightarrow>
         sync_configs w' =
           map (\<lambda>c. if cfg_id c \<in> set (snd ?res)
                     then c\<lparr>last_run_at := Some (utc_now w)\<rparr> else c) (sync_configs w)"
    by (auto dest: origin_round_configs)
  from 1 2 3 4 5 load_trigger [of w] worker_round_unfold [of E w n last_manual_counter]
  show ?thesis by blast
qed

theorem C7_scheduled_links_witness:
  "scheduled_link \<in> set (sync_configs world2) \<and> enabled scheduled_link
   \<and> cfg_source scheduled_link = ''mariadb'' \<and> cfg_target scheduled_link \<noteq> ''mariadb''
   \<and> distinct (map cfg_id (sync_configs world2))
   \<and> mode_of scheduled_link = ''scheduled''
   \<and> resolve_targets_and_due_scheduled world2 ''mariadb'' False = ([], [])
   \<and> resolve_targets_and_due_scheduled (trigger_manual_sync world2) ''mariadb'' True = ([''mysql''], [4])
   \<and> fetch_edge_logs env0 (trigger_manual_sync world2) ''mariadb'' 0 100 = []
   \<and> sync_configs (snd (snd (worker_round env0 world2 100 0))) = [scheduled_link]
   \<and> sync_configs (snd (snd (worker_round env0 (trigger_manual_sync world2) 100 0)))
       = [scheduled_link\<lparr>last_run_at := Some 1000000000\<rparr>]
   \<and> sync_configs (snd (origin_round env0 (trigger_manual_sync world2) 100 True ''mariadb'' KeyN))
       = [scheduled_link\<lparr>last_run_at := Some 1000000000\<rparr>]"
proof -
  let ?t = "trigger_manual_sync world2"
  have h: "scheduled_link \<in> set (sync_configs ?t)" "enabled scheduled_link"
    "cfg_source scheduled_link = ''mariadb''" "cfg_target scheduled_link \<noteq> ''mariadb''"
    "distinct (map cfg_id (sync_configs ?t))"
    by code_simp+
  have h2: "scheduled_link \<in> set (sync_configs world2)" "distinct (map cfg_id (sync_configs world2))"
    "mode_of scheduled_link = ''scheduled''"
    by code_simp+
  have r0: "resolve_targets_and_due_scheduled world2 ''mariadb'' False = ([], [])" by code_simp
  have r1: "resolve_targets_and_due_scheduled ?t ''mariadb'' True = ([''mysql''], [4])" by code_simp
  have f: "fetch_edge_logs env0 ?t ''mariadb'' 0 100 = []" by code_simp
  have w0: "sync_configs (snd (snd (worker_round env0 world2 100 0))) = [scheduled_link]" by code_simp
  have w1: "sync_configs (snd (snd (worker_round env0 ?t 100 0)))
       = [scheduled_link\<lparr>last_run_at := Some 1000000000\<rparr>]" by code_simp
  have o: "origin_round env0 ?t 100 True ''mariadb'' KeyN
      = (Inr False, snd (origin_round env0 ?t 100 True ''mariadb'' KeyN))"
  proof -
    have "fst (origin_round env0 ?t 100 True ''mariadb'' KeyN) = Inr False" by code_simp
    then show ?thesis by (simp add: prod_eq_iff)
  qed
  have c: "sync_configs ?t = [scheduled_link]" "utc_now ?t = 1000000000" "cfg_id scheduled_link = 4"
    by code_simp+
  from C7_scheduled_links [OF h, of True env0 100 KeyN False
      "snd (origin_round env0 ?t 100 True ''mariadb'' KeyN)" 0] o
  have "sync_configs (snd (origin_round env0 ?t 100 True ''mariadb'' KeyN))
       = [scheduled_link\<lparr>last_run_at := Some 1000000000\<rparr>]"
    by (simp add: r1 c)
  with h h2 r0 r1 f w0 w1 show ?thesis by blast
qed

section \<open>Theorems: the self-healing bump\<close>

lemma bump_clock_get:
  "vc_get (bump_clock v k) k' = (if k' = k then vc_get v k + 1 else vc_get v k')"
  by (cases k; cases k') (simp_all add: bump_clock_def)

text \<open>
  C5 (amended). For an INSERT or UPDATE event on a tracked table whose after snapshot
  is a dict with a clock that parses, if either the before snapshot is a dict with the
  same clock and the two snapshots differ in a field outside \<open>updated_at\<close>,
  \<open>created_at\<close>, \<open>sync_version\<close>, or the before snapshot is not a dict, the event is an
  INSERT and the origin's component of the clock is not positive, and if the write of
  the new clock to the origin's row does not raise: the worker adds exactly one to the
  origin's component of the event's clock and leaves the other component, writes that
  clock to the origin's row and to the event's payload, and compares the targets'
  clocks with the bumped clock.
\<close>

theorem C5_smart_fix_bump:
  assumes tracked: "table_name row \<in> set TRACKED_TABLES"
    and iu: "is_insert_or_update (operation row)"
    and new: "new_data row = PDict new"
    and pv: "parse_vclock E (py_get new ''v_clock'') = Inr v"
    and ok: "update_violation E (rows w origin_db) origin_db (table_name row) (data_id row) = None"
    and trig: "(\<exists>old. old_data row = PDict old
                  \<and> parse_vclock E (py_get old ''v_clock'') = Inr v
                  \<and> \<not> dict_eq (strip_non_semantic_fields old) (strip_non_semantic_fields new))
               \<or> (as_dict (old_data row) = None \<and> operation row = ''INSERT''
                   \<and> vc_get v origin_key \<le> 0)"
  shows "smart_fix E w origin_db origin_key row v =
           (Inr (row\<lparr>new_data := PDict (py_set new ''v_clock''
                                   (PStr (dumps_vclock_compact (bump_clock v origin_key))))\<rparr>,
                 bump_clock v origin_key),
            write_fixed_clock w origin_db (table_name row) (data_id row)
              (dumps_vclock_compact (bump_clock v origin_key)))
       \<and> vc_get (bump_clock v origin_key) origin_key = vc_get v origin_key + 1
       \<and> (\<forall>k. k \<noteq> origin_key \<longrightarrow> vc_get (bump_clock v origin_key) k = vc_get v k)
       \<and> rows (write_fixed_clock w origin_db (table_name row) (data_id row)
                 (dumps_vclock_compact (bump_clock v origin_key))) origin_db (table_name row)
           = (case map_of (rows w origin_db (table_name row)) (data_id row) of
                None \<Rightarrow> rows w origin_db (table_name row)
              | Some r \<Rightarrow>
                  AList.update (data_id row)
                    (py_set r ''v_clock'' (PStr (dumps_vclock_compact (bump_clock v origin_key))))
                    (rows w origin_db (table_name row)))
       \<and> process_edge_row E w origin_db origin_key row targets =
           (case sync_targets E
                   (write_fixed_clock w origin_db (table_name row) (data_id row)
                      (dumps_vclock_compact (bump_clock v origin_key)))
                   origin_db
                   (row\<lparr>new_data := PDict (py_set new ''v_clock''
                                   (PStr (dumps_vclock_compact (bump_clock v origin_key))))\<rparr>)
                   (py_set new ''v_clock'' (PStr (dumps_vclock_compact (bump_clock v origin_key))))
                   (bump_clock v origin_key) targets of
              (Inr True, w2) \<Rightarrow> (Inr True, mark_edge_log_processed w2 origin_db (log_id row))
            | other \<Rightarrow> other)"
proof -
  let ?fixed = "bump_clock v origin_key"
  let ?text = "dumps_vclock_compact ?fixed"
  let ?row' = "row\<lparr>new_data := PDict (py_set new ''v_clock'' (PStr ?text))\<rparr>"
  let ?w' = "write_fixed_clock w origin_db (table_name row) (data_id row) ?text"
  have nf: "needs_fix E origin_key row v = Inr True"
    using trig
  proof
    assume "\<exists>old. old_data row = PDict old
                  \<and> parse_vclock E (py_get old ''v_clock'') = Inr v
                  \<and> \<not> dict_eq (strip_non_semantic_fields old) (strip_non_semantic_fields new)"
    then show ?thesis using new pv by (auto simp: needs_fix_def as_dict_def)
  next
    assume "as_dict (old_data row) = None \<and> operation row = ''INSERT'' \<and> vc_get v origin_key \<le> 0"
    then show ?thesis by (simp add: needs_fix_def)
  qed
  have sf: "smart_fix E w origin_db origin_key row v = (Inr (?row', ?fixed), ?w')"
    using iu nf ok new by (simp add: smart_fix_def Let_def)
  have sp: "source_payload_of row = PDict new" using iu new by (simp add: source_payload_of_def)
  have sp': "as_dict (source_payload_of ?row') = Some (py_set new ''v_clock'' (PStr ?text))"
    using iu by (simp add: source_payload_of_def as_dict_def)
  have pr: "process_edge_row E w origin_db origin_key row targets =
           (case sync_targets E ?w' origin_db ?row' (py_set new ''v_clock'' (PStr ?text)) ?fixed targets of
              (Inr True, w2) \<Rightarrow> (Inr True, mark_edge_log_processed w2 origin_db (log_id row))
            | other \<Rightarrow> other)"
    using tracked sp pv sf sp' by (simp add: process_edge_row_def)
  have tbl: "rows ?w' origin_db (table_name row)
           = (case map_of (rows w origin_db (table_name row)) (data_id row) of
                None \<Rightarrow> rows w origin_db (table_name row)
              | Some r \<Rightarrow> AList.update (data_id row) (py_set r ''v_clock'' (PStr ?text))
                    (rows w origin_db (table_name row)))"
    by (simp add: write_fixed_clock_def)
  from sf pr tbl show ?thesis by (simp add: bump_clock_get)
qed


theorem C5_smart_fix_bump_witness:
  "table_name title_edit \<in> set TRACKED_TABLES
   \<and> is_insert_or_update (operation title_edit)
   \<and> old_data title_edit = PDict (item_row 7 ''lamp'' 1 0)
   \<and> new_data title_edit = PDict (item_row 7 ''desk'' 1 0)
   \<and> parse_vclock env0 (py_get (item_row 7 ''lamp'' 1 0) ''v_clock'') = Inr \<lparr>vc_N = 1, vc_S = 0\<rparr>
   \<and> parse_vclock env0 (py_get (item_row 7 ''desk'' 1 0) ''v_clock'') = Inr \<lparr>vc_N = 1, vc_S = 0\<rparr>
   \<and> \<not> dict_eq (strip_non_semantic_fields (item_row 7 ''lamp'' 1 0))
               (strip_non_semantic_fields (item_row 7 ''desk'' 1 0))
   \<and> bump_clock \<lparr>vc_N = 1, vc_S = 0\<rparr> KeyN = \<lparr>vc_N = 2, vc_S = 0\<rparr>
   \<and> fst (smart_fix env0 (world_with_item ''mariadb'' (item_row 7 ''desk'' 1 0)) ''mariadb'' KeyN
             title_edit \<lparr>vc_N = 1, vc_S = 0\<rparr>)
       = Inr (title_edit\<lparr>new_data :=
                 PDict [(''id'', PInt 7), (''title'', PStr ''desk''),
                        (''v_clock'', PStr (dumps_vclock_compact \<lparr>vc_N = 2, vc_S = 0\<rparr>))]\<rparr>,
              \<lparr>vc_N = 2, vc_S = 0\<rparr>)
   \<and> rows (snd (smart_fix env0 (world_with_item ''mariadb'' (item_row 7 ''desk'' 1 0)) ''mariadb'' KeyN
                   title_edit \<lparr>vc_N = 1, vc_S = 0\<rparr>)) ''mariadb'' ''items''
       = [(7, [(''id'', PInt 7), (''title'', PStr ''desk''),
               (''v_clock'', PStr (dumps_vclock_compact \<lparr>vc_N = 2, vc_S = 0\<rparr>))])]"
proof -
  let ?w = "world_with_item ''mariadb'' (item_row 7 ''desk'' 1 0)"
  let ?v = "\<lparr>vc_N = 1, vc_S = 0\<rparr>"
  have h1: "table_name title_edit \<in> set TRACKED_TABLES" by code_simp
  have h2: "is_insert_or_update (operation title_edit)" by code_simp
  have h3: "new_data title_edit = PDict (item_row 7 ''desk'' 1 0)"
    and h3': "old_data title_edit = PDict (item_row 7 ''lamp'' 1 0)"
    by (simp_all add: title_edit_def)
  have h4: "parse_vclock env0 (py_get (item_row 7 ''desk'' 1 0) ''v_clock'') = Inr ?v" by code_simp
  have h4': "parse_vclock env0 (py_get (item_row 7 ''lamp'' 1 0) ''v_clock'') = Inr ?v" by code_simp
  have h5: "update_violation env0 (rows ?w ''mariadb'') ''mariadb'' (table_name title_edit)
      (data_id title_edit) = None" by (simp add: env0_def)
  have h6: "\<not> dict_eq (strip_non_semantic_fields (item_row 7 ''lamp'' 1 0))
               (strip_non_semantic_fields (item_row 7 ''desk'' 1 0))" by code_simp
  have trig: "(\<exists>old. old_data title_edit = PDict old
                  \<and> parse_vclock env0 (py_get old ''v_clock'') = Inr ?v
                  \<and> \<not> dict_eq (strip_non_semantic_fields old)
                        (strip_non_semantic_fields (item_row 7 ''desk'' 1 0)))
               \<or> (as_dict (old_data title_edit) = None \<and> operation title_edit = ''INSERT''
                   \<and> vc_get ?v KeyN \<le> 0)"
    using h3' h4' h6 by blast
  have b: "bump_clock ?v KeyN = \<lparr>vc_N = 2, vc_S = 0\<rparr>" by (simp add: bump_clock_def)
  have s: "py_set (item_row 7 ''desk'' 1 0) ''v_clock'' x
      = [(''id'', PInt 7), (''title'', PStr ''desk''), (''v_clock'', x)]" for x
    by (simp add: py_set_def item_row_def)
  have r: "rows ?w ''mariadb'' ''items'' = [(7, item_row 7 ''desk'' 1 0)]"
    "table_name title_edit = ''items''" "data_id title_edit = 7"
    by (simp_all add: world_with_item_def world0_def title_edit_def)
  from C5_smart_fix_bump [OF h1 h2 h3 h4 h5 trig, of "[]"]
  have "smart_fix env0 ?w ''mariadb'' KeyN title_edit ?v =
           (Inr (title_edit\<lparr>new_data := PDict (py_set (item_row 7 ''desk'' 1 0) ''v_clock''
                                   (PStr (dumps_vclock_compact (bump_clock ?v KeyN))))\<rparr>,
                 bump_clock ?v KeyN),
            write_fixed_clock ?w ''mariadb'' (table_name title_edit) (data_id title_edit)
              (dumps_vclock_compact (bump_clock ?v KeyN)))"
    and "rows (write_fixed_clock ?w ''mariadb'' (table_name title_edit) (data_id title_edit)
                 (dumps_vclock_compact (bump_clock ?v KeyN))) ''mariadb'' (table_name title_edit)
           = (case map_of (rows ?w ''mariadb'' (table_name title_edit)) (data_id title_edit) of
                None \<Rightarrow> rows ?w ''mariadb'' (table_name title_edit)
              | Some r \<Rightarrow>
                  AList.update (data_id title_edit)
                    (py_set r ''v_clock'' (PStr (dumps_vclock_compact (bump_clock ?v KeyN))))
                    (rows ?w ''mariadb'' (table_name title_edit)))"
    by blast+
  then have "fst (smart_fix env0 ?w ''mariadb'' KeyN title_edit ?v)
       = Inr (title_edit\<lparr>new_data :=
                 PDict [(''id'', PInt 7), (''title'', PStr ''desk''),
                        (''v_clock'', PStr (dumps_vclock_compact \<lparr>vc_N = 2, vc_S = 0\<rparr>))]\<rparr>,
              \<lparr>vc_N = 2, vc_S = 0\<rparr>)"
    and "rows (snd (smart_fix env0 ?w ''mariadb'' KeyN title_edit ?v)) ''mariadb'' ''items''
       = [(7, [(''id'', PInt 7), (''title'', PStr ''desk''),
               (''v_clock'', PStr (dumps_vclock_compact \<lparr>vc_N = 2, vc_S = 0\<rparr>))])]"
    by (simp_all add: b s r)
  with h1 h2 h3 h3' h4 h4' h6 b show ?thesis by blast
qed

text \<open>
  The claim as stated, for every INSERT with a component that is not positive, fails
  on an INSERT that carries a before snapshot equal to its after snapshot: \<open>needs_fix\<close>
  takes the first branch, finds no difference, and the clock is not bumped.
\<close>

theorem C5_insert_with_before_snapshot_counterexample:
  "table_name insert_with_before \<in> set TRACKED_TABLES
   \<and> operation insert_with_before = ''INSERT''
   \<and> parse_vclock env0 (py_get (item_row 7 ''lamp'' 0 0) ''v_clock'') = Inr \<lparr>vc_N = 0, vc_S = 0\<rparr>
   \<and> vc_get \<lparr>vc_N = 0, vc_S = 0\<rparr> KeyN \<le> 0
   \<and> update_violation env0 (rows world0 ''mariadb'') ''mariadb'' ''items'' 7 = None
   \<and> smart_fix env0 world0 ''mariadb'' KeyN insert_with_before \<lparr>vc_N = 0, vc_S = 0\<rparr>
       = (Inr (insert_with_before, \<lparr>vc_N = 0, vc_S = 0\<rparr>), world0)"
proof -
  have 1: "table_name insert_with_before \<in> set TRACKED_TABLES" by code_simp
  have 2: "operation insert_with_before = ''INSERT''" by (simp add: insert_with_before_def)
  have 3: "parse_vclock env0 (py_get (item_row 7 ''lamp'' 0 0) ''v_clock'') = Inr \<lparr>vc_N = 0, vc_S = 0\<rparr>"
    by code_simp
  have 4: "update_violation env0 (rows world0 ''mariadb'') ''mariadb'' ''items'' 7 = None"
    by (simp add: env0_def)
  have nf: "needs_fix env0 KeyN insert_with_before \<lparr>vc_N = 0, vc_S = 0\<rparr> = Inr False" by code_simp
  have iu: "is_insert_or_update (operation insert_with_before)" by code_simp
  have 5: "smart_fix env0 world0 ''mariadb'' KeyN insert_with_before \<lparr>vc_N = 0, vc_S = 0\<rparr>
       = (Inr (insert_with_before, \<lparr>vc_N = 0, vc_S = 0\<rparr>), world0)"
    using nf iu by (simp add: smart_fix_def)
  from 1 2 3 4 5 show ?thesis by simp
qed

section \<open>Theorems: replication by vector clock\<close>

lemma dominates_excl:
  "vclock_dominates b a \<Longrightarrow> \<not> vclock_dominates a b \<and> a \<noteq> b"
  by (auto simp: vclock_dominates_def)

lemma concurrent_iff:
  "vclock_concurrent a b \<longleftrightarrow> \<not> (vclock_dominates a b \<or> a = b) \<and> \<not> vclock_dominates b a"
  by (auto simp: vclock_concurrent_def)

lemma select_current_row_eq:
  "select_current_row w db t i = (map_of (rows w db t) i, log_op (OpSelect db t i) w)"
  by (simp add: select_current_row_def)

lemma sync_to_target_cases:
  assumes cur: "map_of (rows w target_db (table_name row)) (data_id row) = current"
    and cv: "parse_vclock E (py_get (case current of None \<Rightarrow> [] | Some c \<Rightarrow> c) ''v_clock'') = Inr current_v"
  shows
   "(operation row \<noteq> ''DELETE''
       \<and> (current = None \<or> vclock_dominates v_clock current_v \<or> v_clock = current_v) \<longrightarrow>
       sync_to_target E w origin_db row source_payload v_clock target_db
         = upsert_and_count E (log_op (OpSelect target_db (table_name row) (data_id row)) w)
             target_db (table_name row) source_payload)
    \<and> (operation row \<noteq> ''DELETE'' \<and> current \<noteq> None \<and> vclock_dominates current_v v_clock \<longrightarrow>
       sync_to_target E w origin_db row source_payload v_clock target_db
         = (Inr (), log_op (OpSelect target_db (table_name row) (data_id row)) w))
    \<and> (operation row \<noteq> ''DELETE'' \<and> current \<noteq> None \<and> vclock_concurrent v_clock current_v \<longrightarrow>
       sync_to_target E w origin_db row source_payload v_clock target_db
         = (Inr (),
            bump_daily_stat
              (snd (record_conflict (log_op (OpSelect target_db (table_name row) (data_id row)) w)
                      (table_name row) (data_id row) origin_db target_db
                      (update_conflict_payload origin_db target_db row v_clock current_v current)))
              ''sync_conflict_count''))
    \<and> (operation row = ''DELETE''
       \<and> (current = None \<or> vclock_dominates v_clock current_v \<or> v_clock = current_v) \<longrightarrow>
       sync_to_target E w origin_db row source_payload v_clock target_db
         = (case delete_row E (log_op (OpSelect target_db (table_name row) (data_id row)) w)
                  target_db (table_name row) (data_id row) of
              (Inl e, w2) \<Rightarrow> (Inl e, w2)
            | (Inr u, w2) \<Rightarrow> (Inr (), bump_daily_stat w2 ''sync_success_count'')))
    \<and> (operation row = ''DELETE''
       \<and> \<not> (current = None \<or> vclock_dominates v_clock current_v \<or> v_clock = current_v)
       \<and> vclock_concurrent v_clock current_v \<longrightarrow>
       sync_to_target E w origin_db row source_payload v_clock target_db
         = (Inr (),
            bump_daily_stat
              (snd (record_conflict (log_op (OpSelect target_db (table_name row) (data_id row)) w)
                      (table_name row) (data_id row) origin_db target_db
                      (delete_conflict_payload origin_db target_db row v_clock current_v current)))
              ''sync_conflict_count''))
    \<and> (operation row = ''DELETE''
       \<and> \<not> (current = None \<or> vclock_dominates v_clock current_v \<or> v_clock = current_v)
       \<and> \<not> vclock_concurrent v_clock current_v \<longrightarrow>
       sync_to_target E w origin_db row source_payload v_clock target_db
         = (Inr (), log_op (OpSelect target_db (table_name row) (data_id row)) w))"
proof -
  let ?w1 = "log_op (OpSelect target_db (table_name row) (data_id row)) w"
  have sel: "select_current_row w target_db (table_name row) (data_id row) = (current, ?w1)"
    using cur by (simp add: select_current_row_eq)
  note defs = sync_to_target_def sel cv prod.case sum.case
  have 1: "operation row \<noteq> ''DELETE''
       \<and> (current = None \<or> vclock_dominates v_clock current_v \<or> v_clock = current_v) \<longrightarrow>
       sync_to_target E w origin_db row source_payload v_clock target_db
         = upsert_and_count E ?w1 target_db (table_name row) source_payload"
    unfolding defs by auto
  have 2: "operation row \<noteq> ''DELETE'' \<and> current \<noteq> None \<and> vclock_dominates current_v v_clock \<longrightarrow>
       sync_to_target E w origin_db row source_payload v_clock target_db = (Inr (), ?w1)"
    unfolding defs by (auto dest: dominates_excl)
  have 3: "operation row \<noteq> ''DELETE'' \<and> current \<noteq> None \<and> vclock_concurrent v_clock current_v \<longrightarrow>
       sync_to_target E w origin_db row source_payload v_clock target_db
         = (Inr (),
            bump_daily_stat
              (snd (record_conflict ?w1 (table_name row) (data_id row) origin_db target_db
                      (update_conflict_payload origin_db target_db row v_clock current_v current)))
              ''sync_conflict_count'')"
    unfolding defs by (auto simp: concurrent_iff split: prod.splits)
  have 4: "operation row = ''DELETE''
       \<and> (current = None \<or> vclock_dominates v_clock current_v \<or> v_clock = current_v) \<longrightarrow>
       sync_to_target E w origin_db row source_payload v_clock target_db
         = (case delete_row E ?w1 target_db (table_name row) (data_id row) of
              (Inl e, w2) \<Rightarrow> (Inl e, w2)
            | (Inr u, w2) \<Rightarrow> (Inr (), bump_daily_stat w2 ''sync_success_count''))"
    unfolding defs by auto
  have 5: "operation row = ''DELETE''
       \<and> \<not> (current = None \<or> vclock_dominates v_clock current_v \<or> v_clock = current_v)
       \<and> vclock_concurrent v_clock current_v \<longrightarrow>
       sync_to_target E w origin_db row source_payload v_clock target_db
         = (Inr (),
            bump_daily_stat
              (snd (record_conflict ?w1 (table_name row) (data_id row) origin_db target_db
                      (delete_conflict_payload origin_db target_db row v_clock current_v current)))
              ''sync_conflict_count'')"
    unfolding defs by (auto split: prod.splits)
  have 6: "operation row = ''DELETE''
       \<and> \<not> (current = None \<or> vclock_dominates v_clock current_v \<or> v_clock = current_v)
       \<and> \<not> vclock_concurrent v_clock current_v \<longrightarrow>
       sync_to_target E w origin_db row source_payload v_clock target_db = (Inr (), ?w1)"
    unfolding defs by auto
  from 1 2 3 4 5 6 show ?thesis by blast
qed


lemma conflict_step:
  assumes "w2 = bump_daily_stat
              (snd (record_conflict w1 tbl rid origin_db target_db payload)) ''sync_conflict_count''"
    and "payload = PDict ((''reason'', PStr tag) # rest)"
  shows "rows w2 = rows w1 \<and> ops w2 = ops w1
     \<and> (\<exists>r. conflict_records w2 = conflict_records w1 @ [r]
            \<and> cr_table_name r = tbl \<and> cr_record_id r = rid \<and> cr_source r = origin_db
            \<and> cr_target r = target_db \<and> cr_status r = ''pending'' \<and> \<not> cr_resolved r
            \<and> conflict_reason r = PStr tag)"
  using assms
  by (simp add: record_conflict_def bump_daily_stat_def Let_def conflict_reason_def py_get_def)

lemma delete_row_gone:
  "delete_row E w db t i = (Inr u, w2) \<Longrightarrow>
   map_of (rows w2 db t) i = None \<and> conflict_records w2 = conflict_records w"
  by (auto simp: delete_row_def log_op_def set_table_def delete_conv' split: option.splits)

lemma upsert_and_count_stored:
  assumes "upsert_and_count E w target_db tbl payload = (Inr u, w2)"
  shows "\<exists>k r. map_of (normalize_payload_for_target target_db payload) ''id'' = Some (PInt k)
           \<and> map_of (rows w2 target_db tbl) k = Some r
           \<and> (\<forall>c\<in>set (map fst payload). c \<noteq> ''id'' \<longrightarrow>
                 map_of r c = Some (py_get (normalize_payload_for_target target_db payload) c))"
proof -
  from assms obtain w1 where u: "upsert_row E w target_db tbl payload = (Inr (), w1)"
    and w2: "w2 = bump_daily_stat w1 ''sync_success_count''"
    by (auto simp: upsert_and_count_def split: prod.splits sum.splits)
  have r: "rows w2 = rows w1" by (simp add: w2 bump_daily_stat_def)
  from upsert_row_stored [OF u] show ?thesis
    unfolding r .
qed


lemma payload_reason:
  "\<exists>rest. update_conflict_payload o_db t_db row v cv cur = PDict ((''reason'', PStr ''vector_clock_conflict'') # rest)"
  "\<exists>rest. delete_conflict_payload o_db t_db row v cv cur = PDict ((''reason'', PStr ''vector_clock_conflict_delete'') # rest)"
  by (simp_all add: update_conflict_payload_def delete_conflict_payload_def)

text \<open>
  C1 (amended). Replicating one event to one target whose current row for the event's
  id is \<open>current\<close> (None when the row is missing) with parsed clock \<open>current_v\<close>:
  for an INSERT or UPDATE, when the row is missing or the source clock dominates or
  equals the target clock, the source payload is upserted, and on success the target
  holds that row with the payload's columns; when the target clock dominates, nothing
  is written; when the clocks are concurrent, the target is left unchanged and one
  pending conflict record with reason \<open>vector_clock_conflict\<close> is appended. For a
  DELETE, when the row is missing or the source clock dominates or equals, the target
  row is deleted; when the clocks are concurrent, the target is left unchanged and one
  pending conflict record with reason \<open>vector_clock_conflict_delete\<close> is appended;
  otherwise nothing is written.
\<close>

theorem C1_replicate_by_clock:
  assumes cur: "map_of (rows w target_db (table_name row)) (data_id row) = current"
    and cv: "parse_vclock E (py_get (case current of None \<Rightarrow> [] | Some c \<Rightarrow> c) ''v_clock'') = Inr current_v"
  shows
   "(operation row \<noteq> ''DELETE''
       \<and> (current = None \<or> vclock_dominates v_clock current_v \<or> v_clock = current_v) \<longrightarrow>
       sync_to_target E w origin_db row source_payload v_clock target_db
         = upsert_and_count E (log_op (OpSelect target_db (table_name row) (data_id row)) w)
             target_db (table_name row) source_payload
       \<and> (\<forall>w2. sync_to_target E w origin_db row source_payload v_clock target_db = (Inr (), w2) \<longrightarrow>
            (\<exists>k r. map_of (normalize_payload_for_target target_db source_payload) ''id'' = Some (PInt k)
               \<and> map_of (rows w2 target_db (table_name row)) k = Some r
               \<and> (\<forall>c\<in>set (map fst source_payload). c \<noteq> ''id'' \<longrightarrow>
                     map_of r c = Some (py_get (normalize_payload_for_target target_db source_payload) c)))))
    \<and> (operation row \<noteq> ''DELETE'' \<and> current \<noteq> None \<and> vclock_dominates current_v v_clock \<longrightarrow>
       sync_to_target E w origin_db row source_payload v_clock target_db
         = (Inr (), w\<lparr>ops := ops w @ [OpSelect target_db (table_name row) (data_id row)]\<rparr>))
    \<and> (operation row \<noteq> ''DELETE'' \<and> current \<noteq> None \<and> vclock_concurrent v_clock current_v \<longrightarrow>
       (\<exists>w2 r. sync_to_target E w origin_db row source_payload v_clock target_db = (Inr (), w2)
          \<and> rows w2 = rows w
          \<and> ops w2 = ops w @ [OpSelect target_db (table_name row) (data_id row)]
          \<and> conflict_records w2 = conflict_records w @ [r]
          \<and> cr_table_name r = table_name row \<and> cr_record_id r = data_id row
          \<and> cr_source r = origin_db \<and> cr_target r = target_db
          \<and> cr_status r = ''pending'' \<and> \<not> cr_resolved r
          \<and> conflict_reason r = PStr ''vector_clock_conflict''))
    \<and> (operation row = ''DELETE''
       \<and> (current = None \<or> vclock_dominates v_clock current_v \<or> v_clock = current_v) \<longrightarrow>
       sync_to_target E w origin_db row source_payload v_clock target_db
         = (case delete_row E (log_op (OpSelect target_db (table_name row) (data_id row)) w)
                  target_db (table_name row) (data_id row) of
              (Inl e, w2) \<Rightarrow> (Inl e, w2)
            | (Inr u, w2) \<Rightarrow> (Inr (), bump_daily_stat w2 ''sync_success_count''))
       \<and> (\<forall>w2. sync_to_target E w origin_db row source_payload v_clock target_db = (Inr (), w2) \<longrightarrow>
            map_of (rows w2 target_db (table_name row)) (data_id row) = None
            \<and> ops w2 = ops w @ [OpSelect target_db (table_name row) (data_id row),
                                OpDelete target_db (table_name row) (data_id row)]))
    \<and> (operation row = ''DELETE''
       \<and> \<not> (current = None \<or> vclock_dominates v_clock current_v \<or> v_clock = current_v)
       \<and> \<not> vclock_concurrent v_clock current_v \<longrightarrow>
       sync_to_target E w origin_db row source_payload v_clock target_db
         = (Inr (), w\<lparr>ops := ops w @ [OpSelect target_db (table_name row) (data_id row)]\<rparr>))
    \<and> (operation row = ''DELETE'' \<and> current \<noteq> None \<and> vclock_concurrent v_clock current_v \<longrightarrow>
       (\<exists>w2 r. sync_to_target E w origin_db row source_payload v_clock target_db = (Inr (), w2)
          \<and> rows w2 = rows w
          \<and> ops w2 = ops w @ [OpSelect target_db (table_name row) (data_id row)]
          \<and> conflict_records w2 = conflict_records w @ [r]
          \<and> cr_table_name r = table_name row \<and> cr_record_id r = data_id row
          \<and> cr_source r = origin_db \<and> cr_target r = target_db
          \<and> cr_status r = ''pending'' \<and> \<not> cr_resolved r
          \<and> conflict_reason r = PStr ''vector_clock_conflict_delete''))"
proof -
  let ?w1 = "log_op (OpSelect target_db (table_name row) (data_id row)) w"
  let ?run = "sync_to_target E w origin_db row source_payload v_clock target_db"
  let ?apply = "current = None \<or> vclock_dominates v_clock current_v \<or> v_clock = current_v"
  note c = sync_to_target_cases [OF cur cv, where v_clock = v_clock and origin_db = origin_db
      and source_payload = source_payload]
  have w1: "rows ?w1 = rows w" "ops ?w1 = ops w @ [OpSelect target_db (table_name row) (data_id row)]"
    "conflict_records ?w1 = conflict_records w"
    "?w1 = w\<lparr>ops := ops w @ [OpSelect target_db (table_name row) (data_id row)]\<rparr>"
    by (simp_all add: log_op_def)
  have conc: "vclock_concurrent v_clock current_v \<Longrightarrow> \<not> (vclock_dominates v_clock current_v \<or> v_clock = current_v)"
    by (simp add: concurrent_iff)
  have 1: "operation row \<noteq> ''DELETE'' \<and> ?apply \<longrightarrow>
       ?run = upsert_and_count E ?w1 target_db (table_name row) source_payload
       \<and> (\<forall>w2. ?run = (Inr (), w2) \<longrightarrow>
            (\<exists>k r. map_of (normalize_payload_for_target target_db source_payload) ''id'' = Some (PInt k)
               \<and> map_of (rows w2 target_db (table_name row)) k = Some r
               \<and> (\<forall>c\<in>set (map fst source_payload). c \<noteq> ''id'' \<longrightarrow>
                     map_of r c = Some (py_get (normalize_payload_for_target target_db source_payload) c))))"
  proof (intro impI conjI allI)
    assume a: "operation row \<noteq> ''DELETE'' \<and> ?apply"
    with c show e: "?run = upsert_and_count E ?w1 target_db (table_name row) source_payload" by blast
    fix w2 assume "?run = (Inr (), w2)"
    with e have "upsert_and_count E ?w1 target_db (table_name row) source_payload = (Inr (), w2)" by simp
    then show "\<exists>k r. map_of (normalize_payload_for_target target_db source_payload) ''id'' = Some (PInt k)
               \<and> map_of (rows w2 target_db (table_name row)) k = Some r
               \<and> (\<forall>c\<in>set (map fst source_payload). c \<noteq> ''id'' \<longrightarrow>
                     map_of r c = Some (py_get (normalize_payload_for_target target_db source_payload) c))"
      by (rule upsert_and_count_stored)
  qed
  have 2: "operation row \<noteq> ''DELETE'' \<and> current \<noteq> None \<and> vclock_dominates current_v v_clock \<longrightarrow>
       ?run = (Inr (), w\<lparr>ops := ops w @ [OpSelect target_db (table_name row) (data_id row)]\<rparr>)"
    using c w1(4) by simp
  have 3: "operation row \<noteq> ''DELETE'' \<and> current \<noteq> None \<and> vclock_concurrent v_clock current_v \<longrightarrow>
       (\<exists>w2 r. ?run = (Inr (), w2)
          \<and> rows w2 = rows w
          \<and> ops w2 = ops w @ [OpSelect target_db (table_name row) (data_id row)]
          \<and> conflict_records w2 = conflict_records w @ [r]
          \<and> cr_table_name r = table_name row \<and> cr_record_id r = data_id row
          \<and> cr_source r = origin_db \<and> cr_target r = target_db
          \<and> cr_status r = ''pending'' \<and> \<not> cr_resolved r
          \<and> conflict_reason r = PStr ''vector_clock_conflict'')"
  proof
    assume a: "operation row \<noteq> ''DELETE'' \<and> current \<noteq> None \<and> vclock_concurrent v_clock current_v"
    define w2 where "w2 = bump_daily_stat
              (snd (record_conflict ?w1 (table_name row) (data_id row) origin_db target_db
                      (update_conflict_payload origin_db target_db row v_clock current_v current)))
              ''sync_conflict_count''"
    from a c have r: "?run = (Inr (), w2)" unfolding w2_def by blast
    obtain rest where p: "update_conflict_payload origin_db target_db row v_clock current_v current
        = PDict ((''reason'', PStr ''vector_clock_conflict'') # rest)"
      using payload_reason(1) by blast
    from conflict_step [OF w2_def p] r w1 show "\<exists>w2 r. ?run = (Inr (), w2)
          \<and> rows w2 = rows w
          \<and> ops w2 = ops w @ [OpSelect target_db (table_name row) (data_id row)]
          \<and> conflict_records w2 = conflict_records w @ [r]
          \<and> cr_table_name r = table_name row \<and> cr_record_id r = data_id row
          \<and> cr_source r = origin_db \<and> cr_target r = target_db
          \<and> cr_status r = ''pending'' \<and> \<not> cr_resolved r
          \<and> conflict_reason r = PStr ''vector_clock_conflict''"
      by auto
  qed
  have 5: "operation row = ''DELETE'' \<and> current \<noteq> None \<and> vclock_concurrent v_clock current_v \<longrightarrow>
       (\<exists>w2 r. ?run = (Inr (), w2)
          \<and> rows w2 = rows w
          \<and> ops w2 = ops w @ [OpSelect target_db (table_name row) (data_id row)]
          \<and> conflict_records w2 = conflict_records w @ [r]
          \<and> cr_table_name r = table_name row \<and> cr_record_id r = data_id row
          \<and> cr_source r = origin_db \<and> cr_target r = target_db
          \<and> cr_status r = ''pending'' \<and> \<not> cr_resolved r
          \<and> conflict_reason r = PStr ''vector_clock_conflict_delete'')"
  proof
    assume a: "operation row = ''DELETE'' \<and> current \<noteq> None \<and> vclock_concurrent v_clock current_v"
    define w2 where "w2 = bump_daily_stat
              (snd (record_conflict ?w1 (table_name row) (data_id row) origin_db target_db
                      (delete_conflict_payload origin_db target_db row v_clock current_v current)))
              ''sync_conflict_count''"
    from a conc have "\<not> ?apply" by blast
    with a c have r: "?run = (Inr (), w2)" unfolding w2_def by blast
    obtain rest where p: "delete_conflict_payload origin_db target_db row v_clock current_v current
        = PDict ((''reason'', PStr ''vector_clock_conflict_delete'') # rest)"
      using payload_reason(2) by blast
    from conflict_step [OF w2_def p] r w1 show "\<exists>w2 r. ?run = (Inr (), w2)
          \<and> rows w2 = rows w
          \<and> ops w2 = ops w @ [OpSelect target_db (table_name row) (data_id row)]
          \<and> conflict_records w2 = conflict_records w @ [r]
          \<and> cr_table_name r = table_name row \<and> cr_record_id r = data_id row
          \<and> cr_source r = origin_db \<and> cr_target r = target_db
          \<and> cr_status r = ''pending'' \<and> \<not> cr_resolved r
          \<and> conflict_reason r = PStr ''vector_clock_conflict_delete''"
      by auto
  qed
  have 4: "operation row = ''DELETE'' \<and> ?apply \<longrightarrow>
       ?run = (case delete_row E ?w1 target_db (table_name row) (data_id row) of
              (Inl e, w2) \<Rightarrow> (Inl e, w2)
            | (Inr u, w2) \<Rightarrow> (Inr (), bump_daily_stat w2 ''sync_success_count''))
       \<and> (\<forall>w2. ?run = (Inr (), w2) \<longrightarrow>
            map_of (rows w2 target_db (table_name row)) (data_id row) = None
            \<and> ops w2 = ops w @ [OpSelect target_db (table_name row) (data_id row),
                                OpDelete target_db (table_name row) (data_id row)])"
  proof (intro impI conjI allI)
    assume a: "operation row = ''DELETE'' \<and> ?apply"
    with c show e: "?run = (case delete_row E ?w1 target_db (table_name row) (data_id row) of
              (Inl e, w2) \<Rightarrow> (Inl e, w2)
            | (Inr u, w2) \<Rightarrow> (Inr (), bump_daily_stat w2 ''sync_success_count''))" by blast
    fix w2 assume r: "?run = (Inr (), w2)"
    obtain r0 w0 where dr: "delete_row E ?w1 target_db (table_name row) (data_id row) = (r0, w0)"
      by (cases "delete_row E ?w1 target_db (table_name row) (data_id row)")
    with e r obtain u where r0: "r0 = Inr u" and w2: "w2 = bump_daily_stat w0 ''sync_success_count''"
      by (cases r0) auto
    from dr r0 have "ops w0 = ops ?w1 @ [OpDelete target_db (table_name row) (data_id row)]"
      by (auto simp: delete_row_def log_op_def set_table_def split: option.splits)
    then show "ops w2 = ops w @ [OpSelect target_db (table_name row) (data_id row),
                                OpDelete target_db (table_name row) (data_id row)]"
      by (simp add: w2 bump_daily_stat_def w1)
    from delete_row_gone [of E ?w1 target_db "table_name row" "data_id row" u w0] dr r0
    show "map_of (rows w2 target_db (table_name row)) (data_id row) = None"
      by (simp add: w2 bump_daily_stat_def)
  qed
  have 6: "operation row = ''DELETE'' \<and> \<not> ?apply \<and> \<not> vclock_concurrent v_clock current_v \<longrightarrow>
       ?run = (Inr (), w\<lparr>ops := ops w @ [OpSelect target_db (table_name row) (data_id row)]\<rparr>)"
    using c w1(4) by simp
  from 1 2 3 4 5 6 show ?thesis by blast
qed


theorem C1_replicate_by_clock_witness:
  "map_of (rows (world_with_item ''postgres'' (item_row 7 ''sofa'' 1 1)) ''postgres''
             (table_name update_n2)) (data_id update_n2) = Some (item_row 7 ''sofa'' 1 1)
   \<and> parse_vclock env0 (py_get (item_row 7 ''sofa'' 1 1) ''v_clock'') = Inr \<lparr>vc_N = 1, vc_S = 1\<rparr>
   \<and> operation update_n2 \<noteq> ''DELETE''
   \<and> vclock_concurrent \<lparr>vc_N = 2, vc_S = 0\<rparr> \<lparr>vc_N = 1, vc_S = 1\<rparr>
   \<and> fst (sync_to_target env0 (world_with_item ''postgres'' (item_row 7 ''sofa'' 1 1)) ''mariadb''
             update_n2 (item_row 7 ''desk'' 2 0) \<lparr>vc_N = 2, vc_S = 0\<rparr> ''postgres'') = Inr ()
   \<and> rows (snd (sync_to_target env0 (world_with_item ''postgres'' (item_row 7 ''sofa'' 1 1)) ''mariadb''
             update_n2 (item_row 7 ''desk'' 2 0) \<lparr>vc_N = 2, vc_S = 0\<rparr> ''postgres''))
       = rows (world_with_item ''postgres'' (item_row 7 ''sofa'' 1 1))
   \<and> map conflict_reason
        (conflict_records
           (snd (sync_to_target env0 (world_with_item ''postgres'' (item_row 7 ''sofa'' 1 1)) ''mariadb''
                   update_n2 (item_row 7 ''desk'' 2 0) \<lparr>vc_N = 2, vc_S = 0\<rparr> ''postgres'')))
       = [PStr ''vector_clock_conflict'']
   \<and> map_of (rows (world_with_item ''postgres'' (item_row 7 ''lamp'' 1 0)) ''postgres''
             (table_name update_n2)) (data_id update_n2) = Some (item_row 7 ''lamp'' 1 0)
   \<and> vclock_dominates \<lparr>vc_N = 2, vc_S = 0\<rparr> \<lparr>vc_N = 1, vc_S = 0\<rparr>
   \<and> rows (snd (sync_to_target env0 (world_with_item ''postgres'' (item_row 7 ''lamp'' 1 0)) ''mariadb''
             update_n2 (item_row 7 ''desk'' 2 0) \<lparr>vc_N = 2, vc_S = 0\<rparr> ''postgres''))
         ''postgres'' ''items''
       = [(7, item_row 7 ''desk'' 2 0)]"
proof -
  let ?wc = "world_with_item ''postgres'' (item_row 7 ''sofa'' 1 1)"
  let ?wd = "world_with_item ''postgres'' (item_row 7 ''lamp'' 1 0)"
  let ?v = "\<lparr>vc_N = 2, vc_S = 0\<rparr>"
  let ?run = "\<lambda>w. sync_to_target env0 w ''mariadb'' update_n2 (item_row 7 ''desk'' 2 0) ?v ''postgres''"
  have cur: "map_of (rows ?wc ''postgres'' (table_name update_n2)) (data_id update_n2)
      = Some (item_row 7 ''sofa'' 1 1)" by code_simp
  have cv: "parse_vclock env0 (py_get (case Some (item_row 7 ''sofa'' 1 1) of None \<Rightarrow> [] | Some c \<Rightarrow> c)
      ''v_clock'') = Inr \<lparr>vc_N = 1, vc_S = 1\<rparr>" by code_simp
  have op: "operation update_n2 \<noteq> ''DELETE''" by code_simp
  have conc: "vclock_concurrent ?v \<lparr>vc_N = 1, vc_S = 1\<rparr>" by code_simp
  have c0: "conflict_records ?wc = []" by (simp add: world_with_item_def world0_def)
  from C1_replicate_by_clock [where E = env0 and w = ?wc and target_db = "''postgres''"
      and row = update_n2 and current = "Some (item_row 7 ''sofa'' 1 1)"
      and current_v = "\<lparr>vc_N = 1, vc_S = 1\<rparr>" and v_clock = ?v
      and origin_db = "''mariadb''" and source_payload = "item_row 7 ''desk'' 2 0", OF cur cv] op conc
  obtain w2 r where r: "?run ?wc = (Inr (), w2)" "rows w2 = rows ?wc"
    "conflict_records w2 = conflict_records ?wc @ [r]" "conflict_reason r = PStr ''vector_clock_conflict''"
    by blast
  then have A: "fst (?run ?wc) = Inr ()" "rows (snd (?run ?wc)) = rows ?wc"
    "map conflict_reason (conflict_records (snd (?run ?wc))) = [PStr ''vector_clock_conflict'']"
    by (simp_all add: c0)
  have cur2: "map_of (rows ?wd ''postgres'' (table_name update_n2)) (data_id update_n2)
      = Some (item_row 7 ''lamp'' 1 0)" by code_simp
  have dom: "vclock_dominates ?v \<lparr>vc_N = 1, vc_S = 0\<rparr>" by code_simp
  have B: "rows (snd (?run ?wd)) ''postgres'' ''items'' = [(7, item_row 7 ''desk'' 2 0)]" by code_simp
  have cv': "parse_vclock env0 (py_get (item_row 7 ''sofa'' 1 1) ''v_clock'') = Inr \<lparr>vc_N = 1, vc_S = 1\<rparr>"
    using cv by simp
  from cur cv' op conc A cur2 dom B show ?thesis by blast
qed

text \<open>
  The claim as stated names the reasons \<open>update_conflict\<close> and \<open>delete_conflict\<close>; the
  records that the code creates for a concurrent UPDATE and a concurrent DELETE carry
  \<open>vector_clock_conflict\<close> and \<open>vector_clock_conflict_delete\<close>.
\<close>

theorem C1_reason_tag_counterexample:
  "vclock_concurrent \<lparr>vc_N = 2, vc_S = 0\<rparr> \<lparr>vc_N = 1, vc_S = 1\<rparr>
   \<and> map conflict_reason
        (conflict_records
           (snd (sync_to_target env0 (world_with_item ''postgres'' (item_row 7 ''sofa'' 1 1)) ''mariadb''
                   update_n2 (item_row 7 ''desk'' 2 0) \<lparr>vc_N = 2, vc_S = 0\<rparr> ''postgres'')))
       = [PStr ''vector_clock_conflict'']
   \<and> PStr ''vector_clock_conflict'' \<noteq> PStr ''update_conflict''
   \<and> map conflict_reason
        (conflict_records
           (snd (sync_to_target env0 (world_with_item ''postgres'' (item_row 7 ''sofa'' 1 1)) ''mariadb''
                   delete_n2 (item_row 7 ''desk'' 2 0) \<lparr>vc_N = 2, vc_S = 0\<rparr> ''postgres'')))
       = [PStr ''vector_clock_conflict_delete'']
   \<and> PStr ''vector_clock_conflict_delete'' \<noteq> PStr ''delete_conflict''"
  by code_simp

section \<open>Theorems: conflict signatures and the resolution of a group\<close>


















lemma mark_resolved_id [simp]:
  "cr_id (mark_resolved now u note r) = cr_id r"
  "cr_resolved (mark_resolved now u note r)"
  by (simp_all add: mark_resolved_def)

lemma replicate_none:
  "(case (case None of None \<Rightarrow> (Inr [], rs) | Some db \<Rightarrow> f db) of (Inl e, rs') \<Rightarrow> g e rs' | (Inr s, rs') \<Rightarrow> h s rs') = h [] rs"
  by simp















end
